(* ===== verification/Prelude.thy ===== *)
theory Prelude
  imports Complex_Main
begin

section \<open>Shared vocabulary: Go errors, outcomes, contexts\<close>

text \<open>
  What every component of the service shares: Go's \<open>error\<close> values, a function's outcome
  (a value, an error or a panic), state-passing computations with the three combinators the
  translation uses, and \<open>context.Context\<close>. The collection \<open>io_simps\<close> evaluates the
  combinators.
\<close>

named_theorems io_simps \<open>evaluation of state-passing computations\<close>

subsection \<open>Errors\<close>

text \<open>
  The sentinel errors of \<^verbatim>\<open>internal/domain/errors.go\<close>, \<^verbatim>\<open>internal/application/errors.go\<close>
  and \<^verbatim>\<open>internal/bootstrap/errors.go\<close> are constructors of their own; \<open>ErrorString\<close>
  is \<open>errors.New\<close> or \<open>fmt.Errorf\<close> without \<open>%w\<close>; \<open>Wrapped\<close> is
  \<open>fmt.Errorf\<close> with a prefix and a final \<open>%w\<close>; \<open>Foreign\<close> is an error value
  made by a library or a service outside the repository, known by its text only.
\<close>

datatype go_error =
    ErrNotFound
  | ErrUnsupportedPair
  | ErrConflict
  | ErrBadRequest
  | ErrMissingDBURL
  | ContextCanceled
  | DeadlineExceeded
  | ErrorString string
  | Wrapped string go_error
  | Foreign string

primrec error_text :: "go_error \<Rightarrow> string" where
  "error_text ErrNotFound = ''not found''"
| "error_text ErrUnsupportedPair = ''unsupported pair''"
| "error_text ErrConflict = ''conflict''"
| "error_text ErrBadRequest = ''bad request''"
| "error_text ErrMissingDBURL = ''DATABASE_URL is required''"
| "error_text ContextCanceled = ''context canceled''"
| "error_text DeadlineExceeded = ''context deadline exceeded''"
| "error_text (ErrorString t) = t"
| "error_text (Wrapped prefix e) = prefix @ error_text e"
| "error_text (Foreign t) = t"

text \<open>\<open>errors.Is\<close>, which the code calls with sentinel targets only.\<close>

fun errors_is :: "go_error \<Rightarrow> go_error \<Rightarrow> bool" where
  "errors_is (Wrapped prefix e) target \<longleftrightarrow> Wrapped prefix e = target \<or> errors_is e target"
| "errors_is e target \<longleftrightarrow> e = target"

lemma errors_is_refl [simp]: "errors_is e e"
  by (cases e) auto

subsection \<open>Outcomes and state-passing computations\<close>

datatype 'a outcome = Ok 'a | Err go_error | Panic string

type_synonym ('s, 'a) io = "'s \<Rightarrow> 'a outcome \<times> 's"

definition io_return :: "'a \<Rightarrow> ('s, 'a) io" where
  "io_return a = (\<lambda>s. (Ok a, s))"

definition io_fail :: "go_error \<Rightarrow> ('s, 'a) io" where
  "io_fail e = (\<lambda>s. (Err e, s))"

definition io_panic :: "string \<Rightarrow> ('s, 'a) io" where
  "io_panic p = (\<lambda>s. (Panic p, s))"

text \<open>\<open>x, err := m(); if err != nil { return err }\<close> followed by the rest.\<close>

definition io_bind :: "('s, 'a) io \<Rightarrow> ('a \<Rightarrow> ('s, 'b) io) \<Rightarrow> ('s, 'b) io" where
  "io_bind m f = (\<lambda>s. case m s of
     (Ok a, s') \<Rightarrow> f a s'
   | (Err e, s') \<Rightarrow> (Err e, s')
   | (Panic p, s') \<Rightarrow> (Panic p, s'))"

text \<open>\<open>x, err := m()\<close> with \<open>err\<close> inspected or dropped; a panic still propagates.\<close>

definition io_try :: "('s, 'a) io \<Rightarrow> ('s, go_error + 'a) io" where
  "io_try m = (\<lambda>s. case m s of
     (Ok a, s') \<Rightarrow> (Ok (Inr a), s')
   | (Err e, s') \<Rightarrow> (Ok (Inl e), s')
   | (Panic p, s') \<Rightarrow> (Panic p, s'))"

text \<open>A method call on an interface value, which panics when the value is nil.\<close>

definition io_call :: "'r option \<Rightarrow> ('r \<Rightarrow> ('s, 'a) io) \<Rightarrow> ('s, 'a) io" where
  "io_call r f = (case r of
     None \<Rightarrow> io_panic ''invalid memory address or nil pointer dereference''
   | Some v \<Rightarrow> f v)"

lemma io_return_eq [io_simps]: "io_return a s = (Ok a, s)"
  by (simp add: io_return_def)

lemma io_fail_eq [io_simps]: "io_fail e s = (Err e, s)"
  by (simp add: io_fail_def)

lemma io_panic_eq [io_simps]: "io_panic p s = (Panic p, s)"
  by (simp add: io_panic_def)

lemma io_bind_eq [io_simps]:
  "io_bind m f s = (case m s of
     (Ok a, s') \<Rightarrow> f a s'
   | (Err e, s') \<Rightarrow> (Err e, s')
   | (Panic p, s') \<Rightarrow> (Panic p, s'))"
  by (simp add: io_bind_def)

lemma io_try_eq [io_simps]:
  "io_try m s = (case m s of
     (Ok a, s') \<Rightarrow> (Ok (Inr a), s')
   | (Err e, s') \<Rightarrow> (Ok (Inl e), s')
   | (Panic p, s') \<Rightarrow> (Panic p, s'))"
  by (simp add: io_try_def)

lemma io_call_Some [io_simps]: "io_call (Some v) f = f v"
  by (simp add: io_call_def)

lemma io_call_None [io_simps]:
  "io_call None f s = (Panic ''invalid memory address or nil pointer dereference'', s)"
  by (simp add: io_call_def io_panic_def)

lemma io_bind_OkE:
  assumes "io_bind m f s = (Ok b, t)"
  obtains a s' where "m s = (Ok a, s')" and "f a s' = (Ok b, t)"
  using assms by (auto simp: io_bind_def split: prod.splits outcome.splits)

lemma io_bind_ErrE:
  assumes "io_bind m f s = (Err e, t)"
  obtains "m s = (Err e, t)"
  | a s' where "m s = (Ok a, s')" and "f a s' = (Err e, t)"
  using assms by (auto simp: io_bind_def split: prod.splits outcome.splits)

text \<open>Triples over the final state, for invariants that hold whatever the outcome is.\<close>

definition io_keeps :: "('s \<Rightarrow> bool) \<Rightarrow> ('s, 'a) io \<Rightarrow> bool" where
  "io_keeps P m \<longleftrightarrow> (\<forall>s. P s \<longrightarrow> P (snd (m s)))"

named_theorems keeps_intros \<open>rules for computations that keep an invariant\<close>

lemma io_keepsI: "(\<And>s. P s \<Longrightarrow> P (snd (m s))) \<Longrightarrow> io_keeps P m"
  by (simp add: io_keeps_def)

lemma io_keepsD: "io_keeps P m \<Longrightarrow> P s \<Longrightarrow> P (snd (m s))"
  by (simp add: io_keeps_def)

lemma io_keeps_return [keeps_intros]: "io_keeps P (io_return a)"
  by (simp add: io_keeps_def io_return_def)

lemma io_keeps_fail [keeps_intros]: "io_keeps P (io_fail e)"
  by (simp add: io_keeps_def io_fail_def)

lemma io_keeps_panic [keeps_intros]: "io_keeps P (io_panic p)"
  by (simp add: io_keeps_def io_panic_def)

lemma io_keeps_bind [keeps_intros]:
  assumes "io_keeps P m" and "\<And>a. io_keeps P (f a)"
  shows "io_keeps P (io_bind m f)"
proof (rule io_keepsI)
  fix s assume "P s"
  with assms(1) have "P (snd (m s))" by (rule io_keepsD)
  with assms(2) show "P (snd (io_bind m f s))"
    by (cases "m s") (auto simp: io_bind_def io_keeps_def split: outcome.splits)
qed

lemma io_keeps_try [keeps_intros]:
  assumes "io_keeps P m"
  shows "io_keeps P (io_try m)"
proof (rule io_keepsI)
  fix s assume "P s"
  with assms have "P (snd (m s))" by (rule io_keepsD)
  then show "P (snd (io_try m s))"
    by (cases "m s") (auto simp: io_try_def split: outcome.splits)
qed

lemma io_keeps_call [keeps_intros]:
  "(\<And>v. r = Some v \<Longrightarrow> io_keeps P (f v)) \<Longrightarrow> io_keeps P (io_call r f)"
  by (cases r) (auto simp: io_call_def intro: io_keeps_panic)

subsection \<open>Contexts\<close>

text \<open>
  \<open>context.Context\<close>: the transaction the pg package stores in it, the request and trace
  ids the router stores in it, its deadline, and the instant at which its parent is canceled
  (none for a context nobody cancels). Instants are nanoseconds since the Unix epoch.
\<close>

record ctx =
  ctx_tx :: "nat option"
  ctx_deadline :: "int option"
  ctx_cancel_at :: "int option"
  ctx_request_id :: "string option"
  ctx_trace_id :: "string option"

definition ctx_background :: ctx where
  "ctx_background = \<lparr>ctx_tx = None, ctx_deadline = None, ctx_cancel_at = None,
     ctx_request_id = None, ctx_trace_id = None\<rparr>"

text \<open>\<open>ctx.Err()\<close> at an instant.\<close>

definition ctx_err :: "ctx \<Rightarrow> int \<Rightarrow> go_error option" where
  "ctx_err c t =
     (if (case ctx_cancel_at c of Some x \<Rightarrow> x \<le> t | None \<Rightarrow> False) then Some ContextCanceled
      else if (case ctx_deadline c of Some d \<Rightarrow> d \<le> t | None \<Rightarrow> False) then Some DeadlineExceeded
      else None)"

text \<open>\<open>context.WithTimeout(c, d)\<close> called at instant \<open>t\<close>: the earlier deadline wins.\<close>

definition ctx_with_timeout :: "ctx \<Rightarrow> int \<Rightarrow> int \<Rightarrow> ctx" where
  "ctx_with_timeout c t d = c\<lparr>ctx_deadline :=
     Some (case ctx_deadline c of None \<Rightarrow> t + d | Some d' \<Rightarrow> min d' (t + d))\<rparr>"

lemma ctx_err_background [simp]: "ctx_err ctx_background t = None"
  by (simp add: ctx_err_def ctx_background_def)

lemma ctx_err_tx [simp]: "ctx_err (c\<lparr>ctx_tx := x\<rparr>) t = ctx_err c t"
  by (simp add: ctx_err_def)

end
