(* ===== verification/Go_Float.thy ===== *)
theory Go_Float
  imports Prelude "HOL-Library.Log_Nat"
begin

section \<open>Floating-point numbers\<close>

text \<open>
  Go's \<open>float64\<close> and \<open>float32\<close> (IEEE 754, round to nearest, ties to even) as a
  rational or one of the special values; the sign of a zero is not kept. \<open>round_prec\<close>
  rounds an exact rational to \<open>prec\<close> significant bits with least exponent \<open>emin\<close>;
  \<open>f64\<close> and \<open>f32\<close> are its two instances.
\<close>

datatype go_float = Fin rat | PosInf | NegInf | NaN

definition ilog2 :: "rat \<Rightarrow> int" where
  "ilog2 x =
     (let (p, q) = quotient_of x;
          e = int (floorlog 2 (nat p)) - int (floorlog 2 (nat q))
      in if x < 2 powi e then e - 1 else e)"

definition round_half_even :: "rat \<Rightarrow> int" where
  "round_half_even x =
     (let f = \<lfloor>x\<rfloor>; d = x - of_int f
      in if d < 1 / 2 then f else if 1 / 2 < d then f + 1
         else if even f then f else f + 1)"

definition ulp_exp :: "int \<Rightarrow> int \<Rightarrow> rat \<Rightarrow> int" where
  "ulp_exp prec emin x = max (ilog2 \<bar>x\<bar> - (prec - 1)) emin"

definition round_prec :: "int \<Rightarrow> int \<Rightarrow> rat \<Rightarrow> rat" where
  "round_prec prec emin x =
     (if x = 0 then 0
      else let e = ulp_exp prec emin x
           in of_int (round_half_even (x / 2 powi e)) * 2 powi e)"

text \<open>A rounded value of magnitude \<open>2 ^ emax\<close> or more overflows to an infinity.\<close>

definition overflow :: "int \<Rightarrow> rat \<Rightarrow> go_float" where
  "overflow emax y =
     (if y \<noteq> 0 \<and> emax \<le> ilog2 \<bar>y\<bar> then (if 0 < y then PosInf else NegInf) else Fin y)"

definition f64 :: "rat \<Rightarrow> go_float" where
  "f64 x = overflow 1024 (round_prec 53 (-1074) x)"

definition f32 :: "rat \<Rightarrow> go_float" where
  "f32 x = overflow 128 (round_prec 24 (-149) x)"

text \<open>\<open>float32(x)\<close> of a \<open>float64\<close>.\<close>

definition to_float32 :: "go_float \<Rightarrow> go_float" where
  "to_float32 x = (case x of Fin r \<Rightarrow> f32 r | PosInf \<Rightarrow> PosInf | NegInf \<Rightarrow> NegInf | NaN \<Rightarrow> NaN)"

text \<open>\<open>a / b\<close>; a division by zero is taken by the zero's positive sign.\<close>

definition fsgn :: "rat \<Rightarrow> go_float" where
  "fsgn r = (if 0 < r then PosInf else if r < 0 then NegInf else NaN)"

definition go_div :: "go_float \<Rightarrow> go_float \<Rightarrow> go_float" where
  "go_div x y = (case (x, y) of
     (Fin a, Fin b) \<Rightarrow> if b = 0 then fsgn a else f64 (a / b)
   | (PosInf, Fin b) \<Rightarrow> if b < 0 then NegInf else PosInf
   | (NegInf, Fin b) \<Rightarrow> if b < 0 then PosInf else NegInf
   | (Fin a, PosInf) \<Rightarrow> Fin 0
   | (Fin a, NegInf) \<Rightarrow> Fin 0
   | _ \<Rightarrow> NaN)"

subsection \<open>Error of one rounding\<close>

lemma round_half_even_error: "\<bar>of_int (round_half_even x) - x\<bar> \<le> (1/2::rat)"
proof -
  define d where "d = x - of_int \<lfloor>x\<rfloor>"
  have "0 \<le> d" "d < 1" by (auto simp: d_def) linarith
  moreover have "of_int (round_half_even x) - x =
    (if d < 1/2 then - d else if 1/2 < d then 1 - d else if even \<lfloor>x\<rfloor> then - d else 1 - d)"
    by (simp add: round_half_even_def Let_def d_def)
  ultimately show ?thesis by (simp add: abs_if)
qed

lemma floorlog_ratio:
  fixes b p q :: nat
  assumes "2 \<le> b" and "0 < p" and "0 < q"
  shows "(of_nat b :: rat) powi (int (floorlog b p) - int (floorlog b q) - 1) \<le> of_nat p / of_nat q"
proof -
  define m n where "m = floorlog b p" and "n = floorlog b q"
  have m0: "0 < m" and pm: "b ^ (m - 1) \<le> p" and qn: "q < b ^ n"
    using assms floorlog_bounds [of p b] floorlog_bounds [of q b] by (auto simp: m_def n_def floorlog_def)
  have b0: "(of_nat b :: rat) \<noteq> 0" using assms(1) by simp
  have "int m - int n - 1 = int (m - 1) - int n" using m0 by simp
  then have "(of_nat b :: rat) powi (int m - int n - 1) = of_nat b powi int (m - 1) / of_nat b powi int n"
    by (simp only: power_int_diff [OF disjI1 [OF b0]])
  also have "\<dots> = of_nat (b ^ (m - 1)) / of_nat (b ^ n)" by simp
  also have "\<dots> \<le> of_nat p / of_nat q"
  proof (rule frac_le)
    show "(of_nat (b ^ (m - 1)) :: rat) \<le> of_nat p" using pm by (rule of_nat_mono)
    show "(of_nat q :: rat) \<le> of_nat (b ^ n)" using qn by (intro of_nat_mono) simp
  qed (use assms in simp_all)
  finally show ?thesis by (simp only: m_def n_def)
qed

text \<open>The integral logarithms computed from the quotient of two numbers are lower bounds.\<close>

lemma ilog_le:
  fixes x :: rat and b :: nat
  assumes "2 \<le> b" and "0 < x" and "quotient_of x = (p, q)"
    and "e = int (floorlog b (nat p)) - int (floorlog b (nat q))"
  shows "of_nat b powi (if x < of_nat b powi e then e - 1 else e) \<le> x"
proof -
  have q0: "0 < q" and x: "x = of_int p / of_int q"
    using quotient_of_denom_pos [OF assms(3)] quotient_of_div [OF assms(3)] by auto
  from assms(2) x q0 have p0: "0 < p" by (simp add: zero_less_divide_iff)
  have "of_nat (nat p) = (of_int p :: rat)" "of_nat (nat q) = (of_int q :: rat)" using p0 q0 by simp_all
  then have "of_nat b powi (e - 1) \<le> x"
    using floorlog_ratio [OF assms(1), of "nat p" "nat q"] p0 q0 x assms(4) by simp
  then show ?thesis by simp
qed

lemma ilog2_le:
  assumes "0 < x"
  shows "2 powi ilog2 x \<le> x"
  using ilog_le [of 2 x] assms by (auto simp: ilog2_def Let_def split: prod.splits)

text \<open>One rounding moves a value by at most half a unit in the last place.\<close>

lemma round_prec_error_ulp:
  "\<bar>round_prec prec emin x - x\<bar> \<le> 2 powi (ulp_exp prec emin x) / 2"
proof (cases "x = 0")
  case True
  then show ?thesis by (simp add: round_prec_def)
next
  case False
  define u :: rat where "u = 2 powi (ulp_exp prec emin x)"
  have u0: "0 < u" by (simp add: u_def)
  have "round_prec prec emin x - x = (of_int (round_half_even (x / u)) - x / u) * u"
    using False u0 by (simp add: round_prec_def u_def [symmetric] Let_def algebra_simps)
  then have "\<bar>round_prec prec emin x - x\<bar> = \<bar>of_int (round_half_even (x / u)) - x / u\<bar> * u"
    using u0 by (simp add: abs_mult)
  also have "\<dots> \<le> 1 / 2 * u"
    using round_half_even_error u0 by (intro mult_right_mono) auto
  finally show ?thesis by (simp add: u_def)
qed

lemma round_prec_error:
  "\<bar>round_prec prec emin x - x\<bar> \<le> max (\<bar>x\<bar> * 2 powi (- prec)) (2 powi (emin - 1))"
proof (cases "x = 0")
  case True
  then show ?thesis by (simp add: round_prec_def)
next
  case False
  have "2 powi (ulp_exp prec emin x) / 2 = (2::rat) powi (ulp_exp prec emin x - 1)"
    by (simp add: power_int_diff)
  also have "\<dots> \<le> max (\<bar>x\<bar> * 2 powi (- prec)) (2 powi (emin - 1))"
  proof (cases "emin \<le> ilog2 \<bar>x\<bar> - (prec - 1)")
    case True
    then have "(2::rat) powi (ulp_exp prec emin x - 1) = 2 powi (ilog2 \<bar>x\<bar>) * 2 powi (- prec)"
      by (simp add: ulp_exp_def max_def power_int_add [symmetric])
    also have "\<dots> \<le> \<bar>x\<bar> * 2 powi (- prec)"
      using ilog2_le [of "\<bar>x\<bar>"] False by (intro mult_right_mono) auto
    finally show ?thesis by linarith
  next
    case False
    then show ?thesis by (simp add: ulp_exp_def max_def)
  qed
  finally show ?thesis
    using round_prec_error_ulp [of prec emin x] by linarith
qed

lemma f64_error:
  assumes "f64 x = Fin y"
  shows "\<bar>y - x\<bar> \<le> max (\<bar>x\<bar> * 2 powi (-53)) (2 powi (-1075))"
  using assms round_prec_error [of 53 "-1074" x]
  by (auto simp: f64_def overflow_def split: if_splits)

lemma f64_0 [simp]: "f64 0 = Fin 0"
  by (simp add: f64_def round_prec_def overflow_def)

lemma overflow_small:
  assumes "\<bar>y\<bar> < 2 powi emax"
  shows "overflow emax y = Fin y"
proof (cases "y = 0")
  case False
  then have "(2::rat) powi ilog2 \<bar>y\<bar> < 2 powi emax" using ilog2_le [of "\<bar>y\<bar>"] assms by simp
  then have "ilog2 \<bar>y\<bar> < emax"
    using power_int_increasing [of emax "ilog2 \<bar>y\<bar>" "2::rat"] by (meson not_le one_le_numeral)
  then show ?thesis by (simp add: overflow_def)
qed (simp add: overflow_def)

end
