(* ===== verification/Domain.thy ===== *)
theory Domain
  imports Prelude Go_Float
begin

section \<open>The domain: pairs, quotes, updates\<close>

text \<open>
  The package \<^verbatim>\<open>internal/domain\<close>: the supported pairs and \<open>ValidatePair\<close>, and the
  records the other packages exchange. A \<open>time.Time\<close> is an instant, the nanoseconds since the
  Unix epoch.
\<close>

subsection \<open>Currency pairs\<close>

definition SupportedCurrency :: "string \<Rightarrow> bool" where
  "SupportedCurrency cur \<longleftrightarrow> cur = ''USD'' \<or> cur = ''EUR'' \<or> cur = ''MXN''"

definition upper_letter :: "char \<Rightarrow> bool" where
  "upper_letter ch \<longleftrightarrow> (65::nat) \<le> of_char ch \<and> of_char ch \<le> (90::nat)"

text \<open>The regular expression \<^verbatim>\<open>^[A-Z]{3}/[A-Z]{3}$\<close> on the bytes of the string.\<close>

definition pairRe_match :: "string \<Rightarrow> bool" where
  "pairRe_match p \<longleftrightarrow> length p = 7 \<and> list_all upper_letter (take 3 p) \<and> p ! 3 = CHR ''/''
     \<and> list_all upper_letter (drop 4 p)"

definition pair_base :: "string \<Rightarrow> string" where
  "pair_base p = take 3 p"

definition pair_quote :: "string \<Rightarrow> string" where
  "pair_quote p = drop 4 p"

definition ValidatePair :: "string \<Rightarrow> bool" where
  "ValidatePair p =
     (if \<not> pairRe_match p then False
      else SupportedCurrency (pair_base p) \<and> SupportedCurrency (pair_quote p)
           \<and> pair_base p \<noteq> pair_quote p)"

definition supported_pairs :: "string list" where
  "supported_pairs = [''USD/EUR'', ''USD/MXN'', ''EUR/USD'', ''EUR/MXN'', ''MXN/USD'', ''MXN/EUR'']"

lemma pair_split:
  assumes "pairRe_match p"
  shows "p = pair_base p @ ''/'' @ pair_quote p"
proof -
  have len: "length p = 7" and slash: "p ! 3 = CHR ''/''"
    using assms by (auto simp: pairRe_match_def)
  have "p = take 3 p @ p ! 3 # drop 4 p"
    using len id_take_nth_drop [of 3 p] by simp
  with slash show ?thesis by (simp add: pair_base_def pair_quote_def)
qed

lemma pairRe_match_supported:
  assumes "SupportedCurrency b" and "SupportedCurrency q"
  shows "pairRe_match (b @ ''/'' @ q)"
  using assms by (auto simp: SupportedCurrency_def pairRe_match_def upper_letter_def)

lemma ValidatePair_iff: "ValidatePair p \<longleftrightarrow> p \<in> set supported_pairs"
proof
  assume v: "ValidatePair p"
  then have "pairRe_match p" and "SupportedCurrency (pair_base p)"
    and "SupportedCurrency (pair_quote p)" and "pair_base p \<noteq> pair_quote p"
    by (auto simp: ValidatePair_def split: if_splits)
  then show "p \<in> set supported_pairs"
    by (subst pair_split [of p]) (auto simp: SupportedCurrency_def supported_pairs_def)
next
  assume "p \<in> set supported_pairs"
  then show "ValidatePair p"
    by (auto simp: supported_pairs_def ValidatePair_def pairRe_match_def upper_letter_def
        SupportedCurrency_def pair_base_def pair_quote_def)
qed

text \<open>
  C40: \<open>ValidatePair\<close> accepts exactly the six ordered pairs of two different currencies
  among USD, EUR and MXN, and refuses every other string.
\<close>

theorem ValidatePair_supported: "ValidatePair p \<longleftrightarrow> p \<in> set supported_pairs"
  by (rule ValidatePair_iff)

subsection \<open>Quotes and update jobs\<close>

datatype QuoteUpdateStatus = Queued | Processing | Done | Failed | OtherStatus string

text \<open>One of the four declared statuses (the Go type is a string and admits others).\<close>

definition known_status :: "QuoteUpdateStatus \<Rightarrow> bool" where
  "known_status st = (case st of OtherStatus _ \<Rightarrow> False | _ \<Rightarrow> True)"

lemma known_status_simps [simp]:
  "known_status Queued" "known_status Processing" "known_status Done" "known_status Failed"
  "\<not> known_status (OtherStatus x)"
  by (simp_all add: known_status_def)

record Quote =
  Q_Pair :: string
  Q_Price :: go_float
  Q_UpdatedAt :: int

record QuoteHistory =
  H_Pair :: string
  H_Price :: go_float
  H_QuotedAt :: int
  H_Source :: string
  H_UpdateID :: "string option"

record QuoteUpdate =
  U_ID :: string
  U_Pair :: string
  U_Status :: QuoteUpdateStatus
  U_Error :: "string option"
  U_Price :: "go_float option"
  U_UpdatedAt :: int

end
