(* ===== verification/Ports.thy ===== *)
theory Ports
  imports Domain
begin

section \<open>The ports of the application layer\<close>

text \<open>
  The interfaces of \<^verbatim>\<open>internal/application/ports.go\<close> and \<^verbatim>\<open>internal/application/uow.go\<close>
  as records of methods over a state \<open>'s\<close> (whatever the implementation behind them keeps),
  and, for each interface, a locale with the laws its callers rely on. A port is interpreted in
  the theory of the component that implements it.
\<close>

subsection \<open>The interfaces\<close>

record 's QuoteRepo =
  GetLast :: "ctx \<Rightarrow> string \<Rightarrow> ('s, Quote) io"
  Upsert :: "ctx \<Rightarrow> Quote \<Rightarrow> ('s, unit) io"
  AppendHistory :: "ctx \<Rightarrow> QuoteHistory \<Rightarrow> ('s, unit) io"

record 's UpdateJobRepo =
  CreateQueued :: "ctx \<Rightarrow> string \<Rightarrow> string option \<Rightarrow> ('s, string) io"
  GetByID :: "ctx \<Rightarrow> string \<Rightarrow> ('s, QuoteUpdate) io"
  UpdateStatus :: "ctx \<Rightarrow> string \<Rightarrow> QuoteUpdateStatus \<Rightarrow> string option \<Rightarrow> ('s, unit) io"
  ClaimQueued :: "ctx \<Rightarrow> int \<Rightarrow> ('s, (string \<times> string) list) io"

record 's RateProvider =
  Get :: "ctx \<Rightarrow> string \<Rightarrow> ('s, Quote) io"

record 's IdempotencyStore =
  TryReserve :: "ctx \<Rightarrow> string \<Rightarrow> ('s, bool) io"

record 's UnitOfWork =
  Do :: "ctx \<Rightarrow> (ctx \<Rightarrow> ('s, unit) io) \<Rightarrow> ('s, unit) io"

text \<open>\<open>NoopUoW\<close>: the function runs on the caller's own context.\<close>

definition NoopUoW :: "'s UnitOfWork" where
  "NoopUoW = \<lparr>Do = (\<lambda>c fn. fn c)\<rparr>"

subsection \<open>What the repositories store, as their callers see it\<close>

text \<open>
  A job as its callers see it; a store is a map from job ids to jobs (\<open>jobs c s\<close>, what
  a caller with context \<open>c\<close> sees in state \<open>s\<close>) and a map from pairs to stored quotes.
\<close>

record job_view =
  jv_pair :: string
  jv_status :: QuoteUpdateStatus
  jv_error :: "string option"

type_synonym job_map = "string \<rightharpoonup> job_view"

definition set_job :: "string \<Rightarrow> QuoteUpdateStatus \<Rightarrow> string option \<Rightarrow> job_map \<Rightarrow> job_map" where
  "set_job i st err m = (case m i of
     None \<Rightarrow> m
   | Some j \<Rightarrow> m(i \<mapsto> j\<lparr>jv_status := st, jv_error := err\<rparr>))"

text \<open>A completion settles its job or leaves it.\<close>

definition settles :: "string \<Rightarrow> job_map \<Rightarrow> job_map \<Rightarrow> bool" where
  "settles i m m' \<longleftrightarrow> m' = m \<or> m' = set_job i Done None m \<or> (\<exists>t. m' = set_job i Failed (Some t) m)"

definition claim_jobs :: "string set \<Rightarrow> job_map \<Rightarrow> job_map" where
  "claim_jobs ids m = (\<lambda>i. if i \<in> ids then map_option (\<lambda>j. j\<lparr>jv_status := Processing\<rparr>) (m i) else m i)"

text \<open>
  From \<open>m\<close> to \<open>m'\<close> only the jobs of \<open>ids\<close> changed, none was added, removed or given
  another pair, and none of \<open>ids\<close> is queued any more.
\<close>

definition moved :: "string set \<Rightarrow> job_map \<Rightarrow> job_map \<Rightarrow> bool" where
  "moved ids m m' \<longleftrightarrow> dom m' = dom m \<and>
     (\<forall>k. k \<notin> ids \<longrightarrow> m' k = m k) \<and>
     (\<forall>k \<in> ids. \<forall>j j'. m k = Some j \<longrightarrow> m' k = Some j' \<longrightarrow>
        jv_pair j' = jv_pair j \<and> jv_status j' \<noteq> Queued)"

lemma moved_claim:
  "moved ids m (claim_jobs ids m)"
  by (auto simp: moved_def claim_jobs_def split: if_splits)

lemma set_job_same [simp]:
  "m i = Some j \<Longrightarrow> set_job i st err m i = Some (j\<lparr>jv_status := st, jv_error := err\<rparr>)"
  by (simp add: set_job_def)

lemma set_job_other [simp]: "i \<noteq> k \<Longrightarrow> set_job i st err m k = m k"
  by (simp add: set_job_def split: option.splits)

lemma dom_set_job [simp]: "dom (set_job i st err m) = dom m"
  by (auto simp: set_job_def split: option.splits)

lemma dom_claim_jobs [simp]: "dom (claim_jobs ids m) = dom m"
  by (auto simp: claim_jobs_def split: if_splits)

lemma claim_jobs_other [simp]: "i \<notin> ids \<Longrightarrow> claim_jobs ids m i = m i"
  by (simp add: claim_jobs_def)

text \<open>Setting the status of one of the moved jobs to anything but queued is a further move.\<close>

lemma moved_set_job:
  assumes m: "moved ids m m'" and i: "i \<in> ids" and st: "st \<noteq> Queued"
  shows "moved ids m (set_job i st err m')"
  unfolding moved_def
proof (intro conjI ballI allI impI)
  show "dom (set_job i st err m') = dom m" using m by (simp add: moved_def)
next
  fix k assume "k \<notin> ids"
  moreover from this i have "i \<noteq> k" by blast
  ultimately show "set_job i st err m' k = m k" using m by (simp add: moved_def)
next
  fix k j j' assume k: "k \<in> ids" and mk: "m k = Some j" and sk: "set_job i st err m' k = Some j'"
  obtain x where x: "m' k = Some x"
    and j': "j' = (if i = k then x\<lparr>jv_status := st, jv_error := err\<rparr> else x)"
    using sk by (cases "i = k"; cases "m' i") (auto simp: set_job_def)
  from m k mk x have "jv_pair x = jv_pair j" and "jv_status x \<noteq> Queued"
    unfolding moved_def by blast+
  with j' st show "jv_pair j' = jv_pair j" and "jv_status j' \<noteq> Queued" by simp_all
qed

subsection \<open>The contracts\<close>

text \<open>
  \<open>key\<close> is the canonical form of a job id (an id may have several spellings).
  The laws are stated over the states a store's own invariant \<open>inv\<close> admits. A method
  that answers with an error has either left the caller's view alone or had its whole
  effect (its answer was lost); a method that succeeds had its effect.
\<close>

locale job_port =
  fixes jr :: "'s UpdateJobRepo"
    and inv :: "ctx \<Rightarrow> 's \<Rightarrow> bool"
    and jobs :: "ctx \<Rightarrow> 's \<Rightarrow> job_map"
    and key :: "string \<Rightarrow> string"
  assumes status_ok:
    "inv c s \<Longrightarrow> known_status st \<Longrightarrow> UpdateStatus jr c i st err s = (Ok (), s') \<Longrightarrow>
       key i \<in> dom (jobs c s) \<and> jobs c s' = set_job (key i) st err (jobs c s)"
    and status_err:
    "inv c s \<Longrightarrow> known_status st \<Longrightarrow> UpdateStatus jr c i st err s = (Err e, s') \<Longrightarrow>
       jobs c s' = jobs c s \<or> jobs c s' = set_job (key i) st err (jobs c s)"
    and status_no_panic: "inv c s \<Longrightarrow> UpdateStatus jr c i st err s \<noteq> (Panic p, s')"
    and status_inv: "inv c s \<Longrightarrow> inv c (snd (UpdateStatus jr c i st err s))"
    and claim_ok:
    "inv c s \<Longrightarrow> ClaimQueued jr c n s = (Ok xs, s') \<Longrightarrow>
       distinct (map fst xs) \<and>
       (\<forall>(i, p) \<in> set xs. key i = i \<and> (\<exists>j. jobs c s i = Some j \<and> jv_status j = Queued \<and> jv_pair j = p)) \<and>
       jobs c s' = claim_jobs (fst ` set xs) (jobs c s)"
    and claim_err:
    "inv c s \<Longrightarrow> ClaimQueued jr c n s = (Err e, s') \<Longrightarrow>
       \<exists>ids. (\<forall>i \<in> ids. \<exists>j. jobs c s i = Some j \<and> jv_status j = Queued) \<and>
         jobs c s' = claim_jobs ids (jobs c s)"
    and claim_no_panic: "inv c s \<Longrightarrow> ClaimQueued jr c n s \<noteq> (Panic p, s')"
    and claim_inv: "inv c s \<Longrightarrow> inv c (snd (ClaimQueued jr c n s))"
    and create_ok:
    "inv c s \<Longrightarrow> CreateQueued jr c p k s = (Ok i, s') \<Longrightarrow>
       jobs c s' = (jobs c s)(key i \<mapsto> \<lparr>jv_pair = p, jv_status = Queued, jv_error = None\<rparr>)"
    and create_inv: "inv c s \<Longrightarrow> inv c (snd (CreateQueued jr c p k s))"
    and get_ok:
    "inv c s \<Longrightarrow> GetByID jr c i s = (Ok u, s') \<Longrightarrow>
       jobs c s (U_ID u) = Some \<lparr>jv_pair = U_Pair u, jv_status = U_Status u, jv_error = U_Error u\<rparr>"
    and get_pure: "inv c s \<Longrightarrow> jobs c (snd (GetByID jr c i s)) = jobs c s"
begin

text \<open>\<open>_ = UpdateStatus(...)\<close>: the caller drops the error.\<close>

lemma status_any:
  assumes "inv c s" and "known_status st" and "UpdateStatus jr c i st err s = (r, s')"
  shows "jobs c s' = jobs c s \<or> jobs c s' = set_job (key i) st err (jobs c s)"
proof (cases r)
  case (Ok u)
  with assms show ?thesis using status_ok by (cases u) auto
next
  case (Err e)
  with assms show ?thesis using status_err by auto
next
  case (Panic p)
  with assms show ?thesis using status_no_panic by auto
qed

lemma status_any_dom:
  assumes "inv c s" and "known_status st" and "UpdateStatus jr c i st err s = (r, s')"
  shows "dom (jobs c s') = dom (jobs c s)" and "k \<noteq> key i \<Longrightarrow> jobs c s' k = jobs c s k"
  using status_any [OF assms] by (metis dom_set_job, metis set_job_other)

end

text \<open>A job store whose new ids are new.\<close>

locale fresh_job_port = job_port +
  assumes create_fresh: "inv c s \<Longrightarrow> CreateQueued jr c p k s = (Ok i, s') \<Longrightarrow> jobs c s (key i) = None"
    and create_err:
    "inv c s \<Longrightarrow> CreateQueued jr c p k s = (Err e, s') \<Longrightarrow>
       jobs c s' = jobs c s \<or>
       (\<exists>i. jobs c s i = None \<and>
         jobs c s' = (jobs c s)(i \<mapsto> \<lparr>jv_pair = p, jv_status = Queued, jv_error = None\<rparr>))"
begin

lemma create_keeps_old:
  assumes "inv c s" and "CreateQueued jr c p k s = (Ok i, s')" and "jobs c s x = Some j"
  shows "jobs c s' x = Some j"
  using assms create_ok [of c s p k i s'] create_fresh [of c s p k i s'] by auto

end

text \<open>
  The quote store: \<open>quotes c s\<close> maps a pair to what is stored for it, \<open>enc\<close> is the
  stored form of a quote and \<open>dec\<close> the quote a stored form reads back as; \<open>history c s\<close> is
  the price history and \<open>add\<close> the effect of appending to it.
\<close>

locale quote_port =
  fixes qr :: "'s QuoteRepo"
    and inv :: "ctx \<Rightarrow> 's \<Rightarrow> bool"
    and quotes :: "ctx \<Rightarrow> 's \<Rightarrow> string \<rightharpoonup> 'q"
    and enc :: "Quote \<Rightarrow> 'q"
    and dec :: "string \<Rightarrow> 'q \<Rightarrow> Quote"
    and history :: "ctx \<Rightarrow> 's \<Rightarrow> 'h"
    and add :: "QuoteHistory \<Rightarrow> 'h \<Rightarrow> 'h"
  assumes upsert_ok:
    "inv c s \<Longrightarrow> Upsert qr c q s = (Ok (), s') \<Longrightarrow> quotes c s' = (quotes c s)(Q_Pair q \<mapsto> enc q)"
    and upsert_err:
    "inv c s \<Longrightarrow> Upsert qr c q s = (Err e, s') \<Longrightarrow>
       quotes c s' = quotes c s \<or> quotes c s' = (quotes c s)(Q_Pair q \<mapsto> enc q)"
    and upsert_history: "inv c s \<Longrightarrow> history c (snd (Upsert qr c q s)) = history c s"
    and upsert_no_panic: "inv c s \<Longrightarrow> Upsert qr c q s \<noteq> (Panic x, s')"
    and upsert_inv: "inv c s \<Longrightarrow> inv c (snd (Upsert qr c q s))"
    and last_ok:
    "inv c s \<Longrightarrow> GetLast qr c p s = (Ok q, s') \<Longrightarrow>
       \<exists>x. quotes c s p = Some x \<and> q = dec p x"
    and last_missing: "inv c s \<Longrightarrow> GetLast qr c p s = (Err ErrNotFound, s') \<Longrightarrow> quotes c s p = None"
    and last_pure: "inv c s \<Longrightarrow> quotes c (snd (GetLast qr c p s)) = quotes c s"
    and last_inv: "inv c s \<Longrightarrow> inv c (snd (GetLast qr c p s))"
    and history_quotes: "inv c s \<Longrightarrow> quotes c (snd (AppendHistory qr c h s)) = quotes c s"
    and history_ok:
    "inv c s \<Longrightarrow> AppendHistory qr c h s = (Ok (), s') \<Longrightarrow> history c s' = add h (history c s)"
    and history_err:
    "inv c s \<Longrightarrow> AppendHistory qr c h s = (Err e, s') \<Longrightarrow>
       history c s' = history c s \<or> history c s' = add h (history c s)"
    and history_no_panic: "inv c s \<Longrightarrow> AppendHistory qr c h s \<noteq> (Panic x, s')"
    and history_inv: "inv c s \<Longrightarrow> inv c (snd (AppendHistory qr c h s))"
begin

text \<open>What was stored is what is read, in its stored form.\<close>

lemma last_after_upsert:
  assumes "inv c s" and "Upsert qr c q s = (Ok (), s1)" and "GetLast qr c (Q_Pair q) s1 = (Ok q', s2)"
  shows "q' = dec (Q_Pair q) (enc q)"
proof -
  have "inv c s1" using upsert_inv [of c s q] assms(1,2) by simp
  from last_ok [OF this assms(3)] upsert_ok [OF assms(1,2)] show ?thesis by auto
qed

end

text \<open>
  The unit of work. \<open>sees c s\<close> is the whole of what a caller with context \<open>c\<close> sees.
  When \<open>Do\<close> succeeds, the function ran on a context \<open>c'\<close> that saw the caller's view and
  the caller now sees what \<open>c'\<close> saw at the end.
\<close>

locale uow_port =
  fixes u :: "'s UnitOfWork"
    and inv :: "ctx \<Rightarrow> 's \<Rightarrow> bool"
    and sees :: "ctx \<Rightarrow> 's \<Rightarrow> 'v"
  assumes do_ok:
    "inv c s \<Longrightarrow> ctx_tx c = None \<Longrightarrow> Do u c fn s = (Ok (), s') \<Longrightarrow>
       \<exists>c' s1 s2. inv c' s1 \<and> sees c' s1 = sees c s \<and> fn c' s1 = (Ok (), s2) \<and> sees c s' = sees c' s2"

text \<open>
  A unit of work that is also atomic: when it fails, the caller sees either nothing of what
  the function did or (its last answer was lost) all of it. The function must do all its
  writing through the context it is given: on a context inside a transaction it changes
  nothing that a caller outside sees.
\<close>

locale atomic_uow_port = uow_port +
  assumes do_err:
    "inv c s \<Longrightarrow> ctx_tx c = None \<Longrightarrow> Do u c fn s = (Err e, s') \<Longrightarrow>
       (\<And>c' v. ctx_tx c' \<noteq> None \<Longrightarrow> io_keeps (\<lambda>s. inv c s \<and> sees c s = v) (fn c')) \<Longrightarrow>
       sees c s' = sees c s \<or>
       (\<exists>c' s1 s2. inv c' s1 \<and> sees c' s1 = sees c s \<and> fn c' s1 = (Ok (), s2) \<and> sees c s' = sees c' s2)"
    and do_inv:
    "inv c s \<Longrightarrow> ctx_tx c = None \<Longrightarrow> (\<And>c'. io_keeps (inv c') (fn c')) \<Longrightarrow>
       (\<And>c' v. ctx_tx c' \<noteq> None \<Longrightarrow> io_keeps (\<lambda>s. inv c s \<and> sees c s = v) (fn c')) \<Longrightarrow>
       inv c (snd (Do u c fn s))"
    and do_no_panic:
    "inv c s \<Longrightarrow> ctx_tx c = None \<Longrightarrow>
       (\<And>c' s x s'. inv c' s \<Longrightarrow> fn c' s \<noteq> (Panic x, s')) \<Longrightarrow> Do u c fn s \<noteq> (Panic y, s')"

text \<open>The rate provider: asking for a rate changes nothing the stores show.\<close>

locale rate_port =
  fixes rp :: "'s RateProvider"
    and inv :: "ctx \<Rightarrow> 's \<Rightarrow> bool"
    and sees :: "ctx \<Rightarrow> 's \<Rightarrow> 'v"
  assumes get_sees: "inv c s \<Longrightarrow> sees c (snd (Get rp c' p s)) = sees c s"
    and get_inv: "inv c s \<Longrightarrow> inv c (snd (Get rp c' p s))"
begin

lemma get_keeps: "io_keeps (\<lambda>s. inv c s \<and> P (sees c s)) (Get rp c' p)"
  by (auto simp: io_keeps_def get_sees get_inv)

end

text \<open>The idempotency store: reserving a key changes nothing the stores show.\<close>

locale idempotency_port =
  fixes ids :: "'s IdempotencyStore"
    and inv :: "ctx \<Rightarrow> 's \<Rightarrow> bool"
    and sees :: "ctx \<Rightarrow> 's \<Rightarrow> 'v"
  assumes reserve_sees: "inv c s \<Longrightarrow> sees c (snd (TryReserve ids c' k s)) = sees c s"
    and reserve_inv: "inv c s \<Longrightarrow> inv c (snd (TryReserve ids c' k s))"

end
