(* ===== verification/Job_Life.thy ===== *)
theory Job_Life
  imports Ports Domain
begin

section \<open>The life of a job\<close>

text \<open>
  What the system promises of its jobs, as a machine of its own: a job is created queued, for a
  pair the service supports; it is claimed once, and a claimed job is settled once, as done or as
  failed with a reason. The processes of the service are shown to run within this machine.
\<close>

inductive created :: "job_map \<Rightarrow> job_map \<Rightarrow> bool" where
  "m i = None \<Longrightarrow> ValidatePair p \<Longrightarrow> created m (m(i \<mapsto> \<lparr>jv_pair = p, jv_status = Queued, jv_error = None\<rparr>))"

inductive job_life :: "job_map \<Rightarrow> job_map \<Rightarrow> bool" where
  create: "created m m' \<Longrightarrow> job_life m m'"
| claim: "m i = Some j \<Longrightarrow> jv_status j = Queued \<Longrightarrow> job_life m (m(i \<mapsto> j\<lparr>jv_status := Processing\<rparr>))"
| succeed: "m i = Some j \<Longrightarrow> jv_status j = Processing \<Longrightarrow> job_life m (m(i \<mapsto> j\<lparr>jv_status := Done\<rparr>))"
| give_up: "m i = Some j \<Longrightarrow> jv_status j = Processing \<Longrightarrow>
    job_life m (m(i \<mapsto> j\<lparr>jv_status := Failed, jv_error := Some t\<rparr>))"

inductive_cases created_cases: "created m m'"
inductive_cases job_life_cases: "job_life m m'"

text \<open>A well-formed job, and the order in which its statuses come.\<close>

definition job_ok :: "job_view \<Rightarrow> bool" where
  "job_ok j \<longleftrightarrow> ValidatePair (jv_pair j) \<and> known_status (jv_status j) \<and>
     (jv_error j \<noteq> None) = (jv_status j = Failed)"

definition jobs_ok :: "job_map \<Rightarrow> bool" where
  "jobs_ok m \<longleftrightarrow> (\<forall>i j. m i = Some j \<longrightarrow> job_ok j)"

fun rank :: "QuoteUpdateStatus \<Rightarrow> nat" where
  "rank Queued = 0" | "rank Processing = 1" | "rank _ = 2"

instantiation QuoteUpdateStatus :: preorder
begin

definition less_eq_QuoteUpdateStatus :: "QuoteUpdateStatus \<Rightarrow> QuoteUpdateStatus \<Rightarrow> bool" where
  "less_eq_QuoteUpdateStatus s s' \<longleftrightarrow> rank s \<le> rank s'"

definition less_QuoteUpdateStatus :: "QuoteUpdateStatus \<Rightarrow> QuoteUpdateStatus \<Rightarrow> bool" where
  "less_QuoteUpdateStatus s s' \<longleftrightarrow> rank s < rank s'"

instance
  by standard (auto simp: less_eq_QuoteUpdateStatus_def less_QuoteUpdateStatus_def)

end

lemma status_order [simp]: "Queued \<le> st" "Processing \<le> Done" "Processing \<le> Failed"
  by (simp_all add: less_eq_QuoteUpdateStatus_def)

text \<open>How a job may differ after a run: it is still there with its pair, and has only moved on.\<close>

definition later :: "job_view \<Rightarrow> job_view \<Rightarrow> bool" where
  "later j j' \<longleftrightarrow> jv_pair j' = jv_pair j \<and> jv_status j \<le> jv_status j' \<and>
     (jv_status j \<in> {Done, Failed} \<longrightarrow> j' = j)"

lemma later_refl [simp]: "later j j"
  by (simp add: later_def)

lemma later_trans: "later a b \<Longrightarrow> later b c \<Longrightarrow> later a c"
  by (auto simp: later_def intro: order_trans)

lemma jobs_ok_update: "jobs_ok m \<Longrightarrow> job_ok j \<Longrightarrow> jobs_ok (m(i \<mapsto> j))"
  by (simp add: jobs_ok_def)

lemma jobs_okD: "jobs_ok m \<Longrightarrow> m i = Some j \<Longrightarrow> job_ok j"
  by (simp add: jobs_ok_def)

lemma created_ok: "created m m' \<Longrightarrow> jobs_ok m \<Longrightarrow> jobs_ok m'"
  by (auto elim!: created_cases intro!: jobs_ok_update simp: job_ok_def)

lemma job_life_ok: "job_life m m' \<Longrightarrow> jobs_ok m \<Longrightarrow> jobs_ok m'"
proof (induction rule: job_life.induct)
  case (create m m')
  then show ?case by (rule created_ok)
qed (frule (1) jobs_okD, rule jobs_ok_update, assumption, simp add: job_ok_def)+

lemma job_life_later: "job_life m m' \<Longrightarrow> m i = Some j \<Longrightarrow> \<exists>j'. m' i = Some j' \<and> later j j'"
  by (auto elim!: job_life_cases created_cases simp: later_def)

lemma job_life_run_ok: "job_life\<^sup>*\<^sup>* m m' \<Longrightarrow> jobs_ok m \<Longrightarrow> jobs_ok m'"
  by (induction rule: rtranclp_induct) (auto intro: job_life_ok)

lemma job_life_run_later: "job_life\<^sup>*\<^sup>* m m' \<Longrightarrow> m i = Some j \<Longrightarrow> \<exists>j'. m' i = Some j' \<and> later j j'"
proof (induction rule: rtranclp_induct)
  case base
  then show ?case by auto
next
  case (step b c)
  then obtain x where "b i = Some x" "later j x" by auto
  with job_life_later [OF step.hyps(2)] later_trans show ?case by blast
qed

lemma created_run_life: "created\<^sup>*\<^sup>* m m' \<Longrightarrow> job_life\<^sup>*\<^sup>* m m'"
  by (induction rule: rtranclp_induct) (auto intro: job_life.create rtranclp.rtrancl_into_rtrancl)

lemma created_run_keeps: "created\<^sup>*\<^sup>* m m' \<Longrightarrow> m i = Some j \<Longrightarrow> m' i = Some j"
  by (induction rule: rtranclp_induct) (auto elim!: created_cases)

text \<open>Claiming a finite set of queued jobs is a run of single claims.\<close>

lemma claim_jobs_life:
  assumes "finite ids" and "\<forall>i \<in> ids. \<exists>j. m i = Some j \<and> jv_status j = Queued"
  shows "job_life\<^sup>*\<^sup>* m (claim_jobs ids m)"
  using assms
proof (induction ids rule: finite_induct)
  case empty
  then show ?case by (simp add: claim_jobs_def)
next
  case (insert i ids)
  then obtain j where j: "m i = Some j" "jv_status j = Queued" by auto
  have "claim_jobs (insert i ids) m = (claim_jobs ids m)(i \<mapsto> j\<lparr>jv_status := Processing\<rparr>)"
    using j by (auto simp: claim_jobs_def fun_eq_iff)
  moreover have "claim_jobs ids m i = Some j" using j insert.hyps(2) by simp
  ultimately have "job_life (claim_jobs ids m) (claim_jobs (insert i ids) m)"
    using job_life.claim [of "claim_jobs ids m" i j] j(2) by simp
  with insert show ?case by (auto intro: rtranclp.rtrancl_into_rtrancl)
qed

text \<open>Settling a job in progress.\<close>

lemma set_job_life:
  assumes "m i = Some j" and "jv_status j = Processing" and "jv_error j = None"
  shows "job_life m (set_job i Done None m)" and "job_life m (set_job i Failed (Some t) m)"
proof -
  have "j\<lparr>jv_status := Done, jv_error := None\<rparr> = j\<lparr>jv_status := Done\<rparr>" using assms(3) by simp
  then show "job_life m (set_job i Done None m)"
    using job_life.succeed [of m i j, OF assms(1,2)] assms(1) by (simp add: set_job_def)
  show "job_life m (set_job i Failed (Some t) m)"
    using job_life.give_up [of m i j, OF assms(1,2)] assms(1) by (simp add: set_job_def)
qed

end
