(* ===== verification/Go_Strings.thy ===== *)
theory Go_Strings
  imports Prelude
begin

section \<open>Strings: decimal numbers, quoting, trimming\<close>

text \<open>
  What the code uses of Go's \<open>strconv\<close>, \<open>strings\<close> and \<open>fmt\<close>. A Go string is its
  list of bytes.
\<close>

subsection \<open>Decimal numbers\<close>

definition byte :: "nat \<Rightarrow> char" where
  "byte n = char_of n"

definition digit_char :: "nat \<Rightarrow> char" where
  "digit_char d = byte (48 + d)"

definition is_digit :: "char \<Rightarrow> bool" where
  "is_digit ch \<longleftrightarrow> 48 \<le> (of_char ch :: nat) \<and> (of_char ch :: nat) \<le> 57"

definition digit_val :: "char \<Rightarrow> nat" where
  "digit_val ch = of_char ch - 48"

fun show_nat :: "nat \<Rightarrow> string" where
  "show_nat n = (if n < 10 then [digit_char n] else show_nat (n div 10) @ [digit_char (n mod 10)])"

declare show_nat.simps [simp del]

text \<open>\<open>%d\<close>\<close>

definition show_int :: "int \<Rightarrow> string" where
  "show_int i = (if i < 0 then CHR ''-'' # show_nat (nat (- i)) else show_nat (nat i))"

fun read_nat :: "nat \<Rightarrow> string \<Rightarrow> nat option" where
  "read_nat acc [] = Some acc"
| "read_nat acc (ch # s) = (if is_digit ch then read_nat (10 * acc + digit_val ch) s else None)"

text \<open>
  \<open>strconv.Atoi\<close> on a 64-bit platform: an optional sign, at least one decimal digit, and
  a value in the range of \<open>int64\<close>. An error is \<open>None\<close>.
\<close>

definition go_atoi :: "string \<Rightarrow> int option" where
  "go_atoi s =
     (let (neg, ds) = (case s of
            ch # t \<Rightarrow> if ch = CHR ''-'' then (True, t) else if ch = CHR ''+'' then (False, t) else (False, s)
          | [] \<Rightarrow> (False, []))
      in if ds = [] then None
         else case read_nat 0 ds of
            None \<Rightarrow> None
          | Some n \<Rightarrow>
              let v = (if neg then - int n else int n)
              in if - (2 ^ 63) \<le> v \<and> v < 2 ^ 63 then Some v else None)"

lemma digit_char_simps [simp]:
  assumes "d < 10"
  shows "is_digit (digit_char d)" and "digit_val (digit_char d) = d"
  using assms by (simp_all add: is_digit_def digit_char_def digit_val_def byte_def of_char_of)

lemma digit_char_sign [simp]:
  assumes "d < 10"
  shows "digit_char d \<noteq> CHR ''-''" and "digit_char d \<noteq> CHR ''+''"
proof -
  have "is_digit (digit_char d)" using assms by simp
  moreover have "\<not> is_digit CHR ''-''" "\<not> is_digit CHR ''+''" by (simp_all add: is_digit_def)
  ultimately show "digit_char d \<noteq> CHR ''-''" "digit_char d \<noteq> CHR ''+''" by metis+
qed

lemma read_nat_append:
  "read_nat acc (s @ t) = (case read_nat acc s of None \<Rightarrow> None | Some a \<Rightarrow> read_nat a t)"
  by (induction s arbitrary: acc) auto

lemma read_show_nat: "read_nat 0 (show_nat n) = Some n"
proof (induction n rule: less_induct)
  case (less n)
  show ?case
  proof (cases "n < 10")
    case True
    then show ?thesis by (simp add: show_nat.simps [of n])
  next
    case False
    then have "read_nat 0 (show_nat (n div 10)) = Some (n div 10)" by (intro less) simp
    then show ?thesis using False
      by (simp add: show_nat.simps [of n] read_nat_append)
  qed
qed

lemma show_nat_hd: "\<exists>d ds. d < 10 \<and> show_nat n = digit_char d # ds"
proof (induction n rule: less_induct)
  case (less n)
  show ?case
  proof (cases "n < 10")
    case True
    then show ?thesis by (simp add: show_nat.simps [of n]) blast
  next
    case False
    then have "n div 10 < n" by simp
    from less [OF this] show ?thesis using False by (auto simp: show_nat.simps [of n])
  qed
qed

lemma atoi_show_int:
  assumes "- (2 ^ 63) \<le> i" and "i < 2 ^ 63"
  shows "go_atoi (show_int i) = Some i"
proof -
  obtain d ds where d: "d < 10" and s: "show_nat (nat \<bar>i\<bar>) = digit_char d # ds"
    using show_nat_hd by blast
  have r: "read_nat 0 (digit_char d # ds) = Some (nat \<bar>i\<bar>)"
    using read_show_nat [of "nat \<bar>i\<bar>"] s by simp
  show ?thesis
    using assms d s r by (cases "i < 0") (simp_all add: go_atoi_def show_int_def del: read_nat.simps)
qed

subsection \<open>Quoting\<close>

definition hex_char :: "nat \<Rightarrow> char" where
  "hex_char d = ''0123456789abcdef'' ! (d mod 16)"

definition quote_byte :: "char \<Rightarrow> string" where
  "quote_byte ch =
     (let b = (of_char ch :: nat) in
      if b = 34 \<or> b = 92 then [byte 92, ch]
      else if 32 \<le> b \<and> b < 127 then [ch]
      else if b = 7 then [byte 92, CHR ''a''] else if b = 8 then [byte 92, CHR ''b'']
      else if b = 12 then [byte 92, CHR ''f''] else if b = 10 then [byte 92, CHR ''n'']
      else if b = 13 then [byte 92, CHR ''r''] else if b = 9 then [byte 92, CHR ''t'']
      else if b = 11 then [byte 92, CHR ''v'']
      else [byte 92, CHR ''x'', hex_char (b div 16), hex_char b])"

text \<open>\<open>%q\<close>, exact on ASCII strings (printable letters beyond ASCII would be kept as they are).\<close>

definition go_quote :: "string \<Rightarrow> string" where
  "go_quote s = [byte 34] @ concat (map quote_byte s) @ [byte 34]"

subsection \<open>Trimming\<close>

text \<open>The encodings of the characters \<open>unicode.IsSpace\<close> accepts.\<close>

definition space_codes :: "string list" where
  "space_codes = map (map byte)
     ([[9], [10], [11], [12], [13], [32], [194, 133], [194, 160], [225, 154, 128]]
      @ map (\<lambda>k. [226, 128, k]) [128, 129, 130, 131, 132, 133, 134, 135, 136, 137, 138, 168, 169, 175]
      @ [[226, 129, 159], [227, 128, 128]])"

function trim_prefixes :: "string list \<Rightarrow> string \<Rightarrow> string" where
  "trim_prefixes ps s =
     (case List.find (\<lambda>p. p \<noteq> [] \<and> take (length p) s = p) ps of
        None \<Rightarrow> s
      | Some p \<Rightarrow> trim_prefixes ps (drop (length p) s))"
  by pat_completeness auto
termination
proof (relation "measure (length \<circ> snd)")
  fix ps :: "string list" and s p
  assume "List.find (\<lambda>p. p \<noteq> [] \<and> take (length p) s = p) ps = Some p"
  then have "p \<noteq> []" and "take (length p) s = p" by (auto simp: find_Some_iff)
  then have "length p \<le> length s" and "0 < length p" by (metis length_take min.cobounded1, simp)
  then have "length s - length p < length s" by linarith
  then show "((ps, drop (length p) s), (ps, s)) \<in> measure (length \<circ> snd)" by simp
qed simp

declare trim_prefixes.simps [simp del]

text \<open>\<open>strings.TrimSpace\<close>\<close>

definition trim_space :: "string \<Rightarrow> string" where
  "trim_space s = rev (trim_prefixes (map rev space_codes) (rev (trim_prefixes space_codes s)))"

end
