(* ===== verification/Json.thy ===== *)
theory Json
  imports Go_Strings Go_Float
begin

section \<open>Reading JSON\<close>

text \<open>
  What the code uses of \<open>encoding/json\<close> for reading: a decoder that reads the first value of
  its input and ignores what follows it. The parser is recursive in a fuel argument; the number
  of bytes of the input and one more is enough, since every call consumes a byte. A number is
  kept as its literal.
\<close>

datatype json = JNull | JBool bool | JNum string | JStr string
  | JArr "json list" | JObj "(string \<times> json) list"

abbreviation code_of :: "char \<Rightarrow> nat" where
  "code_of ch \<equiv> of_char ch"

definition is_ws :: "char \<Rightarrow> bool" where
  "is_ws ch \<longleftrightarrow> code_of ch \<in> {32, 9, 10, 13}"

definition skip_ws :: "string \<Rightarrow> string" where
  "skip_ws s = dropWhile is_ws s"

subsection \<open>Strings\<close>

text \<open>The length of the valid UTF-8 sequence at the head of the bytes, 0 if there is none.\<close>

definition in_range :: "nat \<Rightarrow> nat \<Rightarrow> string \<Rightarrow> nat \<Rightarrow> bool" where
  "in_range lo hi s k \<longleftrightarrow> k < length s \<and> lo \<le> code_of (s ! k) \<and> code_of (s ! k) \<le> hi"

definition utf8_len :: "string \<Rightarrow> nat" where
  "utf8_len s =
     (if in_range 0 127 s 0 then 1
      else if in_range 194 223 s 0 \<and> in_range 128 191 s 1 then 2
      else if (in_range 224 224 s 0 \<and> in_range 160 191 s 1 \<or>
               in_range 225 236 s 0 \<and> in_range 128 191 s 1 \<or>
               in_range 237 237 s 0 \<and> in_range 128 159 s 1 \<or>
               in_range 238 239 s 0 \<and> in_range 128 191 s 1) \<and> in_range 128 191 s 2 then 3
      else if (in_range 240 240 s 0 \<and> in_range 144 191 s 1 \<or>
               in_range 241 243 s 0 \<and> in_range 128 191 s 1 \<or>
               in_range 244 244 s 0 \<and> in_range 128 143 s 1) \<and>
              in_range 128 191 s 2 \<and> in_range 128 191 s 3 then 4
      else 0)"

definition encode_rune :: "nat \<Rightarrow> string" where
  "encode_rune r =
     (if r < 128 then [byte r]
      else if r < 2048 then [byte (192 + r div 64), byte (128 + r mod 64)]
      else if 55296 \<le> r \<and> r < 57344 \<or> 1114111 < r then [byte 239, byte 191, byte 189]
      else if r < 65536 then [byte (224 + r div 4096), byte (128 + r div 64 mod 64), byte (128 + r mod 64)]
      else [byte (240 + r div 262144), byte (128 + r div 4096 mod 64), byte (128 + r div 64 mod 64),
            byte (128 + r mod 64)])"

definition replacement :: string where
  "replacement = encode_rune 65533"

definition hex_val :: "char \<Rightarrow> nat option" where
  "hex_val ch =
     (let b = code_of ch in
      if 48 \<le> b \<and> b \<le> 57 then Some (b - 48)
      else if 97 \<le> b \<and> b \<le> 102 then Some (b - 87)
      else if 65 \<le> b \<and> b \<le> 70 then Some (b - 55)
      else None)"

text \<open>Four hexadecimal digits at the head.\<close>

definition read_u4 :: "string \<Rightarrow> nat option" where
  "read_u4 s =
     (if length s < 4 then None
      else case (hex_val (s ! 0), hex_val (s ! 1), hex_val (s ! 2), hex_val (s ! 3)) of
        (Some a, Some b, Some c, Some d) \<Rightarrow> Some (((a * 16 + b) * 16 + c) * 16 + d)
      | _ \<Rightarrow> None)"

definition simple_escape :: "char \<Rightarrow> string option" where
  "simple_escape ch =
     (let b = code_of ch in
      if b = 34 \<or> b = 92 \<or> b = 47 then Some [ch]
      else if b = 98 then Some [byte 8] else if b = 102 then Some [byte 12]
      else if b = 110 then Some [byte 10] else if b = 114 then Some [byte 13]
      else if b = 116 then Some [byte 9] else None)"

text \<open>
  The rune of an escape \<^verbatim>\<open>\uXXXX\<close> whose digits follow, and what is left: a surrogate
  pair is one rune, a lone surrogate reads as U+FFFD.
\<close>

definition read_escape :: "string \<Rightarrow> (string \<times> string) option" where
  "read_escape s =
     (case read_u4 s of
        None \<Rightarrow> None
      | Some r \<Rightarrow>
          let t = drop 4 s in
          if 55296 \<le> r \<and> r < 57344 then
            (case (if take 2 t = [byte 92, CHR ''u''] then read_u4 (drop 2 t) else None) of
               Some r2 \<Rightarrow>
                 if r < 56320 \<and> 56320 \<le> r2 \<and> r2 < 57344
                 then Some (encode_rune ((r - 55296) * 1024 + (r2 - 56320) + 65536), drop 6 t)
                 else Some (replacement, t)
             | None \<Rightarrow> Some (replacement, t))
          else Some (encode_rune r, t))"

text \<open>The body of a string after its opening quote: its contents and what follows it.\<close>

fun parse_string :: "nat \<Rightarrow> string \<Rightarrow> (string \<times> string) option" where
  "parse_string 0 s = None"
| "parse_string (Suc n) [] = None"
| "parse_string (Suc n) (ch # t) =
     (if code_of ch = 34 then Some ([], t)
      else if code_of ch = 92 then
        (case t of
           [] \<Rightarrow> None
         | e # u \<Rightarrow>
             (case (if code_of e = 117 then read_escape u
                    else map_option (\<lambda>x. (x, u)) (simple_escape e)) of
                None \<Rightarrow> None
              | Some (x, v) \<Rightarrow> map_option (\<lambda>(y, w). (x @ y, w)) (parse_string n v)))
      else if code_of ch < 32 then None
      else let k = utf8_len (ch # t) in
        if k = 0 then map_option (\<lambda>(y, w). (replacement @ y, w)) (parse_string n t)
        else map_option (\<lambda>(y, w). (take k (ch # t) @ y, w)) (parse_string n (drop k (ch # t))))"

subsection \<open>Numbers\<close>

definition span_digits :: "string \<Rightarrow> string \<times> string" where
  "span_digits s = (takeWhile is_digit s, dropWhile is_digit s)"

definition read_fraction :: "string \<Rightarrow> (string \<times> string) option" where
  "read_fraction s = (case s of
     ch # t \<Rightarrow>
       if ch = CHR ''.'' then
         (case span_digits t of (ds, u) \<Rightarrow> if ds = [] then None else Some (ch # ds, u))
       else Some ([], s)
   | [] \<Rightarrow> Some ([], []))"

definition read_exponent :: "string \<Rightarrow> (string \<times> string) option" where
  "read_exponent s = (case s of
     ch # t \<Rightarrow>
       if ch = CHR ''e'' \<or> ch = CHR ''E'' then
         (case (case t of
              c # u \<Rightarrow> if c = CHR ''+'' \<or> c = CHR ''-'' then ([c], u) else ([], t)
            | [] \<Rightarrow> ([], [])) of
            (sign, u) \<Rightarrow> (case span_digits u of (ds, v) \<Rightarrow>
               if ds = [] then None else Some (ch # sign @ ds, v)))
       else Some ([], s)
   | [] \<Rightarrow> Some ([], []))"

definition parse_number :: "string \<Rightarrow> (string \<times> string) option" where
  "parse_number s =
     (case (case s of ch # t \<Rightarrow> if ch = CHR ''-'' then ([ch], t) else ([], s) | [] \<Rightarrow> ([], [])) of
        (sign, u) \<Rightarrow>
          (case span_digits u of (ds, v) \<Rightarrow>
             let (ip, v1) = (case ds of
                   d # ds' \<Rightarrow> if d = CHR ''0'' then ([d], ds' @ v) else (ds, v) | [] \<Rightarrow> ([], v)) in
             if ip = [] then None
             else (case read_fraction v1 of
                None \<Rightarrow> None
              | Some (fp, v2) \<Rightarrow> (case read_exponent v2 of
                  None \<Rightarrow> None
                | Some (ep, v3) \<Rightarrow> Some (sign @ ip @ fp @ ep, v3)))))"

subsection \<open>Values\<close>

definition strip :: "string \<Rightarrow> string \<Rightarrow> string option" where
  "strip p s = (if take (length p) s = p then Some (drop (length p) s) else None)"

fun parse_value :: "nat \<Rightarrow> string \<Rightarrow> (json \<times> string) option"
  and parse_elems :: "nat \<Rightarrow> string \<Rightarrow> (json list \<times> string) option"
  and parse_members :: "nat \<Rightarrow> string \<Rightarrow> ((string \<times> json) list \<times> string) option" where
  "parse_value 0 s = None"
| "parse_value (Suc n) s = (case skip_ws s of
     [] \<Rightarrow> None
   | ch # t \<Rightarrow>
       if ch = CHR ''{'' then
         (case strip ''}'' (skip_ws t) of
            Some u \<Rightarrow> Some (JObj [], u)
          | None \<Rightarrow> map_option (\<lambda>(ms, u). (JObj ms, u)) (parse_members n t))
       else if ch = CHR ''['' then
         (case strip '']'' (skip_ws t) of
            Some u \<Rightarrow> Some (JArr [], u)
          | None \<Rightarrow> map_option (\<lambda>(vs, u). (JArr vs, u)) (parse_elems n t))
       else if code_of ch = 34 then map_option (\<lambda>(x, u). (JStr x, u)) (parse_string (Suc (length t)) t)
       else if ch = CHR ''t'' then map_option (\<lambda>u. (JBool True, u)) (strip ''rue'' t)
       else if ch = CHR ''f'' then map_option (\<lambda>u. (JBool False, u)) (strip ''alse'' t)
       else if ch = CHR ''n'' then map_option (\<lambda>u. (JNull, u)) (strip ''ull'' t)
       else map_option (\<lambda>(l, u). (JNum l, u)) (parse_number (ch # t)))"
| "parse_elems 0 s = None"
| "parse_elems (Suc n) s = (case parse_value n s of
     None \<Rightarrow> None
   | Some (v, t) \<Rightarrow> (case skip_ws t of
       [] \<Rightarrow> None
     | ch # u \<Rightarrow>
         if ch = CHR '']'' then Some ([v], u)
         else if ch = CHR '','' then map_option (\<lambda>(vs, w). (v # vs, w)) (parse_elems n u)
         else None))"
| "parse_members 0 s = None"
| "parse_members (Suc n) s = (case skip_ws s of
     [] \<Rightarrow> None
   | q # t \<Rightarrow>
       if code_of q \<noteq> 34 then None
       else (case parse_string (Suc (length t)) t of
         None \<Rightarrow> None
       | Some (k, u) \<Rightarrow> (case strip '':'' (skip_ws u) of
           None \<Rightarrow> None
         | Some x \<Rightarrow> (case parse_value n x of
             None \<Rightarrow> None
           | Some (v, y) \<Rightarrow> (case skip_ws y of
               [] \<Rightarrow> None
             | ch # z \<Rightarrow>
                 if ch = CHR ''}'' then Some ([(k, v)], z)
                 else if ch = CHR '','' then map_option (\<lambda>(ms, w). ((k, v) # ms, w)) (parse_members n z)
                 else None)))))"

text \<open>The nesting of a value; the scanner refuses more than 10000 levels.\<close>

fun json_depth :: "json \<Rightarrow> nat" where
  "json_depth (JArr vs) = Suc (fold max (map json_depth vs) 0)"
| "json_depth (JObj ms) = Suc (fold max (map (json_depth \<circ> snd) ms) 0)"
| "json_depth v = 0"

definition read_json :: "string \<Rightarrow> json option" where
  "read_json s = (case parse_value (2 * length s + 2) s of
     None \<Rightarrow> None
   | Some (v, rest) \<Rightarrow> if json_depth v \<le> 10000 then Some v else None)"

end
