(* ===== verification/Go_Time.thy ===== *)
theory Go_Time
  imports Go_Strings
begin

section \<open>Instants and their RFC 3339 text\<close>

text \<open>
  What the code uses of Go's \<open>time\<close>: an instant is a number of nanoseconds since the Unix
  epoch, shown in UTC in the layout \<open>time.RFC3339Nano\<close>, and read back from it. The date of a
  day is computed with the proleptic Gregorian calendar, counting years and days from the first
  of January of the year 1.
\<close>

subsection \<open>The calendar\<close>

definition leap :: "int \<Rightarrow> bool" where
  "leap y \<longleftrightarrow> 4 dvd y \<and> (\<not> 100 dvd y \<or> 400 dvd y)"

text \<open>Days before the first of January of the year \<open>k + 1\<close>.\<close>

definition days_before :: "int \<Rightarrow> int" where
  "days_before k = 365 * k + k div 4 - k div 100 + k div 400"

definition month_starts :: "bool \<Rightarrow> int list" where
  "month_starts lp = (if lp then [0, 31, 60, 91, 121, 152, 182, 213, 244, 274, 305, 335]
     else [0, 31, 59, 90, 120, 151, 181, 212, 243, 273, 304, 334])"

definition month_days :: "bool \<Rightarrow> int list" where
  "month_days lp = [31, if lp then 29 else 28, 31, 30, 31, 30, 31, 31, 30, 31, 30, 31]"

definition month_start :: "bool \<Rightarrow> int \<Rightarrow> int" where
  "month_start lp m = month_starts lp ! nat (m - 1)"

definition days_in :: "bool \<Rightarrow> int \<Rightarrow> int" where
  "days_in lp m = month_days lp ! nat (m - 1)"

definition year_index :: "int \<Rightarrow> int" where
  "year_index d =
     (let k = 400 * d div 146097 in
      if d < days_before k then k - 1
      else if days_before (k + 1) \<le> d then k + 1 else k)"

definition month_of :: "bool \<Rightarrow> int \<Rightarrow> int" where
  "month_of lp r = int (length (filter (\<lambda>st. st \<le> r) (month_starts lp)))"

definition epoch_day :: int where
  "epoch_day = 719162"

text \<open>The date (year, month, day) of the day \<open>d\<close> after the epoch, and back.\<close>

definition civil :: "int \<Rightarrow> int \<times> int \<times> int" where
  "civil d =
     (let k = year_index (d + epoch_day); lp = leap (k + 1);
          r = d + epoch_day - days_before k; m = month_of lp r
      in (k + 1, m, r - month_start lp m + 1))"

definition day_number :: "int \<times> int \<times> int \<Rightarrow> int" where
  "day_number ymd = (case ymd of (y, m, d) \<Rightarrow>
     days_before (y - 1) + month_start (leap y) m + d - 1 - epoch_day)"

lemma day_number_civil [simp]: "day_number (civil d) = d"
  by (simp add: day_number_def civil_def Let_def)

lemma div_bounds:
  fixes k c :: int
  assumes "0 < c"
  shows "c * (k div c) \<le> k" and "k \<le> c * (k div c) + (c - 1)"
proof -
  have "k = c * (k div c) + k mod c" by simp
  moreover have "0 \<le> k mod c" and "k mod c < c" using assms by simp_all
  ultimately show "c * (k div c) \<le> k" and "k \<le> c * (k div c) + (c - 1)" by linarith+
qed

lemma days_before_bounds:
  shows days_before_lower: "146097 * k - 699 \<le> 400 * days_before k"
    and days_before_upper: "400 * days_before k \<le> 146097 * k + 396"
proof -
  note d = div_bounds [of 4 k, simplified] div_bounds [of 100 k, simplified] div_bounds [of 400 k, simplified]
  show "146097 * k - 699 \<le> 400 * days_before k" using d by (simp add: days_before_def distrib_left right_diff_distrib)
  show "400 * days_before k \<le> 146097 * k + 396" using d by (simp add: days_before_def distrib_left right_diff_distrib)
qed

lemma year_index_bounds:
  shows year_index_lower: "days_before (year_index d) \<le> d"
    and year_index_upper: "d < days_before (year_index d + 1)"
proof -
  define k where "k = 400 * d div 146097"
  have k: "146097 * k \<le> 400 * d" "400 * d \<le> 146097 * k + 146096"
    using div_bounds [of 146097 "400 * d"] by (simp_all add: k_def)
  have l: "days_before (k - 1) \<le> d" 
    using k days_before_upper [of "k - 1"] by (simp add: right_diff_distrib)
  have u: "d < days_before (k + 2)" 
    using k days_before_lower [of "k + 2"] by (simp add: distrib_left)
  from l show "days_before (year_index d) \<le> d"
    by (auto simp: year_index_def k_def [symmetric] Let_def)
  from u show "d < days_before (year_index d + 1)"
    by (auto simp: year_index_def k_def [symmetric] Let_def add.commute)
qed

lemma div_Suc:
  fixes k c :: int
  assumes "0 < c"
  shows "(k + 1) div c = k div c + (if c dvd k + 1 then 1 else 0)"
proof -
  define q r where "q = k div c" and "r = k mod c"
  have k: "k = c * q + r" "0 \<le> r" "r < c" using assms by (simp_all add: q_def r_def)
  show ?thesis
  proof (cases "r + 1 = c")
    case True
    then have "k + 1 = c * (q + 1)" using k by (simp add: distrib_left)
    then have "(k + 1) div c = q + 1" and "c dvd k + 1" using assms by simp_all
    then show ?thesis by (simp add: q_def)
  next
    case False
    then have eq: "k + 1 = c * q + (r + 1)" "0 \<le> r + 1" "r + 1 < c" using k by simp_all
    have "(k + 1) div c = q" by (rule int_div_pos_eq [OF eq])
    moreover have "(k + 1) mod c = r + 1" by (rule int_mod_pos_eq [OF eq])
    then have "\<not> c dvd k + 1" using k(2) by (auto simp: dvd_eq_mod_eq_0)
    ultimately show ?thesis by (simp add: q_def)
  qed
qed

lemma year_length_sum:
  fixes k a b c :: int
  assumes "B \<Longrightarrow> A" and "C \<Longrightarrow> B"
  shows "365 * (k + 1) + (a + (if A then 1 else 0)) - (b + (if B then 1 else 0)) + (c + (if C then 1 else 0))
    = 365 * k + a - b + c + (if A \<and> (\<not> B \<or> C) then 366 else 365)"
proof -
  have "A \<and> B \<or> \<not> B \<and> \<not> C" and "C \<longrightarrow> A \<and> B" and "B \<longrightarrow> A" using assms by blast+
  then show ?thesis by (cases A; cases B; cases C) simp_all
qed

lemma days_before_Suc: "days_before (k + 1) = days_before k + (if leap (k + 1) then 366 else 365)"
proof -
  define A B C where "A \<longleftrightarrow> 4 dvd k + 1" and "B \<longleftrightarrow> 100 dvd k + 1" and "C \<longleftrightarrow> 400 dvd k + 1"
  have "B \<Longrightarrow> A" unfolding A_def B_def by (erule dvd_trans [rotated]) simp
  moreover have "C \<Longrightarrow> B" unfolding B_def C_def by (erule dvd_trans [rotated]) simp
  moreover have "(k + 1) div 4 = k div 4 + (if A then 1 else 0)"
    "(k + 1) div 100 = k div 100 + (if B then 1 else 0)" "(k + 1) div 400 = k div 400 + (if C then 1 else 0)"
    unfolding A_def B_def C_def by (rule div_Suc, simp)+
  moreover have "leap (k + 1) \<longleftrightarrow> A \<and> (\<not> B \<or> C)" by (simp only: leap_def A_def B_def C_def)
  ultimately show ?thesis unfolding days_before_def by (simp only: year_length_sum)
qed

text \<open>The dates are those of the calendar: month 1 to 12, day 1 to the length of the month.\<close>

lemma month_of_bounds:
  assumes "0 \<le> r" and "r < (if lp then 366 else 365)"
  shows "1 \<le> month_of lp r \<and> month_of lp r \<le> 12 \<and>
    month_start lp (month_of lp r) \<le> r \<and>
    r < month_start lp (month_of lp r) + days_in lp (month_of lp r)"
  using assms
  by (cases lp)
    (simp_all add: month_of_def month_starts_def month_start_def days_in_def month_days_def)

lemma civil_valid:
  "case civil d of (y, m, dd) \<Rightarrow> 1 \<le> m \<and> m \<le> 12 \<and> 1 \<le> dd \<and> dd \<le> days_in (leap y) m"
proof -
  let ?d = "d + epoch_day"
  let ?k = "year_index ?d" let ?r = "?d - days_before ?k"
  have "0 \<le> ?r" using year_index_lower [of ?d] by linarith
  moreover have "?r < (if leap (?k + 1) then 366 else 365)"
    using year_index_upper [of ?d] days_before_Suc [of ?k] by linarith
  ultimately show ?thesis
    using month_of_bounds [of ?r "leap (?k + 1)"] by (auto simp: civil_def Let_def)
qed

lemma days_before_mono: "k \<le> k' \<Longrightarrow> days_before k \<le> days_before k'"
proof (induction k' rule: int_ge_induct)
  case (step i)
  then show ?case using days_before_Suc [of i] by (simp split: if_splits)
qed simp

subsection \<open>Digits of a fixed width\<close>

fun pad :: "nat \<Rightarrow> nat \<Rightarrow> string" where
  "pad 0 n = []"
| "pad (Suc k) n = pad k (n div 10) @ [digit_char (n mod 10)]"

text \<open>\<open>k\<close> digits at the head: their value and the rest.\<close>

definition read_digits :: "nat \<Rightarrow> string \<Rightarrow> (nat \<times> string) option" where
  "read_digits k s =
     (if length s < k then None
      else case read_nat 0 (take k s) of None \<Rightarrow> None | Some n \<Rightarrow> Some (n, drop k s))"

lemma length_pad [simp]: "length (pad k n) = k"
  by (induction k arbitrary: n) auto

lemma read_pad: "n < 10 ^ k \<Longrightarrow> read_nat 0 (pad k n) = Some n"
proof (induction k arbitrary: n)
  case (Suc k)
  then have "n div 10 < 10 ^ k" by (simp add: div_less_iff_less_mult mult.commute)
  from Suc.IH [OF this] show ?case by (simp add: read_nat_append)
qed simp

lemma read_digits_pad [simp]: "n < 10 ^ k \<Longrightarrow> read_digits k (pad k n @ t) = Some (n, t)"
  by (simp add: read_digits_def read_pad)

lemma pad_zero: "pad k 0 = replicate k (digit_char 0)"
  by (induction k) (simp_all add: replicate_append_same)

lemma pad_digits: "list_all is_digit (pad k n)"
  by (induction k arbitrary: n) auto

subsection \<open>The layout RFC3339Nano\<close>

definition year_text :: "int \<Rightarrow> string" where
  "year_text y =
     (let a = nat \<bar>y\<bar>; ds = (if a < 10000 then pad 4 a else show_nat a)
      in if y < 0 then CHR ''-'' # ds else ds)"

definition frac_text :: "nat \<Rightarrow> string" where
  "frac_text ns = (if ns = 0 then []
     else CHR ''.'' # rev (dropWhile (\<lambda>ch. ch = digit_char 0) (rev (pad 9 ns))))"

definition day_ns :: int where
  "day_ns = 86400000000000"

definition format_rfc3339 :: "int \<Rightarrow> string" where
  "format_rfc3339 t =
     (case civil (t div day_ns) of (y, m, d) \<Rightarrow>
        let r = nat (t mod day_ns); secs = r div 10 ^ 9
        in year_text y @ ''-'' @ pad 2 (nat m) @ ''-'' @ pad 2 (nat d) @ ''T''
           @ pad 2 (secs div 3600) @ '':'' @ pad 2 (secs div 60 mod 60) @ '':'' @ pad 2 (secs mod 60)
           @ frac_text (r mod 10 ^ 9) @ ''Z'')"

definition expect :: "char \<Rightarrow> string \<Rightarrow> string option" where
  "expect ch s = (case s of c # t \<Rightarrow> if c = ch then Some t else None | [] \<Rightarrow> None)"

lemma expect_Cons [simp]: "expect ch (ch # t) = Some t"
  by (simp add: expect_def)

definition read_frac :: "string \<Rightarrow> nat \<times> string" where
  "read_frac s = (case s of
     c # d # t \<Rightarrow>
       if c = CHR ''.'' \<and> is_digit d then
         (case read_nat 0 (take 9 (takeWhile is_digit (d # t) @ replicate 9 (digit_char 0))) of
            Some n \<Rightarrow> (n, dropWhile is_digit (d # t)) | None \<Rightarrow> (0, s))
       else (0, s)
   | _ \<Rightarrow> (0, s))"

text \<open>The offset of a zone in seconds; nothing may follow it.\<close>

definition read_zone :: "string \<Rightarrow> int option" where
  "read_zone s =
     (if s = ''Z'' then Some 0
      else case s of
        c # t \<Rightarrow>
          if c = CHR ''+'' \<or> c = CHR ''-'' then
            (case read_digits 2 t of
               Some (h, u) \<Rightarrow> (case expect CHR '':'' u of
                 Some v \<Rightarrow> (case read_digits 2 v of
                   Some (mi, []) \<Rightarrow>
                     if h < 24 \<and> mi < 60
                     then Some ((if c = CHR ''-'' then - 1 else 1) * int (h * 3600 + mi * 60)) else None
                 | _ \<Rightarrow> None)
               | None \<Rightarrow> None)
             | None \<Rightarrow> None)
          else None
      | [] \<Rightarrow> None)"

text \<open>A number of \<open>k\<close> digits followed by the separator \<open>ch\<close>.\<close>

definition field :: "nat \<Rightarrow> char \<Rightarrow> string \<Rightarrow> (nat \<times> string) option" where
  "field k ch s = (case read_digits k s of
     None \<Rightarrow> None
   | Some (n, t) \<Rightarrow> map_option (\<lambda>u. (n, u)) (expect ch t))"

lemma field_pad [simp]: "n < 10 ^ k \<Longrightarrow> field k ch (pad k n @ ch # t) = Some (n, t)"
  by (simp add: field_def)

text \<open>
  \<open>time.Parse(time.RFC3339Nano, s)\<close> on the strict form of the layout.
\<close>

definition parse_rfc3339 :: "string \<Rightarrow> int option" where
  "parse_rfc3339 s =
     Option.bind (field 4 CHR ''-'' s) (\<lambda>(y, s1).
     Option.bind (field 2 CHR ''-'' s1) (\<lambda>(m, s2).
     Option.bind (field 2 CHR ''T'' s2) (\<lambda>(d, s3).
     Option.bind (field 2 CHR '':'' s3) (\<lambda>(h, s4).
     Option.bind (field 2 CHR '':'' s4) (\<lambda>(mi, s5).
     Option.bind (read_digits 2 s5) (\<lambda>(sec, s6).
       case read_frac s6 of (ns, s7) \<Rightarrow>
       Option.bind (read_zone s7) (\<lambda>off.
         if 1 \<le> m \<and> m \<le> 12 \<and> 1 \<le> d \<and> int d \<le> days_in (leap (int y)) (int m)
            \<and> h < 24 \<and> mi < 60 \<and> sec < 60
         then Some (day_number (int y, int m, int d) * day_ns
                + (int (h * 3600 + mi * 60 + sec) - off) * 10 ^ 9 + int ns)
         else None)))))))"

lemma strip_zeros:
  assumes "length xs = 9"
  shows "take 9 (rev (dropWhile (\<lambda>ch. ch = z) (rev xs)) @ replicate 9 z) = xs"
proof -
  let ?P = "\<lambda>ch. ch = z"
  have "takeWhile ?P (rev xs) = replicate (length (takeWhile ?P (rev xs))) z"
    by (rule replicate_eqI [symmetric, THEN sym]) (auto dest: set_takeWhileD)
  then obtain j where j: "takeWhile ?P (rev xs) = replicate j z" by blast
  have "rev xs = replicate j z @ dropWhile ?P (rev xs)"
    by (metis j takeWhile_dropWhile_id)
  then have xs: "xs = rev (dropWhile ?P (rev xs)) @ replicate j z"
    by (metis rev_append rev_replicate rev_rev_ident)
  then have "length (rev (dropWhile ?P (rev xs))) + j = 9"
    using assms by (metis length_append length_replicate)
  then have "replicate 9 z = replicate j z @ replicate (9 - j) z"
    by (metis le_add2 le_add_diff_inverse replicate_add)
  then have "rev (dropWhile ?P (rev xs)) @ replicate 9 z = xs @ replicate (9 - j) z"
    using xs by (metis append_assoc)
  then show ?thesis using assms by simp
qed


lemma dropWhile_rev_digits:
  assumes "list_all is_digit xs"
  shows "list_all is_digit (rev (dropWhile P (rev xs)))"
  using assms by (auto simp: list_all_iff dest: set_dropWhileD)

lemma span_digits_append:
  assumes "list_all is_digit xs" and "\<not> is_digit ch"
  shows "takeWhile is_digit (xs @ ch # t) = xs" and "dropWhile is_digit (xs @ ch # t) = ch # t"
  using assms by (induction xs) auto

lemma read_frac_text:
  assumes "n < 10 ^ 9" and "\<not> is_digit ch" and "ch \<noteq> CHR ''.''"
  shows "read_frac (frac_text n @ ch # t) = (n, ch # t)"
proof (cases "n = 0")
  case True
  then have "frac_text n @ ch # t = ch # t" by (simp add: frac_text_def)
  then show ?thesis using assms(3) True by (simp add: read_frac_def split: list.split)
next
  case False
  define ds where "ds = rev (dropWhile (\<lambda>ch. ch = digit_char 0) (rev (pad 9 n)))"
  have dig: "list_all is_digit ds" unfolding ds_def by (rule dropWhile_rev_digits [OF pad_digits])
  have full: "take 9 (ds @ replicate 9 (digit_char 0)) = pad 9 n"
    unfolding ds_def by (rule strip_zeros) simp
  have "ds \<noteq> []"
  proof
    assume "ds = []"
    with full have "pad 9 n = pad 9 0" by (simp only: pad_zero append.simps take_replicate min.idem)
    then have "Some n = Some 0" using read_pad [OF assms(1)] read_pad [of 0 9] by (simp only: zero_less_power zero_less_numeral)
    with False show False by simp
  qed
  then obtain c cs where ds: "ds = c # cs" by (cases ds) auto
  have c: "is_digit c" using dig ds by simp
  have "frac_text n = CHR ''.'' # ds" using False by (simp add: frac_text_def ds_def)
  moreover have "read_nat 0 (take 9 (ds @ replicate 9 (digit_char 0))) = Some n"
    using full read_pad [OF assms(1)] by simp
  ultimately show ?thesis
    using span_digits_append [OF dig assms(2)] c ds
    by (simp add: read_frac_def)
qed

lemma year_of_days:
  assumes "- 719528 \<le> d" and "d < 2932897"
  shows "0 \<le> fst (civil d)" and "fst (civil d) \<le> 9999"
proof -
  let ?k = "year_index (d + epoch_day)"
  have "- 1 \<le> ?k"
  proof (rule ccontr)
    assume "\<not> - 1 \<le> ?k"
    then have "days_before (?k + 1) \<le> days_before (- 1)" by (intro days_before_mono) simp
    moreover have "days_before (- 1) = - 366" by (simp add: days_before_def)
    ultimately show False using year_index_upper [of "d + epoch_day"] assms(1)
      by (simp add: epoch_day_def)
  qed
  moreover have "?k \<le> 9998"
  proof (rule ccontr)
    assume "\<not> ?k \<le> 9998"
    then have "days_before 9999 \<le> days_before ?k" by (intro days_before_mono) simp
    moreover have "days_before 9999 = 3652059" by (simp add: days_before_def)
    ultimately show False using year_index_lower [of "d + epoch_day"] assms(2)
      by (simp add: epoch_day_def)
  qed
  ultimately show "0 \<le> fst (civil d)" and "fst (civil d) \<le> 9999"
    by (simp_all add: civil_def Let_def)
qed

lemma days_in_le: "1 \<le> m \<Longrightarrow> m \<le> 12 \<Longrightarrow> days_in lp m \<le> 31"
proof -
  assume "1 \<le> m" "m \<le> 12"
  then have "nat (m - 1) < length (month_days lp)" by (simp add: month_days_def)
  then have "days_in lp m \<in> set (month_days lp)" unfolding days_in_def by (rule nth_mem)
  then show ?thesis by (auto simp: month_days_def)
qed

lemma clock_parts:
  fixes secs :: nat
  assumes "secs < 86400"
  shows "secs div 3600 < 24" and "secs div 3600 * 3600 + secs div 60 mod 60 * 60 + secs mod 60 = secs"
proof -
  show "secs div 3600 < 24" using assms by simp
  have "secs = 60 * (secs div 60) + secs mod 60" by simp
  moreover have "secs div 60 = 60 * (secs div 60 div 60) + secs div 60 mod 60" by simp
  moreover have "secs div 60 div 60 = secs div 3600" by (simp add: div_mult2_eq)
  ultimately show "secs div 3600 * 3600 + secs div 60 mod 60 * 60 + secs mod 60 = secs" by linarith
qed

text \<open>An instant of the years 0 to 9999 is read back from its text.\<close>

lemma parse_format_rfc3339:
  assumes "- 62167219200000000000 \<le> t" and "t < 253402300800000000000"
  shows "parse_rfc3339 (format_rfc3339 t) = Some t"
proof -
  define dn where "dn = t div day_ns"
  define r where "r = nat (t mod day_ns)"
  define secs ns where "secs = r div 10 ^ 9" and "ns = r mod 10 ^ 9"
  obtain y m d where c: "civil dn = (y, m, d)" by (cases "civil dn")
  have t: "t = dn * day_ns + int r" by (simp add: dn_def r_def day_ns_def)
  have rb: "int r < day_ns" by (simp add: r_def day_ns_def)
  have "- 719528 \<le> dn" and "dn < 2932897"
    using assms t rb by (simp_all add: day_ns_def)
  from year_of_days [OF this] c have y: "0 \<le> y" "y \<le> 9999" by simp_all
  have md: "1 \<le> m" "m \<le> 12" "1 \<le> d" "d \<le> days_in (leap y) m"
    using civil_valid [of dn] c by simp_all
  have d31: "d \<le> 31" using days_in_le [OF md(1,2), of "leap y"] md(4) by linarith
  have dn: "day_number (y, m, d) = dn" using day_number_civil [of dn] c by simp
  have secs: "secs < 86400" using rb by (simp add: secs_def day_ns_def less_mult_imp_div_less)
  have ns: "ns < 10 ^ 9" by (simp add: ns_def)
  have rs: "r = secs * 10 ^ 9 + ns" by (simp add: secs_def ns_def)
  have fmt: "format_rfc3339 t = pad 4 (nat y) @ CHR ''-'' # (pad 2 (nat m) @ CHR ''-'' # (pad 2 (nat d) @ CHR ''T'' #
      (pad 2 (secs div 3600) @ CHR '':'' # (pad 2 (secs div 60 mod 60) @ CHR '':'' # (pad 2 (secs mod 60) @
       (frac_text ns @ CHR ''Z'' # []))))))"
  proof -
    have "nat \<bar>y\<bar> < 10000" and "\<not> y < 0" and "nat \<bar>y\<bar> = nat y" using y by auto
    then have "year_text y = pad 4 (nat y)" by (simp only: year_text_def Let_def if_True if_False)
    then show ?thesis
      by (simp only: format_rfc3339_def Let_def dn_def [symmetric] r_def [symmetric] c prod.case
          secs_def [symmetric] ns_def [symmetric] append.simps append_assoc)
  qed
  have b: "nat y < 10 ^ 4" "nat m < 10 ^ 2" "nat d < 10 ^ 2" "secs div 3600 < 10 ^ 2"
    "secs div 60 mod 60 < 10 ^ 2" "secs mod 60 < 10 ^ 2"
    using y md d31 clock_parts(1) [OF secs]
    by (simp_all add: order.strict_trans2 [OF mod_less_divisor]) 
  have frac: "read_frac (frac_text ns @ [CHR ''Z'']) = (ns, [CHR ''Z''])"
    by (rule read_frac_text [OF ns]) (simp_all add: is_digit_def)
  have zone: "read_zone [CHR ''Z''] = Some 0" by (simp add: read_zone_def)
  have cond: "1 \<le> nat m \<and> nat m \<le> 12 \<and> 1 \<le> nat d \<and> int (nat d) \<le> days_in (leap (int (nat y))) (int (nat m))
      \<and> secs div 3600 < 24 \<and> secs div 60 mod 60 < 60 \<and> secs mod 60 < 60"
  proof -
    have "1 \<le> nat m" "nat m \<le> 12" "1 \<le> nat d" using md(1-3) by linarith+
    then show ?thesis using y md clock_parts(1) [OF secs] by simp
  qed
  have val: "day_number (int (nat y), int (nat m), int (nat d)) * day_ns
      + (int (secs div 3600 * 3600 + secs div 60 mod 60 * 60 + secs mod 60) - 0) * 10 ^ 9 + int ns = t"
    using y md dn rs t clock_parts(2) [OF secs] by simp
  show ?thesis
    unfolding fmt parse_rfc3339_def
    by (simp only: field_pad [OF b(1)] field_pad [OF b(2)] field_pad [OF b(3)] field_pad [OF b(4)]
        field_pad [OF b(5)] read_digits_pad [OF b(6)] Option.bind.simps prod.case frac zone cond val if_True simp_thms)
qed

end
