(* ===== verification/Json_Encode.thy ===== *)
theory Json_Encode
  imports Json Go_Time
begin

section \<open>Writing JSON\<close>

text \<open>
  What the code uses of \<open>json.Encoder.Encode\<close>: objects whose fields are strings, integers,
  \<open>float32\<close> numbers, instants in UTC and nulls, written as the bytes of one line. A number
  that is not finite or a year beyond 9999 has no encoding. What is written is read back by
  the reader of the theory Json.
\<close>

datatype jval = VNull | VStr string | VInt int | VFloat32 go_float | VTime int

type_synonym jobj = "(string \<times> jval) list"

subsection \<open>Strings\<close>

text \<open>\<^verbatim>\<open>\u00\<close> and two digits.\<close>

definition unicode_escape :: "nat \<Rightarrow> string" where
  "unicode_escape n = [byte 92, CHR ''u'', hex_char (n div 4096), hex_char (n div 256), hex_char (n div 16), hex_char n]"

definition ascii_escape :: "nat \<Rightarrow> string" where
  "ascii_escape b =
     (if b = 34 \<or> b = 92 then [byte 92, byte b]
      else if b = 8 then [byte 92, CHR ''b''] else if b = 12 then [byte 92, CHR ''f'']
      else if b = 10 then [byte 92, CHR ''n''] else if b = 13 then [byte 92, CHR ''r'']
      else if b = 9 then [byte 92, CHR ''t'']
      else if b < 32 \<or> b = 60 \<or> b = 62 \<or> b = 38 then unicode_escape b
      else [byte b])"

text \<open>
  The body of a string. Letters that would end a script element are escaped, and so are the
  separators U+2028 and U+2029; a byte that is not part of a UTF-8 sequence becomes U+FFFD.
\<close>

fun encode_body :: "nat \<Rightarrow> string \<Rightarrow> string" where
  "encode_body 0 s = []"
| "encode_body (Suc n) [] = []"
| "encode_body (Suc n) (ch # t) =
     (if code_of ch < 128 then ascii_escape (code_of ch) @ encode_body n t
      else let k = utf8_len (ch # t); u = take k (ch # t) in
        if k = 0 then unicode_escape 65533 @ encode_body n t
        else (if u = encode_rune 8232 then unicode_escape 8232
              else if u = encode_rune 8233 then unicode_escape 8233 else u)
             @ encode_body n (drop k (ch # t)))"

definition encode_string :: "string \<Rightarrow> string" where
  "encode_string s = [byte 34] @ encode_body (length s) s @ [byte 34]"

subsection \<open>Numbers\<close>

definition ilog10 :: "rat \<Rightarrow> int" where
  "ilog10 x =
     (let (p, q) = quotient_of x;
          e = int (floorlog 10 (nat p)) - int (floorlog 10 (nat q))
      in if x < 10 powi e then e - 1 else e)"

text \<open>
  The fewest significant digits that read back as the \<open>float32\<close> \<open>r\<close>, starting with
  \<open>n\<close>: the nearest decimal, or the one neighbour that reads back. Nine digits are always enough.
\<close>

fun shortest_digits :: "nat \<Rightarrow> nat \<Rightarrow> rat \<Rightarrow> int \<times> int" where
  "shortest_digits 0 n r =
     (let e = ilog10 r - (int n - 1) in (round_half_even (r / 10 powi e), e))"
| "shortest_digits (Suc fuel) n r =
     (let e = ilog10 r - (int n - 1); u = 10 powi e; lo = \<lfloor>r / u\<rfloor>;
          down = (f32 (of_int lo * u) = Fin r); up = (f32 (of_int (lo + 1) * u) = Fin r)
      in if down \<and> up then (round_half_even (r / u), e)
         else if down then (lo, e) else if up then (lo + 1, e)
         else shortest_digits fuel (n + 1) r)"

definition strip_trailing :: "string \<Rightarrow> string" where
  "strip_trailing s = rev (dropWhile (\<lambda>ch. ch = digit_char 0) (rev s))"

text \<open>The digits and the position of the decimal point.\<close>

definition decimal32 :: "rat \<Rightarrow> string \<times> int" where
  "decimal32 r =
     (if r = 0 then ([], 0)
      else case shortest_digits 8 1 r of (m, e) \<Rightarrow>
        let ds = show_nat (nat m) in (strip_trailing ds, int (length ds) + e))"

definition digit_at :: "string \<Rightarrow> int \<Rightarrow> char" where
  "digit_at ds i = (if 0 \<le> i \<and> nat i < length ds then ds ! nat i else digit_char 0)"

definition plain_text :: "string \<Rightarrow> int \<Rightarrow> string" where
  "plain_text ds dp =
     (if 0 < dp then map (\<lambda>i. digit_at ds (int i)) [0..<nat dp] else [digit_char 0])
     @ (let prec = int (length ds) - dp in
        if 0 < prec then CHR ''.'' # map (\<lambda>i. digit_at ds (dp + int i)) [0..<nat prec] else [])"

definition exp_text :: "string \<Rightarrow> int \<Rightarrow> string" where
  "exp_text ds dp =
     (digit_at ds 0 # (if 1 < length ds then CHR ''.'' # tl ds else []))
     @ CHR ''e'' # (if dp - 1 < 0 then CHR ''-'' else CHR ''+'') # show_nat (nat \<bar>dp - 1\<bar>)"

text \<open>
  Magnitudes from \<open>float32(1e-6)\<close> to below \<open>1e21\<close> are written without an exponent.
\<close>

definition float32_text :: "rat \<Rightarrow> string" where
  "float32_text r =
     (case decimal32 \<bar>r\<bar> of (ds, dp) \<Rightarrow>
        (if r < 0 then [CHR ''-''] else [])
        @ (if r \<noteq> 0 \<and> (\<bar>r\<bar> < round_prec 24 (-149) (1 / 10 ^ 6) \<or> round_prec 24 (-149) (10 ^ 21) \<le> \<bar>r\<bar>)
           then exp_text ds dp else plain_text ds dp))"

subsection \<open>Objects\<close>

definition encode_val :: "jval \<Rightarrow> string option" where
  "encode_val v = (case v of
     VNull \<Rightarrow> Some ''null''
   | VStr s \<Rightarrow> Some (encode_string s)
   | VInt i \<Rightarrow> Some (show_int i)
   | VFloat32 (Fin r) \<Rightarrow> Some (float32_text r)
   | VFloat32 _ \<Rightarrow> None
   | VTime t \<Rightarrow>
       if - 62167219200000000000 \<le> t \<and> t < 253402300800000000000
       then Some ([byte 34] @ format_rfc3339 t @ [byte 34]) else None)"

fun encode_fields :: "jobj \<Rightarrow> string option" where
  "encode_fields [] = Some []"
| "encode_fields ((k, v) # kvs) = (case (encode_val v, encode_fields kvs) of
     (Some x, Some y) \<Rightarrow> Some (encode_string k @ CHR '':'' # x @ (if kvs = [] then [] else CHR '','' # y))
   | _ \<Rightarrow> None)"

text \<open>What \<open>Encode\<close> writes.\<close>

definition encode_json :: "jobj \<Rightarrow> string option" where
  "encode_json kvs = map_option (\<lambda>s. CHR ''{'' # s @ [CHR ''}'', byte 10]) (encode_fields kvs)"


subsection \<open>Strings are read back\<close>

definition ascii :: "string \<Rightarrow> bool" where
  "ascii s \<longleftrightarrow> list_all (\<lambda>ch. code_of ch < 128) s"

lemma ascii_simps [simp]:
  "ascii []" "ascii (ch # s) \<longleftrightarrow> code_of ch < 128 \<and> ascii s" "ascii (s @ t) \<longleftrightarrow> ascii s \<and> ascii t"
  by (simp_all add: ascii_def)

lemma code_of_byte [simp]: "b < 256 \<Longrightarrow> code_of (byte b) = b"
  by (simp add: byte_def of_char_of)

lemma byte_code_of [simp]: "byte (code_of ch) = ch"
  by (simp add: byte_def)

lemma hex_val_char [simp]: "hex_val (hex_char d) = Some (d mod 16)"
proof -
  have "\<forall>k<16. hex_val (''0123456789abcdef'' ! k) = Some k"
    by (simp add: hex_val_def numeral_eq_Suc All_less_Suc)
  then show ?thesis by (simp add: hex_char_def)
qed

lemma read_u4_escape:
  assumes "n < 65536"
  shows "read_u4 (hex_char (n div 4096) # hex_char (n div 256) # hex_char (n div 16) # hex_char n # t) = Some n"
proof -
  have "n div 4096 mod 16 = n div 4096" using assms by simp
  moreover have "n div 4096 = n div 256 div 16" and "n div 256 = n div 16 div 16"
    by (simp_all add: div_mult2_eq [symmetric])
  ultimately have "((n div 4096 mod 16 * 16 + n div 256 mod 16) * 16 + n div 16 mod 16) * 16 + n mod 16 = n"
    by (simp only: div_mult_mod_eq)
  moreover have "read_u4 (hex_char (n div 4096) # hex_char (n div 256) # hex_char (n div 16) # hex_char n # t)
    = Some (((n div 4096 mod 16 * 16 + n div 256 mod 16) * 16 + n div 16 mod 16) * 16 + n mod 16)"
    by (simp add: read_u4_def)
  ultimately show ?thesis by (simp only:)
qed

lemma parse_unicode_escape:
  assumes "n < 128"
  shows "parse_string (Suc k) (unicode_escape n @ t) = map_option (\<lambda>(y, w). (byte n # y, w)) (parse_string k t)"
proof -
  have u: "code_of CHR ''u'' = 117" by simp
  have "read_escape (hex_char (n div 4096) # hex_char (n div 256) # hex_char (n div 16) # hex_char n # t)
    = Some ([byte n], t)"
  proof -
    have "n < 65536" using assms by simp
    from read_u4_escape [OF this] show ?thesis using assms
      by (simp only: read_escape_def option.case Let_def) (simp add: encode_rune_def)
  qed
  then show ?thesis by (simp add: unicode_escape_def)
qed

lemma parse_ascii_escape:
  assumes "b < 128"
  shows "parse_string (Suc k) (ascii_escape b @ t) = map_option (\<lambda>(y, w). (byte b # y, w)) (parse_string k t)"
proof (cases "(b < 32 \<and> b \<notin> {8, 12, 10, 13, 9}) \<or> b = 60 \<or> b = 62 \<or> b = 38")
  case True
  then have "ascii_escape b = unicode_escape b" by (auto simp: ascii_escape_def)
  then show ?thesis by (simp add: parse_unicode_escape [OF assms])
next
  case False
  show ?thesis
  proof (cases "b \<in> {34, 92, 8, 12, 10, 13, 9}")
    case True
    then show ?thesis by (auto simp: ascii_escape_def simple_escape_def)
  next
    case plain: False
    with False have "ascii_escape b = [byte b]" and "32 \<le> b" and "b \<noteq> 34" and "b \<noteq> 92"
      by (auto simp: ascii_escape_def)
    then show ?thesis using assms by (simp add: utf8_len_def in_range_def Let_def)
  qed
qed

lemma encode_body_ascii:
  "ascii s \<Longrightarrow> encode_body (length s) s = concat (map (ascii_escape \<circ> code_of) s)"
  by (induction s) auto

lemma parse_encoded_body:
  "ascii s \<Longrightarrow> length s < n \<Longrightarrow> parse_string n (encode_body (length s) s @ byte 34 # t) = Some (s, t)"
proof (induction s arbitrary: n)
  case Nil
  then obtain k where "n = Suc k" by (cases n) auto
  then show ?case by simp
next
  case (Cons ch s)
  then obtain k where k: "n = Suc k" by (cases n) auto
  with Cons show ?case by (simp add: parse_ascii_escape)
qed

lemma length_ascii_escape: "1 \<le> length (ascii_escape b)"
  by (simp add: ascii_escape_def unicode_escape_def)

lemma length_encode_body: "ascii s \<Longrightarrow> length s \<le> length (encode_body (length s) s)"
proof (induction s)
  case (Cons ch s)
  then show ?case using length_ascii_escape [of "code_of ch"] by simp
qed simp

lemma parse_encoded_string:
  assumes "ascii s"
  shows "parse_string (Suc (length (encode_body (length s) s @ byte 34 # t)))
    (encode_body (length s) s @ byte 34 # t) = Some (s, t)"
  using parse_encoded_body [OF assms] length_encode_body [OF assms] by simp


subsection \<open>Numbers are read back as their text\<close>

definition no_digit_head :: "string \<Rightarrow> bool" where
  "no_digit_head s \<longleftrightarrow> (case s of [] \<Rightarrow> True | ch # _ \<Rightarrow> \<not> is_digit ch)"

lemma span_digits_head:
  assumes "list_all is_digit ds" and "no_digit_head t"
  shows "span_digits (ds @ t) = (ds, t)"
  using assms by (induction ds) (auto simp: span_digits_def no_digit_head_def split: list.splits)

text \<open>The parts of a number: integer part, fraction and exponent.\<close>

definition int_part :: "string \<Rightarrow> bool" where
  "int_part s \<longleftrightarrow> s = ''0'' \<or>
     (case s of [] \<Rightarrow> False | d # ds \<Rightarrow> is_digit d \<and> d \<noteq> CHR ''0'' \<and> list_all is_digit ds)"

definition frac_part :: "string \<Rightarrow> bool" where
  "frac_part s \<longleftrightarrow> (case s of [] \<Rightarrow> True | ch # ds \<Rightarrow> ch = CHR ''.'' \<and> ds \<noteq> [] \<and> list_all is_digit ds)"

definition exp_part :: "string \<Rightarrow> bool" where
  "exp_part s \<longleftrightarrow> (case s of [] \<Rightarrow> True
     | ch # u \<Rightarrow> ch = CHR ''e'' \<and> (case u of [] \<Rightarrow> False
         | sg # ds \<Rightarrow> (sg = CHR ''+'' \<or> sg = CHR ''-'') \<and> ds \<noteq> [] \<and> list_all is_digit ds))"

definition delimiter :: "char \<Rightarrow> bool" where
  "delimiter ch \<longleftrightarrow> ch = CHR '','' \<or> ch = CHR ''}''"

lemma delimiter_simps [simp]: "delimiter CHR '',''" "delimiter CHR ''}''"
  by (simp_all add: delimiter_def)

lemma read_exponent_part:
  assumes "exp_part ep" and "delimiter ch"
  shows "read_exponent (ep @ ch # t) = Some (ep, ch # t)"
    and "no_digit_head (ep @ ch # t)" and "hd (ep @ ch # t) \<noteq> CHR ''.''"
proof -
  have nd: "no_digit_head (ch # t)" using assms(2) by (auto simp: no_digit_head_def delimiter_def is_digit_def)
  show "read_exponent (ep @ ch # t) = Some (ep, ch # t)"
  proof (cases ep)
    case Nil
    then show ?thesis using assms(2) by (auto simp: read_exponent_def delimiter_def)
  next
    case (Cons e u)
    with assms(1) obtain sg ds where "u = sg # ds" "e = CHR ''e''" "sg = CHR ''+'' \<or> sg = CHR ''-''"
      "ds \<noteq> []" "list_all is_digit ds"
      by (cases u) (auto simp: exp_part_def)
    then show ?thesis using Cons span_digits_head [of ds "ch # t"] nd
      by (auto simp: read_exponent_def)
  qed
  show "no_digit_head (ep @ ch # t)" and "hd (ep @ ch # t) \<noteq> CHR ''.''"
    using nd assms by (cases ep; auto simp: exp_part_def no_digit_head_def delimiter_def is_digit_def split: list.splits)+
qed

lemma read_fraction_part:
  assumes "frac_part fp" and "no_digit_head t" and "t \<noteq> []" and "hd t \<noteq> CHR ''.''"
  shows "read_fraction (fp @ t) = Some (fp, t)" and "no_digit_head (fp @ t)"
proof -
  show "read_fraction (fp @ t) = Some (fp, t)"
  proof (cases fp)
    case Nil
    then show ?thesis using assms(3,4) by (cases t) (auto simp: read_fraction_def)
  next
    case (Cons d ds)
    then show ?thesis using assms(1) span_digits_head [of ds t] assms(2)
      by (auto simp: read_fraction_def frac_part_def)
  qed
  show "no_digit_head (fp @ t)"
    using assms by (cases fp) (auto simp: frac_part_def no_digit_head_def is_digit_def)
qed

definition number_text :: "string \<Rightarrow> bool" where
  "number_text s \<longleftrightarrow> (\<exists>sg ip fp ep. s = sg @ ip @ fp @ ep \<and> (sg = [] \<or> sg = ''-'') \<and>
     int_part ip \<and> frac_part fp \<and> exp_part ep)"

lemma parse_number_text:
  assumes "number_text s" and "delimiter ch"
  shows "parse_number (s @ ch # t) = Some (s, ch # t)"
proof -
  obtain sg ip fp ep where s: "s = sg @ ip @ fp @ ep" and sg: "sg = [] \<or> sg = ''-''"
    and ip: "int_part ip" and fp: "frac_part fp" and ep: "exp_part ep"
    using assms(1) by (auto simp: number_text_def)
  note e = read_exponent_part [OF ep assms(2), of t]
  have f: "read_fraction (fp @ ep @ ch # t) = Some (fp, ep @ ch # t)" "no_digit_head (fp @ ep @ ch # t)"
    using read_fraction_part [OF fp e(2) _ e(3)] by simp_all
  obtain d ds where ipc: "ip = d # ds" and d: "is_digit d" "d = CHR ''0'' \<Longrightarrow> ds = []"
    and ds: "list_all is_digit ds"
    using ip by (cases ip) (auto simp: int_part_def is_digit_def)
  have span: "span_digits (d # ds @ fp @ ep @ ch # t) = (d # ds, fp @ ep @ ch # t)"
    using span_digits_head [of "d # ds", OF _ f(2)] d ds by simp
  have nd: "d \<noteq> CHR ''-''" using d(1) by (auto simp: is_digit_def)
  show ?thesis
    using sg nd d(2) by (auto simp: s ipc parse_number_def span f(1) e(1))
qed

lemma zero_digit: "digit_char 0 = CHR ''0''"
  by code_simp

lemma show_nat_digits: "list_all is_digit (show_nat n)"
proof (induction n rule: less_induct)
  case (less n)
  then show ?case by (cases "n < 10") (auto simp: show_nat.simps [of n])
qed

lemma digit_char_nonzero: "d < 10 \<Longrightarrow> d \<noteq> 0 \<Longrightarrow> digit_char d \<noteq> digit_char 0"
  by (metis digit_char_simps(2) zero_less_numeral)

lemma show_nat_pos:
  assumes "0 < n"
  obtains d ds where "show_nat n = d # ds" and "is_digit d" and "d \<noteq> CHR ''0''" and "list_all is_digit ds"
proof -
  have "\<exists>d ds. show_nat n = d # ds \<and> d \<noteq> CHR ''0''" using assms
  proof (induction n rule: less_induct)
    case (less n)
    show ?case
    proof (cases "n < 10")
      case True
      then show ?thesis using less.prems digit_char_nonzero [of n]
        by (simp add: show_nat.simps [of n] zero_digit)
    next
      case False
      then have "n div 10 < n" "0 < n div 10" by simp_all
      from less.IH [OF this] show ?thesis using False by (auto simp: show_nat.simps [of n])
    qed
  qed
  then show thesis using show_nat_digits [of n] that by fastforce
qed

lemma int_part_show_nat: "int_part (show_nat n)"
proof (cases "n = 0")
  case True
  then show ?thesis by (simp add: show_nat.simps [of 0] int_part_def zero_digit)
next
  case False
  then have "0 < n" by simp
  then show ?thesis by (rule show_nat_pos [of n]) (simp add: int_part_def)
qed

lemma number_show_int: "number_text (show_int i)"
  unfolding number_text_def
  by (rule exI [of _ "if i < 0 then ''-'' else []"], rule exI [of _ "show_nat (nat \<bar>i\<bar>)"],
      rule exI [of _ "[]"], rule exI [of _ "[]"])
    (simp add: show_int_def int_part_show_nat frac_part_def exp_part_def)


text \<open>The digits found for a positive number do not start with a zero.\<close>

lemma ilog10_le: "0 < x \<Longrightarrow> 10 powi ilog10 x \<le> x"
  using ilog_le [of 10 x] by (auto simp: ilog10_def Let_def split: prod.splits)

lemma floor_le_round: "\<lfloor>x\<rfloor> \<le> round_half_even x"
  by (simp add: round_half_even_def Let_def)

lemma leading_digits:
  assumes "0 < r" and "1 \<le> n"
  shows "1 \<le> \<lfloor>r / 10 powi (ilog10 r - (int n - 1))\<rfloor>"
proof -
  have "(10::rat) powi (ilog10 r - (int n - 1)) \<le> 10 powi ilog10 r"
    using assms(2) by (intro power_int_increasing) auto
  also have "\<dots> \<le> r" using assms(1) by (rule ilog10_le)
  finally show ?thesis by (simp add: le_floor_iff pos_le_divide_eq)
qed

lemma shortest_digits_pos:
  assumes "0 < r"
  shows "1 \<le> n \<Longrightarrow> shortest_digits fuel n r = (m, e) \<Longrightarrow> 1 \<le> m"
proof (induction fuel arbitrary: n)
  case 0
  then have "1 \<le> round_half_even (r / 10 powi (ilog10 r - (int n - 1)))"
    by (intro order_trans [OF leading_digits [OF assms] floor_le_round]) simp
  then show ?case using 0 by (auto simp: Let_def)
next
  case (Suc fuel)
  define u where "u = (10::rat) powi (ilog10 r - (int n - 1))"
  have lo: "1 \<le> \<lfloor>r / u\<rfloor>" unfolding u_def by (rule leading_digits [OF assms Suc.prems(1)])
  have near: "1 \<le> round_half_even (r / u)" using lo floor_le_round [of "r / u"] by linarith
  have "m \<in> {round_half_even (r / u), \<lfloor>r / u\<rfloor>, \<lfloor>r / u\<rfloor> + 1}
    \<or> shortest_digits fuel (n + 1) r = (m, e)"
    using Suc.prems(2) unfolding u_def by (auto simp: Let_def split: if_splits)
  then show ?case
  proof
    assume "m \<in> {round_half_even (r / u), \<lfloor>r / u\<rfloor>, \<lfloor>r / u\<rfloor> + 1}"
    with lo near show ?thesis by auto
  next
    assume "shortest_digits fuel (n + 1) r = (m, e)"
    with Suc.IH [of "n + 1"] show ?thesis by simp
  qed
qed

lemma strip_trailing_Cons:
  assumes "d \<noteq> digit_char 0" and "list_all is_digit ds"
  obtains ds' where "strip_trailing (d # ds) = d # ds'" and "list_all is_digit ds'"
proof -
  have "strip_trailing (d # ds) = d # rev (dropWhile (\<lambda>ch. ch = digit_char 0) (rev ds))"
    using assms(1) by (simp add: strip_trailing_def dropWhile_append)
  then show thesis using that dropWhile_rev_digits [OF assms(2)] by blast
qed

lemma digit_at_digit: "list_all is_digit ds \<Longrightarrow> is_digit (digit_at ds i)"
  by (auto simp: digit_at_def list_all_length)

lemma decimal32_digits:
  assumes "0 \<le> r" and "decimal32 r = (ds, dp)"
  shows "list_all is_digit ds" and "r = 0 \<Longrightarrow> ds = [] \<and> dp = 0"
    and "r \<noteq> 0 \<Longrightarrow> is_digit (digit_at ds 0) \<and> digit_at ds 0 \<noteq> CHR ''0'' \<and> ds \<noteq> []"
proof -
  have z: "r = 0 \<Longrightarrow> ds = [] \<and> dp = 0" using assms(2) by (simp add: decimal32_def)
  have nz: "\<exists>d ds'. ds = d # ds' \<and> is_digit d \<and> d \<noteq> CHR ''0'' \<and> list_all is_digit ds'" if "r \<noteq> 0"
  proof -
    obtain m e where me: "shortest_digits 8 1 r = (m, e)" by (cases "shortest_digits 8 1 r")
    have "1 \<le> m" using shortest_digits_pos [OF _ _ me] assms(1) that by simp
    then have "0 < nat m" by simp
    then obtain d ds1 where d: "show_nat (nat m) = d # ds1" "is_digit d" "d \<noteq> CHR ''0''" "list_all is_digit ds1"
      by (rule show_nat_pos)
    obtain ds' where st: "strip_trailing (d # ds1) = d # ds'" "list_all is_digit ds'"
      using strip_trailing_Cons [of d ds1] d by (auto simp: zero_digit)
    have "ds = strip_trailing (show_nat (nat m))"
      using assms(2) that me by (simp add: decimal32_def Let_def)
    then show ?thesis using d st by metis
  qed
  show "list_all is_digit ds" using z nz by (cases "r = 0") auto
  show "r = 0 \<Longrightarrow> ds = [] \<and> dp = 0" by (rule z)
  show "r \<noteq> 0 \<Longrightarrow> is_digit (digit_at ds 0) \<and> digit_at ds 0 \<noteq> CHR ''0'' \<and> ds \<noteq> []"
    using nz by (auto simp: digit_at_def)
qed

lemma number_plain_text:
  assumes "list_all is_digit ds" and "0 < dp \<Longrightarrow> digit_at ds 0 \<noteq> CHR ''0''"
  shows "\<exists>ip fp. plain_text ds dp = ip @ fp \<and> int_part ip \<and> frac_part fp"
proof -
  let ?ip = "if 0 < dp then map (\<lambda>i. digit_at ds (int i)) [0..<nat dp] else [digit_char 0]"
  let ?fp = "let prec = int (length ds) - dp in
        if 0 < prec then CHR ''.'' # map (\<lambda>i. digit_at ds (dp + int i)) [0..<nat prec] else []"
  have "int_part ?ip"
  proof (cases "0 < dp")
    case True
    then obtain k where "nat dp = Suc k" by (cases "nat dp") auto
    then have "[0..<nat dp] = 0 # [1..<Suc k]" by (simp add: upt_rec)
    then show ?thesis using True assms digit_at_digit [OF assms(1)]
      by (simp add: int_part_def list_all_iff)
  qed (simp add: int_part_def zero_digit)
  moreover have "frac_part ?fp"
    using digit_at_digit [OF assms(1)] by (simp add: frac_part_def Let_def list_all_iff)
  ultimately show ?thesis unfolding plain_text_def by blast
qed

lemma number_exp_text:
  assumes "list_all is_digit ds" and "digit_at ds 0 \<noteq> CHR ''0''"
  shows "\<exists>ip fp ep. exp_text ds dp = ip @ fp @ ep \<and> int_part ip \<and> frac_part fp \<and> exp_part ep"
proof -
  let ?ip = "[digit_at ds 0]" and ?fp = "if 1 < length ds then CHR ''.'' # tl ds else []"
  let ?ep = "CHR ''e'' # (if dp - 1 < 0 then CHR ''-'' else CHR ''+'') # show_nat (nat \<bar>dp - 1\<bar>)"
  have "int_part ?ip" using assms digit_at_digit by (simp add: int_part_def)
  moreover have "frac_part ?fp" using assms(1) by (cases ds) (auto simp: frac_part_def)
  moreover have "exp_part ?ep"
    using show_nat_digits [of "nat \<bar>dp - 1\<bar>"] show_nat_hd [of "nat \<bar>dp - 1\<bar>"] by (auto simp: exp_part_def)
  moreover have "exp_text ds dp = ?ip @ ?fp @ ?ep" by (simp add: exp_text_def)
  ultimately show ?thesis by blast
qed

lemma number_float32_text: "number_text (float32_text r)"
proof -
  obtain ds dp where d: "decimal32 \<bar>r\<bar> = (ds, dp)" by (cases "decimal32 \<bar>r\<bar>")
  note dd = decimal32_digits [OF _ d, simplified]
  let ?sg = "if r < 0 then [CHR ''-''] else []"
  have plain: "\<exists>ip fp. plain_text ds dp = ip @ fp \<and> int_part ip \<and> frac_part fp"
    using dd by (intro number_plain_text) auto
  have nz: "r \<noteq> 0 \<Longrightarrow> \<exists>ip fp ep. exp_text ds dp = ip @ fp @ ep \<and> int_part ip \<and> frac_part fp \<and> exp_part ep"
    using dd by (intro number_exp_text) auto
  define big where "big \<longleftrightarrow> \<bar>r\<bar> < round_prec 24 (-149) (1 / 10 ^ 6) \<or> round_prec 24 (-149) (10 ^ 21) \<le> \<bar>r\<bar>"
  have t: "float32_text r = ?sg @ (if r \<noteq> 0 \<and> big then exp_text ds dp else plain_text ds dp)"
    by (simp only: float32_text_def d prod.case big_def)
  have e0: "exp_part []" by (simp add: exp_part_def)
  show ?thesis
  proof (cases "r \<noteq> 0 \<and> big")
    case True
    then have "float32_text r = ?sg @ exp_text ds dp" using t by simp
    then show ?thesis using nz True unfolding number_text_def by (metis (full_types))
  next
    case False
    then have "float32_text r = ?sg @ plain_text ds dp" using t by auto
    then show ?thesis using plain e0 unfolding number_text_def by (metis append_Nil2)
  qed
qed


subsection \<open>Objects are read back\<close>

text \<open>What a field reads back as.\<close>

definition json_of :: "jval \<Rightarrow> json" where
  "json_of v = (case v of
     VNull \<Rightarrow> JNull
   | VStr s \<Rightarrow> JStr s
   | VInt i \<Rightarrow> JNum (show_int i)
   | VFloat32 x \<Rightarrow> JNum (case x of Fin r \<Rightarrow> float32_text r | _ \<Rightarrow> [])
   | VTime t \<Rightarrow> JStr (format_rfc3339 t))"

definition ascii_field :: "string \<times> jval \<Rightarrow> bool" where
  "ascii_field kv \<longleftrightarrow> ascii (fst kv) \<and> (case snd kv of VStr s \<Rightarrow> ascii s | _ \<Rightarrow> True)"

lemma number_text_hd:
  assumes "number_text s"
  obtains ch u where "s = ch # u" and "is_digit ch \<or> ch = CHR ''-''"
proof -
  from assms obtain sg ip r where s: "s = sg @ ip @ r" "sg = [] \<or> sg = ''-''" "int_part ip"
    by (auto simp: number_text_def)
  obtain d ds where "ip = d # ds" "is_digit d"
    using s(3) by (cases ip) (auto simp: int_part_def is_digit_def)
  with s(1,2) that show thesis by auto
qed

lemma skip_ws_Cons [simp]: "\<not> is_ws ch \<Longrightarrow> skip_ws (ch # t) = ch # t"
  by (simp add: skip_ws_def)

lemma skip_ws_delimiter [simp]: "delimiter ch \<Longrightarrow> skip_ws (ch # t) = ch # t"
  by (auto simp: delimiter_def is_ws_def)

lemma quote_not_ws [simp]: "\<not> is_ws (byte 34)"
  by (simp add: is_ws_def)

lemma parse_value_number:
  assumes "number_text s" and "delimiter ch"
  shows "parse_value (Suc n) (s @ ch # t) = Some (JNum s, ch # t)"
proof -
  obtain d u where s: "s = d # u" and d: "is_digit d \<or> d = CHR ''-''" by (rule number_text_hd [OF assms(1)])
  have "\<not> is_ws d" and "d \<noteq> CHR ''{''" and "d \<noteq> CHR ''[''" and "code_of d \<noteq> 34"
    and "d \<noteq> CHR ''t''" and "d \<noteq> CHR ''f''" and "d \<noteq> CHR ''n''"
    using d by (auto simp: is_ws_def is_digit_def)
  then show ?thesis using parse_number_text [OF assms, of t] by (simp add: s)
qed

lemma parse_value_string:
  assumes "ascii s"
  shows "parse_value (Suc n) (encode_string s @ t) = Some (JStr s, t)"
proof -
  have "byte 34 \<noteq> CHR ''{''" and "byte 34 \<noteq> CHR ''[''" 
    using code_of_byte [of 34] by (auto simp del: code_of_byte dest: arg_cong [of _ _ code_of])
  then show ?thesis using parse_encoded_string [OF assms, of t]
    by (simp add: encode_string_def)
qed

lemma ascii_digits: "list_all is_digit s \<Longrightarrow> ascii s"
  by (induction s) (auto simp: is_digit_def)

lemma plain_body:
  "list_all (\<lambda>ch. ascii_escape (code_of ch) = [ch]) s \<Longrightarrow> ascii s \<Longrightarrow> encode_body (length s) s = s"
  by (induction s) auto

lemma plain_digit: "is_digit ch \<Longrightarrow> code_of ch < 128 \<and> ascii_escape (code_of ch) = [ch]"
  using byte_code_of [of ch] by (auto simp: is_digit_def ascii_escape_def)

lemma plain_format:
  "list_all (\<lambda>ch. code_of ch < 128 \<and> ascii_escape (code_of ch) = [ch]) (format_rfc3339 t)"
proof -
  let ?P = "\<lambda>ch. code_of ch < 128 \<and> ascii_escape (code_of ch) = [ch]"
  have dig: "list_all is_digit s \<Longrightarrow> list_all ?P s" for s
    by (erule list.pred_mono_strong) (rule plain_digit)
  have pads: "list_all ?P (pad k n)" for k n by (rule dig [OF pad_digits])
  have lits: "?P CHR ''-''" "?P CHR '':''" "?P CHR ''.''" "?P CHR ''T''" "?P CHR ''Z''"
    by (simp_all add: ascii_escape_def byte_def) code_simp+
  have y: "list_all ?P (year_text y)" for y
    using pads dig [OF show_nat_digits] lits by (simp add: year_text_def Let_def)
  have f: "list_all ?P (frac_text n)" for n
    using dig [OF dropWhile_rev_digits [OF pad_digits]] lits by (simp add: frac_text_def)
  show ?thesis
    using pads y f lits by (simp add: format_rfc3339_def Let_def split: prod.split)
qed


lemma parse_value_time:
  "parse_value (Suc n) ([byte 34] @ format_rfc3339 i @ [byte 34] @ t) = Some (JStr (format_rfc3339 i), t)"
proof -
  have a: "ascii (format_rfc3339 i)" and p: "encode_body (length (format_rfc3339 i)) (format_rfc3339 i) = format_rfc3339 i"
    using plain_format [of i] by (auto intro!: plain_body simp: ascii_def list_all_iff)
  show ?thesis using parse_value_string [OF a, of n t] by (simp add: encode_string_def p)
qed

lemma parse_value_leaf:
  assumes "encode_val v = Some x" and "ascii_field (k, v)" and "delimiter ch"
  shows "parse_value (Suc n) (x @ ch # t) = Some (json_of v, ch # t)"
proof (cases v)
  case VNull
  have "\<not> is_ws CHR ''n''" by (simp add: is_ws_def)
  with VNull assms(1) show ?thesis by (auto simp: encode_val_def json_of_def strip_def)
next
  case (VStr s)
  with assms show ?thesis using parse_value_string [of s n "ch # t"]
    by (auto simp: encode_val_def json_of_def ascii_field_def)
next
  case (VInt i)
  with assms show ?thesis using parse_value_number [OF number_show_int, of ch n i t]
    by (auto simp: encode_val_def json_of_def simp del: parse_value.simps)
next
  case (VFloat32 y)
  with assms show ?thesis using parse_value_number [OF number_float32_text, of ch n _ t]
    by (cases y) (auto simp: encode_val_def json_of_def simp del: parse_value.simps)
next
  case (VTime i)
  with assms show ?thesis using parse_value_time [of n i "ch # t"]
    by (auto simp: encode_val_def json_of_def simp del: parse_value.simps split: if_splits)
qed

lemma parse_members_step:
  assumes "ascii k" and "parse_value n (x @ ch # t) = Some (w, ch # t)" and "delimiter ch"
  shows "parse_members (Suc n) (encode_string k @ CHR '':'' # x @ ch # t) =
    (if ch = CHR ''}'' then Some ([(k, w)], t)
     else map_option (\<lambda>(ms, u). ((k, w) # ms, u)) (parse_members n t))"
proof -
  have "\<not> is_ws CHR '':''" by (simp add: is_ws_def)
  then show ?thesis
    using assms(2,3) parse_encoded_string [OF assms(1), of "CHR '':'' # x @ ch # t"]
    by (auto simp: encode_string_def strip_def delimiter_def simp del: parse_value.simps parse_string.simps)
qed

lemma parse_members_fields:
  "encode_fields kvs = Some s \<Longrightarrow> kvs \<noteq> [] \<Longrightarrow> list_all ascii_field kvs \<Longrightarrow> length kvs < n \<Longrightarrow>
   parse_members n (s @ CHR ''}'' # t) = Some (map (\<lambda>(k, v). (k, json_of v)) kvs, t)"
proof (induction kvs arbitrary: s n)
  case (Cons kv kvs)
  obtain k v where kv: "kv = (k, v)" by (cases kv)
  from Cons.prems(1) kv obtain x y where x: "encode_val v = Some x" and y: "encode_fields kvs = Some y"
    and s: "s = encode_string k @ CHR '':'' # x @ (if kvs = [] then [] else CHR '','' # y)"
    by (auto split: option.splits)
  from Cons.prems(4) obtain m where n: "n = Suc (Suc m)" by (cases n; cases "n - 1") auto
  have av: "ascii_field (k, v)" and at: "list_all ascii_field kvs" using Cons.prems(3) kv by simp_all
  then have a: "ascii k" by (simp add: ascii_field_def)
  show ?case
  proof (cases "kvs = []")
    case True
    then show ?thesis
      using parse_members_step [OF a parse_value_leaf [OF x av], of "CHR ''}''" m t] s n kv
      by (simp del: parse_members.simps)
  next
    case False
    then show ?thesis
      using parse_members_step [OF a parse_value_leaf [OF x av], of "CHR '',''" m "y @ CHR ''}'' # t"]
        Cons.IH [OF y False at, of "Suc m"] Cons.prems(4) s n kv
      by (simp del: parse_members.simps)
  qed
qed simp

lemma encode_fields_length: "encode_fields kvs = Some s \<Longrightarrow> length kvs \<le> length s"
proof (induction kvs arbitrary: s)
  case (Cons kv kvs)
  then show ?case by (cases kv) (fastforce split: option.splits)
qed simp

lemma flat_depth: "json_depth (JObj (map (\<lambda>(k, v). (k, json_of v)) kvs)) = 1"
proof -
  have l: "json_depth (json_of v) = 0" for v by (simp add: json_of_def split: jval.split)
  have "map (json_depth \<circ> snd) (map (\<lambda>(k, v). (k, json_of v)) kvs) = replicate (length kvs) 0"
    by (induction kvs) (auto simp: l)
  moreover have "fold max (replicate n 0) 0 = (0::nat)" for n by (induction n) auto
  ultimately show ?thesis by simp
qed

text \<open>
  An object whose strings are ASCII is read back, field by field, whatever follows it.
\<close>

lemma read_encoded_prefix:
  assumes "encode_json kvs = Some s" and "kvs \<noteq> []" and "list_all ascii_field kvs"
  shows "read_json (s @ t) = Some (JObj (map (\<lambda>(k, v). (k, json_of v)) kvs))"
proof -
  let ?J = "JObj (map (\<lambda>(k, v). (k, json_of v)) kvs)"
  let ?n = "2 * length (s @ t) + 1"
  from assms(1) obtain f where f: "encode_fields kvs = Some f" and s: "s = CHR ''{'' # f @ [CHR ''}'', byte 10]"
    by (auto simp: encode_json_def)
  have len: "length kvs < ?n" using encode_fields_length [OF f] s by simp
  obtain k x where fk: "f = encode_string k @ x" using f assms(2)
    by (cases kvs rule: encode_fields.cases) (auto split: option.splits)
  have ne: "byte 34 \<noteq> CHR ''}''"
    using code_of_byte [of 34] by (auto simp del: code_of_byte dest: arg_cong [of _ _ code_of])
  have w: "\<not> is_ws CHR ''{''" by (simp add: is_ws_def)
  have "strip ''}'' (skip_ws (f @ CHR ''}'' # byte 10 # t)) = None"
    using ne by (simp add: fk encode_string_def strip_def)
  moreover have "parse_members ?n (f @ CHR ''}'' # byte 10 # t)
      = Some (map (\<lambda>(k, v). (k, json_of v)) kvs, byte 10 # t)"
    by (rule parse_members_fields [OF f assms(2,3) len])
  ultimately have "parse_value (Suc ?n) (s @ t) = Some (?J, byte 10 # t)"
    using w by (simp add: s del: parse_members.simps)
  then show ?thesis by (simp add: read_json_def flat_depth del: json_depth.simps parse_value.simps)
qed

lemma read_encoded:
  assumes "encode_json kvs = Some s" and "kvs \<noteq> []" and "list_all ascii_field kvs"
  shows "read_json s = Some (JObj (map (\<lambda>(k, v). (k, json_of v)) kvs))"
  using read_encoded_prefix [OF assms, of "[]"] by simp

end
