(* ===== verification/Http_Wire.thy ===== *)
theory Http_Wire
  imports Json_Encode Domain "HOL-Library.AList"
begin

section \<open>Requests, responses and what a client receives\<close>

text \<open>
  What the server uses of \<open>net/http\<close> and \<open>zap\<close>: a request, and a response writer over a
  connection. The first status written is the one that is sent, with the headers of that moment;
  later ones are dropped, and every body write is appended. The status recorder of the access log
  wraps the writer: it remembers the last status asked for. Next to the writer runs the log of
  the process, a list of entries.
\<close>

subsection \<open>Requests\<close>

record http_req =
  Method :: string
  Path :: string
  Query :: "(string \<times> string list) list"
  Header :: "(string \<times> string list) list"
  ReqBody :: string
  ReqCtx :: ctx
  UrlParams :: "(string \<times> string) list"

text \<open>\<open>Values.Get\<close> and \<open>Header.Get\<close> on canonical names: the first value, or the empty string.\<close>

definition values_get :: "(string \<times> string list) list \<Rightarrow> string \<Rightarrow> string" where
  "values_get hs k = (case map_of hs k of Some (v # _) \<Rightarrow> v | _ \<Rightarrow> [])"

text \<open>\<open>context.Value\<close> of the two keys of the router, with the assertion to a string.\<close>

definition ctx_value :: "string option \<Rightarrow> string" where
  "ctx_value v = (case v of Some x \<Rightarrow> x | None \<Rightarrow> [])"

subsection \<open>The log\<close>

datatype log_level = InfoLevel | WarnLevel | ErrorLevel

datatype log_val = LStr string | LInt int | LFloat go_float | LErr go_error | LDur int

type_synonym log_fields = "(string \<times> log_val) list"

record log_entry =
  le_level :: log_level
  le_msg :: string
  le_fields :: log_fields

subsection \<open>The response writer\<close>

text \<open>
  The header map handlers edit, what has been sent (status and headers), the body so far, the
  recorder's status and byte count, and the log.
\<close>

record writer =
  w_header :: "(string \<times> string) list"
  w_sent :: "(int \<times> (string \<times> string) list) option"
  w_body :: string
  sr_status :: int
  sr_bytes :: nat
  w_log :: "log_entry list"

definition new_writer :: writer where
  "new_writer = \<lparr>w_header = [], w_sent = None, w_body = [], sr_status = 0, sr_bytes = 0, w_log = []\<rparr>"

definition header_set :: "string \<Rightarrow> string \<Rightarrow> writer \<Rightarrow> writer" where
  "header_set k v w = w\<lparr>w_header := AList.update k v (w_header w)\<rparr>"

definition header_del :: "string \<Rightarrow> writer \<Rightarrow> writer" where
  "header_del k w = w\<lparr>w_header := AList.delete k (w_header w)\<rparr>"

definition conn_WriteHeader :: "int \<Rightarrow> writer \<Rightarrow> writer" where
  "conn_WriteHeader code w =
     (if w_sent w = None then w\<lparr>w_sent := Some (code, w_header w)\<rparr> else w)"

text \<open>A write before any status sends 200 first.\<close>

definition conn_Write :: "string \<Rightarrow> writer \<Rightarrow> writer" where
  "conn_Write b w = (let w1 = conn_WriteHeader 200 w in w1\<lparr>w_body := w_body w1 @ b\<rparr>)"

text \<open>The recorder of the access log, wrapped around the writer of the connection.\<close>

definition sr_WriteHeader :: "int \<Rightarrow> writer \<Rightarrow> writer" where
  "sr_WriteHeader code w = conn_WriteHeader code (w\<lparr>sr_status := code\<rparr>)"

definition sr_Write :: "string \<Rightarrow> writer \<Rightarrow> writer" where
  "sr_Write b w =
     (let w1 = (if sr_status w = 0 then w\<lparr>sr_status := 200\<rparr> else w); w2 = conn_Write b w1
      in w2\<lparr>sr_bytes := sr_bytes w2 + length b\<rparr>)"

subsection \<open>Handlers\<close>

text \<open>
  A handler runs in the state of the services next to the writer. A panic leaves what was
  written before it.
\<close>

type_synonym ('s, 'a) hio = "('s \<times> writer, 'a) io"

type_synonym 's handler = "http_req \<Rightarrow> ('s, unit) hio"

definition on_writer :: "(writer \<Rightarrow> writer) \<Rightarrow> ('s, unit) hio" where
  "on_writer f = (\<lambda>(s, w). (Ok (), (s, f w)))"

definition on_service :: "('s, 'a) io \<Rightarrow> ('s, 'a) hio" where
  "on_service m = (\<lambda>(s, w). case m s of (r, s') \<Rightarrow> (r, (s', w)))"

lemma on_writer_eq [io_simps]: "on_writer f (s, w) = (Ok (), (s, f w))"
  by (simp add: on_writer_def)

lemma on_service_eq [io_simps]: "on_service m (s, w) = (case m s of (r, s') \<Rightarrow> (r, (s', w)))"
  by (simp add: on_service_def)

definition log_at :: "log_fields \<Rightarrow> log_level \<Rightarrow> string \<Rightarrow> log_fields \<Rightarrow> ('s, unit) hio" where
  "log_at base lv msg extra = on_writer (\<lambda>w. w\<lparr>w_log := w_log w @
     [\<lparr>le_level = lv, le_msg = msg, le_fields = base @ extra\<rparr>]\<rparr>)"

text \<open>Statements in sequence.\<close>

definition io_then :: "('s, unit) io \<Rightarrow> ('s, 'a) io \<Rightarrow> ('s, 'a) io" where
  "io_then m n = io_bind m (\<lambda>_. n)"

lemma io_then_eq [io_simps]:
  "io_then m n s = (case m s of
     (Ok _, s') \<Rightarrow> n s' | (Err e, s') \<Rightarrow> (Err e, s') | (Panic p, s') \<Rightarrow> (Panic p, s'))"
  by (simp add: io_then_def io_bind_def)

text \<open>
  \<open>json.NewEncoder(w).Encode(v)\<close> with its error dropped: nothing is written when there is no
  encoding.
\<close>

definition encode_to :: "jobj \<Rightarrow> writer \<Rightarrow> writer" where
  "encode_to v w = (case encode_json v of Some s \<Rightarrow> sr_Write s w | None \<Rightarrow> w)"

text \<open>\<open>http.Error\<close> over one of the two writers.\<close>

definition http_Error_on ::
  "(int \<Rightarrow> writer \<Rightarrow> writer) \<Rightarrow> (string \<Rightarrow> writer \<Rightarrow> writer) \<Rightarrow> string \<Rightarrow> int \<Rightarrow> writer \<Rightarrow> writer" where
  "http_Error_on write_header write msg code w =
     write (msg @ [byte 10])
       (write_header code
         (header_set ''X-Content-Type-Options'' ''nosniff''
           (header_set ''Content-Type'' ''text/plain; charset=utf-8''
             (header_del ''Content-Length'' w))))"

subsection \<open>What the client receives\<close>

text \<open>A complete response: status, headers and body.\<close>

definition response :: "writer \<Rightarrow> (int \<times> (string \<times> string) list \<times> string) option" where
  "response w = map_option (\<lambda>(code, hs). (code, hs, w_body w)) (w_sent w)"

definition response_status :: "writer \<Rightarrow> int option" where
  "response_status w = map_option fst (w_sent w)"

text \<open>Nothing has been sent through a writer, and the recorder has seen nothing.\<close>

definition fresh :: "writer \<Rightarrow> bool" where
  "fresh w \<longleftrightarrow> w_sent w = None \<and> w_body w = [] \<and> sr_status w = 0 \<and> sr_bytes w = 0"

text \<open>
  The handler answered with one status and one body, on the content type given, and the recorder
  saw the same status and as many bytes.
\<close>

definition answered :: "int \<Rightarrow> string \<Rightarrow> string \<Rightarrow> writer \<Rightarrow> bool" where
  "answered code ctype body w \<longleftrightarrow>
     (\<exists>hs. w_sent w = Some (code, hs) \<and> map_of hs ''Content-Type'' = Some ctype) \<and>
     w_body w = body \<and> sr_status w = code \<and> sr_bytes w = length body"

named_theorems wire_simps \<open>the operations of the writer\<close>

lemmas wire_defs [wire_simps] = header_set_def header_del_def conn_WriteHeader_def conn_Write_def
  sr_WriteHeader_def sr_Write_def encode_to_def http_Error_on_def log_at_def Let_def

lemma fresh_new [simp]: "fresh new_writer"
  by (simp add: fresh_def new_writer_def)

lemma fresh_header [simp]: "fresh (header_set k v w) = fresh w" "fresh (header_del k w) = fresh w"
  by (simp_all add: fresh_def wire_simps)

lemma fresh_log [simp]: "fresh (w\<lparr>w_log := l\<rparr>) = fresh w"
  by (simp add: fresh_def)

text \<open>Header, status and body of a fresh writer are a complete answer.\<close>

lemma answered_json:
  assumes "fresh w" and "encode_json v = Some b" and "code \<noteq> 0"
  shows "answered code ''application/json'' b
    (encode_to v (sr_WriteHeader code (header_set ''Content-Type'' ''application/json'' w)))"
  using assms by (simp add: fresh_def answered_def wire_simps AList.update_conv)

end
