(* ===== verification/Openapi.thy ===== *)
theory Openapi
  imports Http_Wire
begin

section \<open>The generated API layer\<close>

text \<open>
  \<^verbatim>\<open>internal/infrastructure/http/openapi/gen.go\<close>: the types of the API with the JSON form of
  those the server sends, the interface the server implements, the wrapper that turns the
  parameters of a request into arguments, the errors of that conversion, and the registration
  of the three routes on a router. The binding functions of the library oapi-codegen/runtime
  and the matching of a request against the routes by the library chi are parameters.
\<close>

subsection \<open>Types\<close>

datatype QuoteUpdateDetailsStatus = QDone | QFailed | QProcessing | QQueued

definition details_status_text :: "QuoteUpdateDetailsStatus \<Rightarrow> string" where
  "details_status_text st = (case st of
     QDone \<Rightarrow> ''done'' | QFailed \<Rightarrow> ''failed'' | QProcessing \<Rightarrow> ''processing'' | QQueued \<Rightarrow> ''queued'')"

record LastQuote =
  lq_Pair :: string
  lq_Price :: "go_float option"
  lq_UpdatedAt :: int

record QuoteUpdateDetails =
  qd_Error :: "string option"
  qd_Pair :: string
  qd_Price :: "go_float option"
  qd_Status :: QuoteUpdateDetailsStatus
  qd_UpdateId :: string
  qd_UpdatedAt :: int

record QuoteUpdateRequest =
  qr_Pair :: string

record QuoteUpdateResponse =
  qp_UpdateId :: string

record GetLastQuoteParams =
  lp_Pair :: string

record RequestQuoteUpdateParams =
  rp_XIdempotencyKey :: string

text \<open>The fields in their order, a nil price left out (\<open>omitempty\<close>) or null.\<close>

definition json_LastQuote :: "LastQuote \<Rightarrow> jobj" where
  "json_LastQuote q =
     [(''pair'', VStr (lq_Pair q))]
     @ (case lq_Price q of None \<Rightarrow> [] | Some p \<Rightarrow> [(''price'', VFloat32 p)])
     @ [(''updated_at'', VTime (lq_UpdatedAt q))]"

definition json_QuoteUpdateDetails :: "QuoteUpdateDetails \<Rightarrow> jobj" where
  "json_QuoteUpdateDetails d =
     [(''error'', case qd_Error d of None \<Rightarrow> VNull | Some e \<Rightarrow> VStr e),
      (''pair'', VStr (qd_Pair d)),
      (''price'', case qd_Price d of None \<Rightarrow> VNull | Some p \<Rightarrow> VFloat32 p),
      (''status'', VStr (details_status_text (qd_Status d))),
      (''update_id'', VStr (qd_UpdateId d)),
      (''updated_at'', VTime (qd_UpdatedAt d))]"

definition json_QuoteUpdateResponse :: "QuoteUpdateResponse \<Rightarrow> jobj" where
  "json_QuoteUpdateResponse r = [(''update_id'', VStr (qp_UpdateId r))]"

subsection \<open>Decoding of the request body\<close>

text \<open>
  Field names match without regard to case; the long s and the Kelvin sign are other forms of
  their letters.
\<close>

fun fold_key :: "string \<Rightarrow> string" where
  "fold_key (a # b # c # s) =
     (if [a, b] = encode_rune 383 then CHR ''s'' # fold_key (c # s)
      else if [a, b, c] = encode_rune 8490 then CHR ''k'' # fold_key s
      else (if 65 \<le> code_of a \<and> code_of a \<le> 90 then byte (code_of a + 32) else a) # fold_key (b # c # s))"
| "fold_key [a, b] =
     (if [a, b] = encode_rune 383 then ''s''
      else (if 65 \<le> code_of a \<and> code_of a \<le> 90 then byte (code_of a + 32) else a) # fold_key [b])"
| "fold_key [a] = [if 65 \<le> code_of a \<and> code_of a \<le> 90 then byte (code_of a + 32) else a]"
| "fold_key [] = []"

lemma fold_key_lower:
  "list_all (\<lambda>ch. 97 \<le> code_of ch \<and> code_of ch \<le> 122) s \<Longrightarrow> fold_key s = s"
proof (induction s rule: fold_key.induct)
  case (1 a b c s)
  then have "[a, b] \<noteq> encode_rune 383" and "[a, b, c] \<noteq> encode_rune 8490"
    by (auto simp: encode_rune_def)
  with 1 show ?case by simp
next
  case (2 a b)
  then have "[a, b] \<noteq> encode_rune 383" by (auto simp: encode_rune_def)
  with 2 show ?case by simp
qed auto

text \<open>
  One member after the other: a string is stored, a null is skipped, another type is an error
  that the decoder reports at its end.
\<close>

fun decode_pair :: "(string \<times> json) list \<Rightarrow> string \<times> bool \<Rightarrow> string \<times> bool" where
  "decode_pair [] acc = acc"
| "decode_pair ((k, v) # ms) (p, bad) =
     (if fold_key k = ''pair'' then
        (case v of
           JStr s \<Rightarrow> decode_pair ms (s, bad)
         | JNull \<Rightarrow> decode_pair ms (p, bad)
         | _ \<Rightarrow> decode_pair ms (p, True))
      else decode_pair ms (p, bad))"

definition decode_request :: "string \<Rightarrow> QuoteUpdateRequest option" where
  "decode_request s = (case read_json s of
     None \<Rightarrow> None
   | Some JNull \<Rightarrow> Some \<lparr>qr_Pair = []\<rparr>
   | Some (JObj ms) \<Rightarrow> (case decode_pair ms ([], False) of
       (p, bad) \<Rightarrow> if bad then None else Some \<lparr>qr_Pair = p\<rparr>)
   | _ \<Rightarrow> None)"

subsection \<open>The server interface and its wrapper\<close>

record 's ServerInterface =
  si_GetLastQuote :: "GetLastQuoteParams \<Rightarrow> 's handler"
  si_RequestQuoteUpdate :: "RequestQuoteUpdateParams \<Rightarrow> 's handler"
  si_GetQuoteUpdate :: "string \<Rightarrow> 's handler"

text \<open>The answers of \<open>Unimplemented\<close>.\<close>

definition Unimplemented :: "'s ServerInterface" where
  "Unimplemented = \<lparr>
     si_GetLastQuote = (\<lambda>_ _. on_writer (sr_WriteHeader 501)),
     si_RequestQuoteUpdate = (\<lambda>_ _. on_writer (sr_WriteHeader 501)),
     si_GetQuoteUpdate = (\<lambda>_ _. on_writer (sr_WriteHeader 501))\<rparr>"

datatype param_error =
    UnescapedCookieParamError string go_error
  | UnmarshalingParamError string go_error
  | RequiredParamError string
  | RequiredHeaderError string go_error
  | InvalidParamFormatError string go_error
  | TooManyValuesForParamError string int

definition param_error_text :: "param_error \<Rightarrow> string" where
  "param_error_text e = (case e of
     UnescapedCookieParamError n _ \<Rightarrow> ''error unescaping cookie parameter '' @ [CHR 0x27] @ n @ [CHR 0x27]
   | UnmarshalingParamError n err \<Rightarrow>
       ''Error unmarshaling parameter '' @ n @ '' as JSON: '' @ error_text err
   | RequiredParamError n \<Rightarrow> ''Query argument '' @ n @ '' is required, but not found''
   | RequiredHeaderError n _ \<Rightarrow> ''Header parameter '' @ n @ '' is required, but not found''
   | InvalidParamFormatError n err \<Rightarrow>
       ''Invalid format for parameter '' @ n @ '': '' @ error_text err
   | TooManyValuesForParamError n k \<Rightarrow> ''Expected one value for '' @ n @ '', got '' @ show_int k)"

definition param_error_unwrap :: "param_error \<Rightarrow> go_error option" where
  "param_error_unwrap e = (case e of
     UnescapedCookieParamError _ err \<Rightarrow> Some err
   | UnmarshalingParamError _ err \<Rightarrow> Some err
   | RequiredHeaderError _ err \<Rightarrow> Some err
   | InvalidParamFormatError _ err \<Rightarrow> Some err
   | _ \<Rightarrow> None)"

type_synonym 's middleware = "'s handler \<Rightarrow> 's handler"

record 's ServerInterfaceWrapper =
  siw_Handler :: "'s ServerInterface"
  siw_HandlerMiddlewares :: "'s middleware list"
  siw_ErrorHandlerFunc :: "param_error \<Rightarrow> 's handler"

text \<open>
  The binding functions: of the query, given the parameter's name and the query's values; of a
  header or path parameter, given its name and its raw value.
\<close>

record binders =
  BindQuery :: "string \<Rightarrow> (string \<times> string list) list \<Rightarrow> go_error + string"
  BindStyled :: "string \<Rightarrow> string \<Rightarrow> go_error + string"

text \<open>\<open>for _, middleware := range ... { handler = middleware(handler) }\<close>\<close>

definition wrap_handler :: "'s middleware list \<Rightarrow> 's handler \<Rightarrow> 's handler" where
  "wrap_handler ms h = fold (\<lambda>m h. m h) ms h"

definition siw_GetLastQuote :: "binders \<Rightarrow> 's ServerInterfaceWrapper \<Rightarrow> 's handler" where
  "siw_GetLastQuote rt siw r =
     (if values_get (Query r) ''pair'' = [] then siw_ErrorHandlerFunc siw (RequiredParamError ''pair'') r
      else case BindQuery rt ''pair'' (Query r) of
        Inl err \<Rightarrow> siw_ErrorHandlerFunc siw (InvalidParamFormatError ''pair'' err) r
      | Inr p \<Rightarrow>
          wrap_handler (siw_HandlerMiddlewares siw)
            (si_GetLastQuote (siw_Handler siw) \<lparr>lp_Pair = p\<rparr>) r)"

definition siw_RequestQuoteUpdate :: "binders \<Rightarrow> 's ServerInterfaceWrapper \<Rightarrow> 's handler" where
  "siw_RequestQuoteUpdate rt siw r =
     (case map_of (Header r) ''X-Idempotency-Key'' of
        None \<Rightarrow> siw_ErrorHandlerFunc siw (RequiredHeaderError ''X-Idempotency-Key''
          (ErrorString ''Header parameter X-Idempotency-Key is required, but not found'')) r
      | Some valueList \<Rightarrow>
          (if length valueList \<noteq> 1 then
             siw_ErrorHandlerFunc siw
               (TooManyValuesForParamError ''X-Idempotency-Key'' (int (length valueList))) r
           else case BindStyled rt ''X-Idempotency-Key'' (valueList ! 0) of
             Inl err \<Rightarrow> siw_ErrorHandlerFunc siw (InvalidParamFormatError ''X-Idempotency-Key'' err) r
           | Inr k \<Rightarrow>
               wrap_handler (siw_HandlerMiddlewares siw)
                 (si_RequestQuoteUpdate (siw_Handler siw) \<lparr>rp_XIdempotencyKey = k\<rparr>) r))"

definition siw_GetQuoteUpdate :: "binders \<Rightarrow> 's ServerInterfaceWrapper \<Rightarrow> 's handler" where
  "siw_GetQuoteUpdate rt siw r =
     (case BindStyled rt ''id'' (case map_of (UrlParams r) ''id'' of Some v \<Rightarrow> v | None \<Rightarrow> []) of
        Inl err \<Rightarrow> siw_ErrorHandlerFunc siw (InvalidParamFormatError ''id'' err) r
      | Inr i \<Rightarrow>
          wrap_handler (siw_HandlerMiddlewares siw) (si_GetQuoteUpdate (siw_Handler siw) i) r)"

subsection \<open>Registration of the routes\<close>

text \<open>A router under construction: its middlewares and its routes, in the order of the calls.\<close>

record 's route =
  rt_method :: string
  rt_pattern :: string
  rt_handler :: "'s handler"

record 's router =
  rr_middlewares :: "'s middleware list"
  rr_routes :: "'s route list"

definition chi_NewRouter :: "'s router" where
  "chi_NewRouter = \<lparr>rr_middlewares = [], rr_routes = []\<rparr>"

definition router_Use :: "'s middleware \<Rightarrow> 's router \<Rightarrow> 's router" where
  "router_Use m rr = rr\<lparr>rr_middlewares := rr_middlewares rr @ [m]\<rparr>"

definition router_Method :: "string \<Rightarrow> string \<Rightarrow> 's handler \<Rightarrow> 's router \<Rightarrow> 's router" where
  "router_Method m pat h rr = rr\<lparr>rr_routes := rr_routes rr @
     [\<lparr>rt_method = m, rt_pattern = pat, rt_handler = h\<rparr>]\<rparr>"

record 's ChiServerOptions =
  co_BaseURL :: string
  co_BaseRouter :: "'s router option"
  co_Middlewares :: "'s middleware list"
  co_ErrorHandlerFunc :: "(param_error \<Rightarrow> 's handler) option"

definition HandlerWithOptions ::
  "binders \<Rightarrow> 's ServerInterface \<Rightarrow> 's ChiServerOptions \<Rightarrow> 's router" where
  "HandlerWithOptions rt si opts =
     (let r = (case co_BaseRouter opts of None \<Rightarrow> chi_NewRouter | Some r \<Rightarrow> r);
          errh = (case co_ErrorHandlerFunc opts of
            None \<Rightarrow> (\<lambda>err _. on_writer (http_Error_on sr_WriteHeader sr_Write (param_error_text err) 400))
          | Some f \<Rightarrow> f);
          wrapper = \<lparr>siw_Handler = si, siw_HandlerMiddlewares = co_Middlewares opts,
            siw_ErrorHandlerFunc = errh\<rparr>
      in router_Method ''GET'' (co_BaseURL opts @ ''/quotes/updates/{id}'') (siw_GetQuoteUpdate rt wrapper)
           (router_Method ''POST'' (co_BaseURL opts @ ''/quotes/updates'') (siw_RequestQuoteUpdate rt wrapper)
             (router_Method ''GET'' (co_BaseURL opts @ ''/quotes/last'') (siw_GetLastQuote rt wrapper) r)))"

definition no_options :: "'s ChiServerOptions" where
  "no_options = \<lparr>co_BaseURL = [], co_BaseRouter = None, co_Middlewares = [], co_ErrorHandlerFunc = None\<rparr>"

definition openapi_Handler :: "binders \<Rightarrow> 's ServerInterface \<Rightarrow> 's router" where
  "openapi_Handler rt si = HandlerWithOptions rt si no_options"

definition HandlerFromMux :: "binders \<Rightarrow> 's ServerInterface \<Rightarrow> 's router \<Rightarrow> 's router" where
  "HandlerFromMux rt si r = HandlerWithOptions rt si (no_options\<lparr>co_BaseRouter := Some r\<rparr>)"

definition HandlerFromMuxWithBaseURL ::
  "binders \<Rightarrow> 's ServerInterface \<Rightarrow> 's router \<Rightarrow> string \<Rightarrow> 's router" where
  "HandlerFromMuxWithBaseURL rt si r baseURL =
     HandlerWithOptions rt si (no_options\<lparr>co_BaseURL := baseURL, co_BaseRouter := Some r\<rparr>)"

end
