(* ===== verification/Service.thy ===== *)
theory Service
  imports Ports
begin

section \<open>The application service\<close>

text \<open>
  \<open>FXRatesService\<close> of \<^verbatim>\<open>internal/application/service.go\<close>: its fields, its constructor with
  functional options, and its methods. A nil interface value is \<open>None\<close>; calling a method
  on it panics.
\<close>

record 's FXRatesService =
  quoteRepo :: "'s QuoteRepo option"
  updateJobRepo :: "'s UpdateJobRepo option"
  rateProvider :: "'s RateProvider option"
  uow :: "'s UnitOfWork"
  svc_now :: "('s, int) io"
  svc_newID :: "('s, string) io"
  svc_idem :: "'s IdempotencyStore option"

type_synonym 's svc_option = "'s FXRatesService \<Rightarrow> 's FXRatesService"

definition WithClock :: "('s, int) io \<Rightarrow> 's svc_option" where
  "WithClock f = (\<lambda>s. s\<lparr>svc_now := f\<rparr>)"

definition WithIDGen :: "('s, string) io \<Rightarrow> 's svc_option" where
  "WithIDGen f = (\<lambda>s. s\<lparr>svc_newID := f\<rparr>)"

definition WithUoW :: "'s UnitOfWork \<Rightarrow> 's svc_option" where
  "WithUoW u = (\<lambda>s. s\<lparr>uow := u\<rparr>)"

text \<open>
  \<open>NewService\<close>; \<open>time_now\<close> and \<open>uuid_new\<close> are the defaults \<open>time.Now\<close> and
  \<open>uuid.NewString\<close>. The options run in order, each on the result of the one before.
\<close>

definition NewService ::
  "('s, int) io \<Rightarrow> ('s, string) io \<Rightarrow> 's QuoteRepo option \<Rightarrow> 's UpdateJobRepo option \<Rightarrow>
   's RateProvider option \<Rightarrow> 's IdempotencyStore option \<Rightarrow> 's svc_option list \<Rightarrow>
   's FXRatesService" where
  "NewService time_now uuid_new qr jr rp idem opts =
     fold (\<lambda>opt s. opt s) opts
       \<lparr>quoteRepo = qr, updateJobRepo = jr, rateProvider = rp, uow = NoopUoW,
        svc_now = time_now, svc_newID = uuid_new, svc_idem = idem\<rparr>"

subsection \<open>Methods\<close>

definition RequestQuoteUpdate ::
  "'s FXRatesService \<Rightarrow> ctx \<Rightarrow> string \<Rightarrow> string option \<Rightarrow> ('s, string) io" where
  "RequestQuoteUpdate svc c pair idem =
     (case idem of
        None \<Rightarrow> io_fail ErrBadRequest
      | Some key \<Rightarrow>
          if key = [] then io_fail ErrBadRequest
          else io_bind (case svc_idem svc of
                          Some st \<Rightarrow> TryReserve st c key
                        | None \<Rightarrow> io_return True)
            (\<lambda>ok. if \<not> ok then io_fail ErrConflict
              else io_bind (io_call (updateJobRepo svc) (\<lambda>r. CreateQueued r c pair idem))
                io_return))"

definition GetQuoteUpdate :: "'s FXRatesService \<Rightarrow> ctx \<Rightarrow> string \<Rightarrow> ('s, QuoteUpdate) io" where
  "GetQuoteUpdate svc c i =
     io_bind (io_try (io_call (updateJobRepo svc) (\<lambda>r. GetByID r c i)))
       (\<lambda>res. case res of
          Inl e \<Rightarrow> if errors_is e ErrNotFound then io_fail ErrNotFound else io_fail e
        | Inr upd \<Rightarrow> io_return upd)"

definition GetLastQuote :: "'s FXRatesService \<Rightarrow> ctx \<Rightarrow> string \<Rightarrow> ('s, Quote) io" where
  "GetLastQuote svc c pair =
     io_bind (io_try (io_call (quoteRepo svc) (\<lambda>r. GetLast r c pair)))
       (\<lambda>res. case res of
          Inl e \<Rightarrow> if errors_is e ErrNotFound then io_fail ErrNotFound else io_fail e
        | Inr q \<Rightarrow> io_return q)"

definition FetchQuote :: "'s FXRatesService \<Rightarrow> ctx \<Rightarrow> string \<Rightarrow> ('s, Quote) io" where
  "FetchQuote svc c pair = io_call (rateProvider svc) (\<lambda>rp. Get rp c pair)"

definition history_of :: "Quote \<Rightarrow> string \<Rightarrow> string \<Rightarrow> QuoteHistory" where
  "history_of q source updateID =
     \<lparr>H_Pair = Q_Pair q, H_Price = Q_Price q, H_QuotedAt = Q_UpdatedAt q, H_Source = source,
      H_UpdateID = Some updateID\<rparr>"

text \<open>The function \<open>CompleteQuoteUpdate\<close> hands to the unit of work.\<close>

definition complete_tx ::
  "'s FXRatesService \<Rightarrow> string \<Rightarrow> Quote \<Rightarrow> string \<Rightarrow> ctx \<Rightarrow> ('s, unit) io" where
  "complete_tx svc updateID q source txCtx =
     io_bind (io_call (quoteRepo svc) (\<lambda>r. AppendHistory r txCtx (history_of q source updateID))) (\<lambda>_.
     io_bind (io_call (quoteRepo svc) (\<lambda>r. Upsert r txCtx
        \<lparr>Q_Pair = Q_Pair q, Q_Price = Q_Price q, Q_UpdatedAt = Q_UpdatedAt q\<rparr>)) (\<lambda>_.
     io_call (updateJobRepo svc) (\<lambda>r. UpdateStatus r txCtx updateID Done None)))"

definition CompleteQuoteUpdate ::
  "'s FXRatesService \<Rightarrow> ctx \<Rightarrow> string \<Rightarrow> (ctx \<Rightarrow> ('s, Quote) io) \<Rightarrow> string \<Rightarrow> ('s, unit) io" where
  "CompleteQuoteUpdate svc c updateID fetch source =
     io_bind (io_try (fetch c)) (\<lambda>res. case res of
        Inl e \<Rightarrow>
          io_bind (io_try (io_call (updateJobRepo svc)
             (\<lambda>r. UpdateStatus r c updateID Failed (Some (error_text e)))))
            (\<lambda>_. io_fail e)
      | Inr q \<Rightarrow> Do (uow svc) c (complete_tx svc updateID q source))"

text \<open>The loop of \<open>ProcessQueueBatch\<close>; the accumulator is \<open>firstErr\<close>.\<close>

fun process_jobs ::
  "'s FXRatesService \<Rightarrow> ctx \<Rightarrow> (string \<times> string) list \<Rightarrow> go_error option \<Rightarrow>
   ('s, go_error option) io" where
  "process_jobs svc c [] firstErr = io_return firstErr"
| "process_jobs svc c ((i, p) # js) firstErr =
     io_bind (io_try (io_call (updateJobRepo svc) (\<lambda>r. UpdateStatus r c i Processing None))) (\<lambda>_.
     io_bind (io_try (CompleteQuoteUpdate svc c i (\<lambda>c'. FetchQuote svc c' p) ''db'')) (\<lambda>res.
       process_jobs svc c js
         (case res of
            Inl e \<Rightarrow> (if firstErr = None then Some e else firstErr)
          | Inr _ \<Rightarrow> firstErr)))"

definition ProcessQueueBatch :: "'s FXRatesService \<Rightarrow> ctx \<Rightarrow> int \<Rightarrow> ('s, unit) io" where
  "ProcessQueueBatch svc c batchLimit =
     io_bind (io_call (updateJobRepo svc) (\<lambda>r. ClaimQueued r c batchLimit)) (\<lambda>js.
     io_bind (process_jobs svc c js None) (\<lambda>firstErr.
       case firstErr of None \<Rightarrow> io_return () | Some e \<Rightarrow> io_fail e))"

subsection \<open>The methods under the contracts of the ports\<close>

text \<open>
  A service wired to a job store, a quote store and a unit of work that keep their contracts,
  and whose methods do not touch what the other store shows.
\<close>

locale fx_service =
  job_port jr inv jobs key + quote_port qr inv quotes enc dec history add +
  uow_port u inv "\<lambda>c s. (jobs c s, quotes c s, history c s)"
  for jr :: "'s UpdateJobRepo" and inv :: "ctx \<Rightarrow> 's \<Rightarrow> bool" and jobs :: "ctx \<Rightarrow> 's \<Rightarrow> job_map"
    and key :: "string \<Rightarrow> string" and qr :: "'s QuoteRepo" and quotes :: "ctx \<Rightarrow> 's \<Rightarrow> string \<rightharpoonup> 'q" and enc :: "Quote \<Rightarrow> 'q"
    and dec :: "string \<Rightarrow> 'q \<Rightarrow> Quote" and history :: "ctx \<Rightarrow> 's \<Rightarrow> 'h"
    and add :: "QuoteHistory \<Rightarrow> 'h \<Rightarrow> 'h" and u :: "'s UnitOfWork" +
  fixes svc :: "'s FXRatesService"
  assumes svc_jr: "updateJobRepo svc = Some jr"
    and svc_qr: "quoteRepo svc = Some qr"
    and svc_uow: "uow svc = u"
    and status_quotes: "inv c s \<Longrightarrow> quotes c (snd (UpdateStatus jr c i st err s)) = quotes c s"
    and status_history: "inv c s \<Longrightarrow> history c (snd (UpdateStatus jr c i st err s)) = history c s"
    and claim_quotes: "inv c s \<Longrightarrow> quotes c (snd (ClaimQueued jr c n s)) = quotes c s"
    and claim_history: "inv c s \<Longrightarrow> history c (snd (ClaimQueued jr c n s)) = history c s"
    and upsert_jobs: "inv c s \<Longrightarrow> jobs c (snd (Upsert qr c q s)) = jobs c s"
    and history_jobs: "inv c s \<Longrightarrow> jobs c (snd (AppendHistory qr c h s)) = jobs c s"
begin

lemma complete_tx_ok:
  assumes inv: "inv c s" and run: "complete_tx svc i q src c s = (Ok (), s')"
  shows "key i \<in> dom (jobs c s) \<and> jobs c s' = set_job (key i) Done None (jobs c s)
    \<and> quotes c s' = (quotes c s)(Q_Pair q \<mapsto> enc q)
    \<and> history c s' = add (history_of q src i) (history c s)"
proof -
  let ?h = "history_of q src i"
  have q: "\<lparr>Q_Pair = Q_Pair q, Q_Price = Q_Price q, Q_UpdatedAt = Q_UpdatedAt q\<rparr> = q" by simp
  from run obtain s1 s2 where
    h: "AppendHistory qr c ?h s = (Ok (), s1)"
    and up: "Upsert qr c q s1 = (Ok (), s2)"
    and st: "UpdateStatus jr c i Done None s2 = (Ok (), s')"
    unfolding complete_tx_def svc_qr svc_jr io_call_Some q
    by (elim io_bind_OkE) auto
  have i1: "inv c s1" and j1: "jobs c s1 = jobs c s" and q1: "quotes c s1 = quotes c s"
    using history_inv [OF inv, of ?h] history_jobs [OF inv, of ?h]
      history_quotes [OF inv, of ?h] h by auto
  have h1: "history c s1 = add ?h (history c s)" by (rule history_ok [OF inv h])
  have i2: "inv c s2" and j2: "jobs c s2 = jobs c s1" and h2: "history c s2 = history c s1"
    using upsert_inv [OF i1, of q] upsert_jobs [OF i1, of q] upsert_history [OF i1, of q] up by auto
  have h3: "history c s' = history c s2" using status_history [OF i2, of i Done None] st by simp
  have "quotes c s2 = (quotes c s1)(Q_Pair q \<mapsto> enc q)" by (rule upsert_ok [OF i1 up])
  moreover have "quotes c s' = quotes c s2" using status_quotes [OF i2, of i Done None] st by simp
  ultimately show ?thesis using status_ok [OF i2 _ st] j1 j2 q1 h1 h2 h3 by auto
qed

text \<open>A completion that succeeds: the job is done and the quote is stored.\<close>

lemma complete_ok:
  assumes fetch: "fetch c s = (Ok q, s1)" and inv: "inv c s1" and top: "ctx_tx c = None"
    and run: "CompleteQuoteUpdate svc c i fetch src s = (Ok (), s')"
  shows "key i \<in> dom (jobs c s1) \<and> jobs c s' = set_job (key i) Done None (jobs c s1)
    \<and> quotes c s' = (quotes c s1)(Q_Pair q \<mapsto> enc q)
    \<and> history c s' = add (history_of q src i) (history c s1)"
proof -
  from run have "Do u c (complete_tx svc i q src) s1 = (Ok (), s')"
    by (simp add: CompleteQuoteUpdate_def io_simps fetch svc_uow)
  from do_ok [OF inv top this] obtain c' a b where
    ia: "inv c' a" and pre: "jobs c' a = jobs c s1" "quotes c' a = quotes c s1" "history c' a = history c s1"
    and body: "complete_tx svc i q src c' a = (Ok (), b)"
    and post: "jobs c s' = jobs c' b" "quotes c s' = quotes c' b" "history c s' = history c' b"
    by auto
  show ?thesis using complete_tx_ok [OF ia body] pre post by simp
qed

text \<open>A fetch that fails: the error is returned, no quote is written, and the job is
  failed with the error's text unless the store lost or refused that write.\<close>

lemma complete_fetch_failed:
  assumes fetch: "fetch c s = (Err e, s1)" and inv: "inv c s1"
  shows "fst (CompleteQuoteUpdate svc c i fetch src s) = Err e"
    and "quotes c (snd (CompleteQuoteUpdate svc c i fetch src s)) = quotes c s1"
    and "history c (snd (CompleteQuoteUpdate svc c i fetch src s)) = history c s1"
    and "jobs c (snd (CompleteQuoteUpdate svc c i fetch src s)) = jobs c s1 \<or>
      jobs c (snd (CompleteQuoteUpdate svc c i fetch src s))
        = set_job (key i) Failed (Some (error_text e)) (jobs c s1)"
    and "inv c (snd (CompleteQuoteUpdate svc c i fetch src s))"
proof -
  obtain r s2 where st: "UpdateStatus jr c i Failed (Some (error_text e)) s1 = (r, s2)"
    by fastforce
  have np: "\<And>p. r \<noteq> Panic p" using status_no_panic [OF inv] st by auto
  have run: "CompleteQuoteUpdate svc c i fetch src s = (Err e, s2)"
    using np by (cases r) (auto simp: CompleteQuoteUpdate_def io_simps fetch svc_jr st)
  show "fst (CompleteQuoteUpdate svc c i fetch src s) = Err e" by (simp add: run)
  show "quotes c (snd (CompleteQuoteUpdate svc c i fetch src s)) = quotes c s1"
    using status_quotes [OF inv, of i Failed "Some (error_text e)"] st run by simp
  show "history c (snd (CompleteQuoteUpdate svc c i fetch src s)) = history c s1"
    using status_history [OF inv, of i Failed "Some (error_text e)"] st run by simp
  show "jobs c (snd (CompleteQuoteUpdate svc c i fetch src s)) = jobs c s1 \<or>
      jobs c (snd (CompleteQuoteUpdate svc c i fetch src s))
        = set_job (key i) Failed (Some (error_text e)) (jobs c s1)"
    using status_any [OF inv _ st] run by simp
  show "inv c (snd (CompleteQuoteUpdate svc c i fetch src s))"
    using status_inv [OF inv, of i Failed "Some (error_text e)"] st run by simp
qed

end

text \<open>
  A service whose unit of work is atomic: writes made inside a transaction show outside only
  when it commits.
\<close>

locale atomic_fx_service =
  fx_service jr inv jobs key qr quotes enc dec history add u svc +
  atomic_uow_port u inv "\<lambda>c s. (jobs c s, quotes c s, history c s)"
  for jr :: "'s UpdateJobRepo" and inv :: "ctx \<Rightarrow> 's \<Rightarrow> bool" and jobs :: "ctx \<Rightarrow> 's \<Rightarrow> job_map"
    and key :: "string \<Rightarrow> string" and qr :: "'s QuoteRepo" and quotes :: "ctx \<Rightarrow> 's \<Rightarrow> string \<rightharpoonup> 'q" and enc :: "Quote \<Rightarrow> 'q"
    and dec :: "string \<Rightarrow> 'q \<Rightarrow> Quote" and history :: "ctx \<Rightarrow> 's \<Rightarrow> 'h"
    and add :: "QuoteHistory \<Rightarrow> 'h \<Rightarrow> 'h" and u :: "'s UnitOfWork" and svc :: "'s FXRatesService" +
  assumes tx_status: "ctx_tx c = None \<Longrightarrow> ctx_tx c' \<noteq> None \<Longrightarrow>
      io_keeps (\<lambda>s. inv c s \<and> P (jobs c s) (quotes c s) (history c s)) (UpdateStatus jr c' i st err)"
    and tx_upsert: "ctx_tx c = None \<Longrightarrow> ctx_tx c' \<noteq> None \<Longrightarrow>
      io_keeps (\<lambda>s. inv c s \<and> P (jobs c s) (quotes c s) (history c s)) (Upsert qr c' q)"
    and tx_history: "ctx_tx c = None \<Longrightarrow> ctx_tx c' \<noteq> None \<Longrightarrow>
      io_keeps (\<lambda>s. inv c s \<and> P (jobs c s) (quotes c s) (history c s)) (AppendHistory qr c' h)"
begin

lemma tx_complete:
  assumes "ctx_tx c = None" and "ctx_tx c' \<noteq> None"
  shows "io_keeps (\<lambda>s. inv c s \<and> P (jobs c s) (quotes c s) (history c s)) (complete_tx svc i q src c')"
  unfolding complete_tx_def svc_jr svc_qr io_call_Some
  by (intro keeps_intros tx_status tx_upsert tx_history assms)

lemma tx_complete_sees:
  assumes "ctx_tx c = None" and "ctx_tx c' \<noteq> None"
  shows "io_keeps (\<lambda>s. inv c s \<and> (jobs c s, quotes c s, history c s) = v) (complete_tx svc i q src c')"
  by (rule tx_complete [where P = "\<lambda>m n h. (m, n, h) = v", OF assms])

lemma complete_tx_inv: "io_keeps (inv c) (complete_tx svc i q src c)"
  unfolding complete_tx_def svc_jr svc_qr io_call_Some
  by (intro keeps_intros) (auto simp: io_keeps_def history_inv upsert_inv status_inv)

lemma complete_tx_no_panic:
  assumes "inv c s"
  shows "complete_tx svc i q src c s \<noteq> (Panic x, s')"
  using assms unfolding complete_tx_def svc_jr svc_qr io_call_Some
  by (auto simp: io_bind_def split: outcome.splits prod.splits
      dest: history_no_panic upsert_no_panic status_no_panic)
    (metis history_inv upsert_inv status_no_panic upsert_no_panic snd_conv)+

text \<open>A completion whose fetch succeeded is all or nothing, whatever its result.\<close>

lemma complete_atomic:
  assumes fetch: "fetch c s = (Ok q, s1)" and inv: "inv c s1" and top: "ctx_tx c = None"
    and run: "CompleteQuoteUpdate svc c i fetch src s = (r, s')"
  shows "(jobs c s' = jobs c s1 \<and> quotes c s' = quotes c s1 \<and> history c s' = history c s1 \<and> r \<noteq> Ok ()) \<or>
    (key i \<in> dom (jobs c s1) \<and> jobs c s' = set_job (key i) Done None (jobs c s1)
      \<and> quotes c s' = (quotes c s1)(Q_Pair q \<mapsto> enc q)
      \<and> history c s' = add (history_of q src i) (history c s1))"
proof -
  have d: "Do u c (complete_tx svc i q src) s1 = (r, s')"
    using run by (simp add: CompleteQuoteUpdate_def io_simps fetch svc_uow)
  show ?thesis
  proof (cases r)
    case (Ok x)
    with run have "CompleteQuoteUpdate svc c i fetch src s = (Ok (), s')" by simp
    then show ?thesis using complete_ok [where fetch = fetch, OF fetch inv top] by blast
  next
    case (Err e)
    with d have "Do u c (complete_tx svc i q src) s1 = (Err e, s')" by simp
    from do_err [OF inv top this tx_complete_sees [OF top]] show ?thesis
      using Err complete_tx_ok by fastforce
  next
    case (Panic x)
    have "Do u c (complete_tx svc i q src) s1 \<noteq> (Panic x, s')"
      by (rule do_no_panic [OF inv top]) (rule complete_tx_no_panic)
    with d Panic show ?thesis by simp
  qed
qed

text \<open>Nothing but the fetch can panic.\<close>

lemma complete_no_panic:
  assumes "fetch c s = (Ok q, s1)" and "inv c s1" and "ctx_tx c = None"
  shows "CompleteQuoteUpdate svc c i fetch src s \<noteq> (Panic x, s')"
  using do_no_panic [OF assms(2,3) complete_tx_no_panic] assms(1)
  by (auto simp: CompleteQuoteUpdate_def io_simps svc_uow)

lemma complete_inv:
  assumes "io_keeps (inv c) (fetch c)" and top: "ctx_tx c = None"
  shows "io_keeps (inv c) (CompleteQuoteUpdate svc c i fetch src)"
  unfolding CompleteQuoteUpdate_def svc_jr svc_uow io_call_Some
proof (intro keeps_intros assms(1))
  fix res :: "go_error + Quote"
  have "io_keeps (inv c) (Do u c (complete_tx svc i q src))" for q
    by (simp add: io_keeps_def do_inv [OF _ top complete_tx_inv tx_complete_sees [OF top]])
  moreover have "io_keeps (inv c) (UpdateStatus jr c i Failed err)" for err
    by (simp add: io_keeps_def status_inv)
  ultimately show "io_keeps (inv c)
     (case res of Inl e \<Rightarrow>
        io_bind (io_try (UpdateStatus jr c i Failed (Some (error_text e)))) (\<lambda>_. io_fail e)
      | Inr q \<Rightarrow> Do u c (complete_tx svc i q src))"
    by (cases res) (auto intro!: keeps_intros)
qed

text \<open>
  Whatever the fetch returns, a completion leaves the jobs as they were or settles its own job:
  done after a fetched quote, failed with a message after a failed fetch.
\<close>

lemma complete_moves:
  assumes keep: "io_keeps (inv c) (fetch c)" and same: "jobs c (snd (fetch c s)) = jobs c s"
    and inv: "inv c s" and top: "ctx_tx c = None"
    and run: "CompleteQuoteUpdate svc c i fetch src s = (r, s')"
  shows "inv c s' \<and> settles (key i) (jobs c s) (jobs c s')"
proof -
  obtain f s1 where fetch: "fetch c s = (f, s1)" by fastforce
  have s1: "inv c s1" "jobs c s1 = jobs c s" using io_keepsD [OF keep inv] same fetch by simp_all
  have "inv c s'" using io_keepsD [OF complete_inv [where fetch = fetch, OF keep top] inv] run by (metis snd_conv)
  moreover have "settles (key i) (jobs c s) (jobs c s')"
  proof (cases f)
    case (Ok q)
    with complete_atomic [where fetch = fetch, OF _ s1(1) top run] fetch s1 show ?thesis by (auto simp: settles_def)
  next
    case (Err e)
    with complete_fetch_failed(4) [where fetch = fetch, OF _ s1(1), of s e i src] fetch run s1
    show ?thesis by (auto simp: settles_def)
  next
    case (Panic x)
    then have "s' = s1" using run fetch by (simp add: CompleteQuoteUpdate_def io_simps)
    then show ?thesis using s1 by (simp add: settles_def)
  qed
  ultimately show ?thesis ..
qed

end

text \<open>
  A service that also has a rate provider: what the database worker runs. \<open>batch_inv\<close> says
  that since the claim only the claimed jobs moved, and none of them is queued.
\<close>

locale worker_fx_service =
  atomic_fx_service jr inv jobs key qr quotes enc dec history add u svc +
  rate_port rp inv "\<lambda>c s. (jobs c s, quotes c s, history c s)"
  for jr :: "'s UpdateJobRepo" and inv :: "ctx \<Rightarrow> 's \<Rightarrow> bool" and jobs :: "ctx \<Rightarrow> 's \<Rightarrow> job_map"
    and key :: "string \<Rightarrow> string" and qr :: "'s QuoteRepo" and quotes :: "ctx \<Rightarrow> 's \<Rightarrow> string \<rightharpoonup> 'q" and enc :: "Quote \<Rightarrow> 'q"
    and dec :: "string \<Rightarrow> 'q \<Rightarrow> Quote" and history :: "ctx \<Rightarrow> 's \<Rightarrow> 'h"
    and add :: "QuoteHistory \<Rightarrow> 'h \<Rightarrow> 'h" and u :: "'s UnitOfWork" and svc :: "'s FXRatesService"
    and rp :: "'s RateProvider" +
  assumes svc_rp: "rateProvider svc = Some rp"
begin

abbreviation batch_inv :: "ctx \<Rightarrow> string set \<Rightarrow> job_map \<Rightarrow> 's \<Rightarrow> bool" where
  "batch_inv c ids m s \<equiv> inv c s \<and> moved ids m (jobs c s)"

lemma fetch_sees:
  assumes "inv c s" and "FetchQuote svc c' p s = (r, s1)"
  shows "inv c s1" and "jobs c s1 = jobs c s" and "quotes c s1 = quotes c s"
  using get_sees [OF assms(1), of c' p] get_inv [OF assms(1), of c' p] assms(2)
  by (auto simp: FetchQuote_def svc_rp io_simps)

lemma batch_status:
  assumes "key i \<in> ids" and "st \<noteq> Queued" and known: "known_status st"
  shows "io_keeps (batch_inv c ids m) (UpdateStatus jr c i st err)"
proof (rule io_keepsI)
  fix s assume b: "batch_inv c ids m s"
  obtain r s' where st: "UpdateStatus jr c i st err s = (r, s')" by fastforce
  have "moved ids m (jobs c s')"
    using status_any [OF _ known st] b moved_set_job [OF _ assms(1,2)] by auto
  moreover have "inv c s'" using status_inv [of c s i st err] b st by simp
  ultimately show "batch_inv c ids m (snd (UpdateStatus jr c i st err s))" using st by simp
qed

lemma batch_complete:
  assumes i: "key i \<in> ids" and top: "ctx_tx c = None"
  shows "io_keeps (batch_inv c ids m) (CompleteQuoteUpdate svc c i (\<lambda>c'. FetchQuote svc c' p) src)"
proof (rule io_keepsI)
  fix s assume b: "batch_inv c ids m s"
  let ?fetch = "\<lambda>c'. FetchQuote svc c' p"
  obtain r s' where run: "CompleteQuoteUpdate svc c i ?fetch src s = (r, s')" by fastforce
  have fi: "io_keeps (inv c) (?fetch c)"
    by (simp add: io_keeps_def FetchQuote_def svc_rp io_call_Some get_inv)
  have same: "jobs c (snd (?fetch c s)) = jobs c s" using fetch_sees(2) b by (metis prod.collapse)
  note m = complete_moves [where fetch = ?fetch, OF fi same _ top run]
  have "moved ids m (jobs c s')" using m b moved_set_job [OF _ i] by (auto simp: settles_def)
  with m b run show "batch_inv c ids m (snd (CompleteQuoteUpdate svc c i ?fetch src s))" by simp
qed

lemma batch_loop:
  assumes "(key \<circ> fst) ` set js \<subseteq> ids" and top: "ctx_tx c = None"
  shows "io_keeps (batch_inv c ids m) (process_jobs svc c js firstErr)"
  using assms(1)
proof (induction js arbitrary: firstErr)
  case Nil
  then show ?case by (simp add: io_keeps_return)
next
  case (Cons jp js)
  obtain i p where jp: "jp = (i, p)" by fastforce
  with Cons.prems have i: "key i \<in> ids" and js: "(key \<circ> fst) ` set js \<subseteq> ids" by auto
  show ?case
    unfolding jp process_jobs.simps svc_jr io_call_Some
    by (intro keeps_intros batch_status [OF i] batch_complete [OF i top] Cons.IH [OF js]) simp_all
qed

text \<open>One batch moves only jobs that were queued, and none of those it took is queued after.\<close>

lemma batch_moves:
  assumes inv: "inv c s" and top: "ctx_tx c = None"
  obtains ids where "\<forall>i \<in> ids. \<exists>j. jobs c s i = Some j \<and> jv_status j = Queued"
    and "batch_inv c ids (jobs c s) (snd (ProcessQueueBatch svc c n s))"
proof -
  obtain r s1 where cl: "ClaimQueued jr c n s = (r, s1)" by fastforce
  have inv1: "inv c s1" using claim_inv [OF inv, of n] cl by simp
  show thesis
  proof (cases r)
    case (Ok js)
    let ?ids = "fst ` set js"
    note ok = claim_ok [OF inv cl [unfolded Ok]]
    from ok have q: "\<forall>i \<in> ?ids. \<exists>j. jobs c s i = Some j \<and> jv_status j = Queued"
      and j1: "jobs c s1 = claim_jobs ?ids (jobs c s)" by fastforce+
    from ok have "\<forall>x \<in> set js. key (fst x) = fst x" by fastforce
    then have k: "(key \<circ> fst) ` set js \<subseteq> ?ids" by auto
    have "batch_inv c ?ids (jobs c s) s1" using inv1 j1 moved_claim by simp
    then have "batch_inv c ?ids (jobs c s) (snd (io_bind (process_jobs svc c js None)
        (\<lambda>e. case e of None \<Rightarrow> io_return () | Some e \<Rightarrow> io_fail e) s1))"
      by (intro io_keepsD [where P = "batch_inv c ?ids (jobs c s)"] keeps_intros batch_loop [OF k top])
        (auto split: option.splits intro: keeps_intros)
    then show thesis
      using that [OF q] by (simp add: ProcessQueueBatch_def svc_jr io_simps cl Ok)
  next
    case (Err e)
    from claim_err [OF inv cl [unfolded Err]] obtain ids where
      q: "\<forall>i \<in> ids. \<exists>j. jobs c s i = Some j \<and> jv_status j = Queued"
      and j1: "jobs c s1 = claim_jobs ids (jobs c s)" by blast
    have "snd (ProcessQueueBatch svc c n s) = s1"
      by (simp add: ProcessQueueBatch_def svc_jr io_simps cl Err)
    then show thesis using that [OF q] inv1 j1 moved_claim by simp
  next
    case (Panic x)
    then show thesis using claim_no_panic [OF inv] cl by blast
  qed
qed

end

end
