(* ===== verification/Http_Server.thy ===== *)
theory Http_Server
  imports Openapi Service
begin

section \<open>The handlers of the API server\<close>

text \<open>
  \<^verbatim>\<open>internal/infrastructure/http/server.go\<close>: the server, its three handlers, the JSON and error
  envelopes, and the loop that serves until its context ends. \<open>json_err\<close> is the error the
  JSON decoder reports for a body it refuses; it is only logged.
\<close>

record 's Server =
  srv_svc :: "'s FXRatesService"
  srv_ping :: "(ctx \<Rightarrow> ('s, unit) io) option"
  srv_dispatch :: "(ctx \<Rightarrow> string \<Rightarrow> string \<Rightarrow> string \<Rightarrow> ('s, unit) io) option"

definition NewServer :: "'s FXRatesService \<Rightarrow> 's Server" where
  "NewServer svc = \<lparr>srv_svc = svc, srv_ping = None, srv_dispatch = None\<rparr>"

definition SetReadyCheck :: "(ctx \<Rightarrow> ('s, unit) io) \<Rightarrow> 's Server \<Rightarrow> 's Server" where
  "SetReadyCheck f srv = srv\<lparr>srv_ping := Some f\<rparr>"

definition SetDispatcher ::
  "(ctx \<Rightarrow> string \<Rightarrow> string \<Rightarrow> string \<Rightarrow> ('s, unit) io) \<Rightarrow> 's Server \<Rightarrow> 's Server" where
  "SetDispatcher f srv = srv\<lparr>srv_dispatch := Some f\<rparr>"

subsection \<open>Envelopes and logging\<close>

definition writeJSON :: "int \<Rightarrow> jobj \<Rightarrow> ('s, unit) hio" where
  "writeJSON status v = on_writer (\<lambda>w.
     encode_to v (sr_WriteHeader status (header_set ''Content-Type'' ''application/json'' w)))"

definition apiError :: "int \<Rightarrow> string \<Rightarrow> jobj" where
  "apiError code msg = [(''code'', VInt code), (''message'', VStr msg)]"

definition writeError :: "int \<Rightarrow> string \<Rightarrow> ('s, unit) hio" where
  "writeError code msg = on_writer (\<lambda>w.
     encode_to (apiError code msg) (sr_WriteHeader code (header_set ''Content-Type'' ''application/json'' w)))"

definition loggerForRequest :: "http_req \<Rightarrow> log_fields" where
  "loggerForRequest r =
     [(''request_id'', LStr (ctx_value (ctx_request_id (ReqCtx r)))),
      (''trace_id'', LStr (values_get (Header r) ''X-Trace-Id'')),
      (''method'', LStr (Method r)),
      (''path'', LStr (Path r))]"

definition logRequestError :: "http_req \<Rightarrow> string \<Rightarrow> go_error option \<Rightarrow> ('s, unit) hio" where
  "logRequestError r msg err = (case err of
     None \<Rightarrow> io_return ()
   | Some e \<Rightarrow> log_at (loggerForRequest r) ErrorLevel msg [(''error'', LErr e)])"

definition getTraceIDFromContext :: "ctx \<Rightarrow> string" where
  "getTraceIDFromContext c = (case ctx_trace_id c of Some v \<Rightarrow> v | None \<Rightarrow> [])"

definition mapStatus :: "QuoteUpdateStatus \<Rightarrow> QuoteUpdateDetailsStatus" where
  "mapStatus st = (case st of
     Queued \<Rightarrow> QQueued | Processing \<Rightarrow> QProcessing | Done \<Rightarrow> QDone | _ \<Rightarrow> QFailed)"

subsection \<open>POST /quotes/updates\<close>

text \<open>The status and message for an error of the service.\<close>

definition request_error :: "http_req \<Rightarrow> go_error \<Rightarrow> ('s, unit) hio" where
  "request_error r err =
     (if errors_is err ErrBadRequest then writeError 400 ''bad request''
      else if errors_is err ErrUnsupportedPair then writeError 400 ''invalid pair''
      else if errors_is err ErrConflict then writeError 409 ''conflict''
      else io_then (logRequestError r ''request quote update failed'' (Some err))
        (writeError 500 ''internal error''))"

text \<open>What follows the 202: the dispatcher, when there is one.\<close>

definition request_dispatch ::
  "'s Server \<Rightarrow> http_req \<Rightarrow> log_fields \<Rightarrow> string \<Rightarrow> string \<Rightarrow> ('s, unit) hio" where
  "request_dispatch srv r lg i pair = (case srv_dispatch srv of
     None \<Rightarrow> io_return ()
   | Some f \<Rightarrow>
       io_then (log_at lg InfoLevel ''request_quote_update.dispatch'' [])
        (io_bind (io_try (on_service (f (ReqCtx r) i pair (getTraceIDFromContext (ReqCtx r))))) (\<lambda>res.
          case res of
            Inr _ \<Rightarrow> io_return ()
          | Inl err \<Rightarrow>
              io_then (log_at lg WarnLevel ''request_quote_update.dispatch_failed'' [(''error'', LErr err)])
                (writeError 503 ''background dispatch failed''))))"

definition Server_RequestQuoteUpdate ::
  "(string \<Rightarrow> go_error) \<Rightarrow> 's Server \<Rightarrow> RequestQuoteUpdateParams \<Rightarrow> 's handler" where
  "Server_RequestQuoteUpdate json_err srv params r =
     (let lg = loggerForRequest r in
      case decode_request (ReqBody r) of
        None \<Rightarrow>
          io_then (log_at lg WarnLevel ''request_quote_update.decode_failed''
              [(''error'', LErr (json_err (ReqBody r)))])
            (writeError 400 ''invalid JSON body'')
      | Some body \<Rightarrow>
          if qr_Pair body = [] then
            io_then (log_at lg WarnLevel ''request_quote_update.missing_pair'' [])
              (writeError 400 ''pair is required'')
          else if \<not> ValidatePair (qr_Pair body) then
            io_then (log_at lg WarnLevel ''request_quote_update.invalid_pair_format''
                [(''pair'', LStr (qr_Pair body))])
              (writeError 400 ''invalid pair'')
          else
            let idem = values_get (Header r) ''X-Idempotency-Key'' in
            if idem = [] then
              io_then (log_at lg WarnLevel ''request_quote_update.missing_idem'' [])
                (writeError 400 ''X-Idempotency-Key is required'')
            else
              let lg1 = lg @ [(''pair'', LStr (qr_Pair body)), (''idempotency_key'', LStr idem)] in
              io_then (log_at lg1 InfoLevel ''request_quote_update.call_service'' [])
               (io_bind (io_try (on_service
                   (RequestQuoteUpdate (srv_svc srv) (ReqCtx r) (qr_Pair body) (Some idem)))) (\<lambda>res.
                 case res of
                   Inl err \<Rightarrow> request_error r err
                 | Inr i \<Rightarrow>
                     io_then (log_at lg1 InfoLevel ''request_quote_update.queued'' [(''update_id'', LStr i)])
                      (io_then (writeJSON 202 (json_QuoteUpdateResponse \<lparr>qp_UpdateId = i\<rparr>))
                        (request_dispatch srv r lg1 i (qr_Pair body))))))"

subsection \<open>GET /quotes/updates/{id}\<close>

definition details_of :: "QuoteUpdate \<Rightarrow> QuoteUpdateDetails" where
  "details_of upd = \<lparr>qd_Error = U_Error upd, qd_Pair = U_Pair upd,
     qd_Price = map_option to_float32 (U_Price upd), qd_Status = mapStatus (U_Status upd),
     qd_UpdateId = U_ID upd, qd_UpdatedAt = U_UpdatedAt upd\<rparr>"

definition Server_GetQuoteUpdate :: "'s Server \<Rightarrow> string \<Rightarrow> 's handler" where
  "Server_GetQuoteUpdate srv i r =
     (let lg = loggerForRequest r @ [(''update_id'', LStr i)] in
      io_then (log_at lg InfoLevel ''get_quote_update.call_service'' [])
       (io_bind (io_try (on_service (GetQuoteUpdate (srv_svc srv) (ReqCtx r) i))) (\<lambda>res. case res of
          Inl err \<Rightarrow>
            if errors_is err ErrNotFound then
              io_then (log_at lg InfoLevel ''get_quote_update.not_found'' []) (writeError 404 ''not found'')
            else io_then (logRequestError r ''get quote update failed'' (Some err))
              (writeError 500 ''internal error'')
        | Inr upd \<Rightarrow>
            io_then (log_at lg InfoLevel ''get_quote_update.success''
                [(''status'', LStr (case U_Status upd of Queued \<Rightarrow> ''queued'' | Processing \<Rightarrow> ''processing''
                   | Done \<Rightarrow> ''done'' | Failed \<Rightarrow> ''failed'' | OtherStatus t \<Rightarrow> t))])
              (writeJSON 200 (json_QuoteUpdateDetails (details_of upd))))))"

subsection \<open>GET /quotes/last\<close>

definition last_quote_of :: "Quote \<Rightarrow> LastQuote" where
  "last_quote_of q = \<lparr>lq_Pair = Q_Pair q,
     lq_Price = (if Q_Price q \<noteq> Fin 0 then Some (to_float32 (Q_Price q)) else None),
     lq_UpdatedAt = Q_UpdatedAt q\<rparr>"

definition Server_GetLastQuote :: "'s Server \<Rightarrow> GetLastQuoteParams \<Rightarrow> 's handler" where
  "Server_GetLastQuote srv params r =
     (let lg = loggerForRequest r @ [(''pair'', LStr (lp_Pair params))] in
      if \<not> ValidatePair (lp_Pair params) then
        io_then (log_at lg WarnLevel ''get_last_quote.invalid_pair_format'' []) (writeError 400 ''invalid pair'')
      else
        io_then (log_at lg InfoLevel ''get_last_quote.call_service'' [])
         (io_bind (io_try (on_service (GetLastQuote (srv_svc srv) (ReqCtx r) (lp_Pair params)))) (\<lambda>res. case res of
            Inl err \<Rightarrow>
              if errors_is err ErrNotFound then
                io_then (log_at lg InfoLevel ''get_last_quote.not_found'' []) (writeError 404 ''not found'')
              else io_then (logRequestError r ''get last quote failed'' (Some err))
                (writeError 500 ''internal error'')
          | Inr q \<Rightarrow>
              io_then (log_at lg InfoLevel ''get_last_quote.success'' [(''price'', LFloat (Q_Price q))])
                (writeJSON 200 (json_LastQuote (last_quote_of q))))))"

definition server_interface :: "(string \<Rightarrow> go_error) \<Rightarrow> 's Server \<Rightarrow> 's ServerInterface" where
  "server_interface json_err srv = \<lparr>
     si_GetLastQuote = Server_GetLastQuote srv,
     si_RequestQuoteUpdate = Server_RequestQuoteUpdate json_err srv,
     si_GetQuoteUpdate = Server_GetQuoteUpdate srv\<rparr>"

subsection \<open>The serving loop\<close>

text \<open>
  \<open>Run\<close> waits for the first of two events: its context ends, or listening ends with an error.
  In the first case the server is shut down with its own timeout, whose result is dropped.
  The effects on the server object are the calls it makes, in order.
\<close>

datatype run_event = CtxEnded | ListenEnded go_error

datatype run_call = ListenAndServe string | Shutdown int

definition ErrServerClosed :: go_error where
  "ErrServerClosed = Foreign ''http: Server closed''"

definition Server_Run :: "string \<Rightarrow> int \<Rightarrow> run_event \<Rightarrow> unit outcome \<times> run_call list" where
  "Server_Run port shutdown_timeout ev =
     (let start = ListenAndServe (CHR '':'' # port) in
      case ev of
        CtxEnded \<Rightarrow> (Ok (), [start, Shutdown shutdown_timeout])
      | ListenEnded e \<Rightarrow> (if e = ErrServerClosed then Ok () else Err e, [start]))"

end
