(* ===== verification/Http_Router.thy ===== *)
theory Http_Router
  imports Http_Server
begin

section \<open>The router: middlewares, routes, fixed pages\<close>

text \<open>
  \<^verbatim>\<open>internal/infrastructure/http/router.go\<close>: the four middlewares, the fixed routes and their
  registration next to the routes of the API. What the router takes from outside is a record of
  parameters: fresh ids, the clock, the file system, the error of the JSON decoder, the binding
  functions, and chi's choice of a route with its handlers for no route and no method.
\<close>

datatype chi_match = Matched nat "(string \<times> string) list" | NoRoute | NoMethod

record 's router_env =
  re_uuid :: "'s \<Rightarrow> string \<times> 's"
  re_now :: "'s \<Rightarrow> int \<times> 's"
  re_read_file :: "string \<Rightarrow> ('s, string) io"
  re_json_err :: "string \<Rightarrow> go_error"
  re_bind :: binders
  re_find :: "(string \<times> string) list \<Rightarrow> http_req \<Rightarrow> chi_match"
  re_not_found :: "'s handler"
  re_no_method :: "'s handler"

text \<open>A function of the services' state that always returns.\<close>

definition on_state :: "('s \<Rightarrow> 'a \<times> 's) \<Rightarrow> ('s, 'a) hio" where
  "on_state f = (\<lambda>(s, w). case f s of (a, s') \<Rightarrow> (Ok a, (s', w)))"

lemma on_state_eq [io_simps]: "on_state f (s, w) = (case f s of (a, s') \<Rightarrow> (Ok a, (s', w)))"
  by (simp add: on_state_def)

subsection \<open>Middlewares\<close>

text \<open>An id from the request, or a new one.\<close>

definition choose_id :: "'s router_env \<Rightarrow> string \<Rightarrow> ('s, string) hio" where
  "choose_id env v = (if v = [] then on_state (re_uuid env) else io_return v)"

lemma choose_id_eq:
  obtains i s' where "\<And>w. choose_id env v (s, w) = (Ok i, (s', w))" and "v \<noteq> [] \<longrightarrow> i = v"
proof (cases "v = []")
  case True
  obtain i s' where "re_uuid env s = (i, s')" by fastforce
  with True show thesis by (intro that [of i s']) (simp_all add: choose_id_def on_state_eq)
next
  case False
  then show thesis by (intro that [of v s]) (simp_all add: choose_id_def io_return_eq)
qed

definition requestID :: "'s router_env \<Rightarrow> 's middleware" where
  "requestID env nxt r =
     io_bind (choose_id env (values_get (Header r) ''X-Request-Id'')) (\<lambda>rid.
       io_then (on_writer (header_set ''X-Request-Id'' rid))
         (nxt (r\<lparr>ReqCtx := (ReqCtx r)\<lparr>ctx_request_id := Some rid\<rparr>\<rparr>)))"

definition traceID :: "'s router_env \<Rightarrow> 's middleware" where
  "traceID env nxt r =
     io_bind (choose_id env (values_get (Header r) ''X-Trace-Id'')) (\<lambda>tid.
       io_then (on_writer (header_set ''X-Trace-Id'' tid))
         (nxt (r\<lparr>ReqCtx := (ReqCtx r)\<lparr>ctx_trace_id := Some tid\<rparr>\<rparr>)))"

text \<open>The deferred function of \<open>recoverer\<close>, on the writer it was given.\<close>

definition on_recover :: "http_req \<Rightarrow> string \<Rightarrow> ('s, unit) hio" where
  "on_recover r rec =
     io_then (log_at [] ErrorLevel ''panic recovered''
        [(''error'', LStr rec), (''request_id'', LStr (ctx_value (ctx_request_id (ReqCtx r))))])
      (on_writer (http_Error_on conn_WriteHeader conn_Write ''Internal Server Error'' 500))"

definition recoverer :: "'s middleware" where
  "recoverer nxt r = (\<lambda>s. case nxt r s of
     (Panic rec, s') \<Rightarrow> on_recover r rec s'
   | (Ok a, s') \<Rightarrow> (Ok a, s')
   | (Err e, s') \<Rightarrow> (Err e, s'))"

definition accessLog :: "'s router_env \<Rightarrow> 's middleware" where
  "accessLog env nxt r =
     io_bind (on_state (re_now env)) (\<lambda>start.
     io_then (on_writer (\<lambda>w. w\<lparr>sr_status := 0, sr_bytes := 0\<rparr>))
      (io_then (nxt r)
        (io_bind (on_state (re_now env)) (\<lambda>end_t.
          on_writer (\<lambda>w. w\<lparr>w_log := w_log w @ [\<lparr>le_level = InfoLevel, le_msg = ''http_request'',
            le_fields = [(''method'', LStr (Method r)), (''path'', LStr (Path r)),
              (''status'', LInt (sr_status w)),
              (''request_id'', LStr (ctx_value (ctx_request_id (ReqCtx r)))),
              (''trace_id'', LStr (ctx_value (ctx_trace_id (ReqCtx r)))),
              (''duration'', LDur (end_t - start))]\<rparr>]\<rparr>)))))"

subsection \<open>The fixed routes\<close>

definition healthz :: "'s handler" where
  "healthz r = io_then (on_writer (sr_WriteHeader 200)) (on_writer (sr_Write ''OK''))"

definition ready_answer :: "('s, unit) hio" where
  "ready_answer = io_then (on_writer (sr_WriteHeader 200)) (on_writer (sr_Write ''READY''))"

definition readyz :: "'s Server \<Rightarrow> 's handler" where
  "readyz srv r = (case srv_ping srv of
     None \<Rightarrow> ready_answer
   | Some ping \<Rightarrow> io_bind (io_try (on_service (ping (ReqCtx r)))) (\<lambda>res. case res of
       Inl _ \<Rightarrow> writeError 503 ''db not ready''
     | Inr _ \<Rightarrow> ready_answer))"

text \<open>The loop over the two paths of the specification: the first file that can be read.\<close>

fun read_first :: "(string \<Rightarrow> ('s, string) io) \<Rightarrow> string list \<Rightarrow> go_error + string \<Rightarrow>
    ('s, go_error + string) hio" where
  "read_first read [] found = io_return found"
| "read_first read (p # ps) found =
     io_bind (io_try (on_service (read p))) (\<lambda>res. case res of
       Inr data \<Rightarrow> io_return (Inr data)
     | Inl e \<Rightarrow> read_first read ps (Inl e))"

definition openapi_yaml :: "'s router_env \<Rightarrow> 's handler" where
  "openapi_yaml env r =
     io_bind (read_first (re_read_file env)
        [''api/openapi.yaml'', ''/usr/local/share/fxrates/openapi.yaml''] (Inr [])) (\<lambda>res. case res of
       Inl _ \<Rightarrow> on_writer (http_Error_on sr_WriteHeader sr_Write ''failed to load openapi spec'' 500)
     | Inr data \<Rightarrow>
         io_then (on_writer (header_set ''Content-Type'' ''application/yaml''))
          (io_then (on_writer (sr_WriteHeader 200)) (on_writer (sr_Write data))))"

definition swagger_lines :: "string list" where
  "swagger_lines =
     [''<!DOCTYPE html>'',
      ''<html>'',
      ''<head>'',
      ''  <meta charset=\"UTF-8\" />'',
      ''  <title>fxrates-service API</title>'',
      ''  <link rel=\"stylesheet\" href=\"https://unpkg.com/swagger-ui-dist/swagger-ui.css\" />'',
      ''</head>'',
      ''<body>'',
      ''  <div id=\"swagger-ui\"></div>'',
      ''  <script src=\"https://unpkg.com/swagger-ui-dist/swagger-ui-bundle.js\"></script>'',
      ''  <script>'',
      ''    window.onload = () => {'',
      ''      SwaggerUIBundle({'',
      ''        url: \"/openapi.yaml\",'',
      ''        dom_id: \"#swagger-ui\",'',
      ''        presets: [SwaggerUIBundle.presets.apis],'',
      ''        layout: \"BaseLayout\",'',
      ''        requestInterceptor: (req) => {'',
      ''          // Auto-generate X-Idempotency-Key if missing'',
      ''          const headers = req.headers || {};'',
      ''          if (!headers[\"X-Idempotency-Key\"] && !headers[\"x-idempotency-key\"]) {'',
      ''            if (window.crypto && window.crypto.randomUUID) {'',
      ''              headers[\"X-Idempotency-Key\"] = window.crypto.randomUUID();'',
      ''            }'',
      ''          }'',
      ''          // Force requests to current origin (avoids hardcoded server URL ports)'',
      ''          try {'',
      ''            const u = new URL(req.url, window.location.href);'',
      ''            u.protocol = window.location.protocol;'',
      ''            u.host = window.location.host;'',
      ''            req.url = u.toString();'',
      ''          } catch (_) { /* ignore */ }'',
      ''          req.headers = headers;'',
      ''          return req;'',
      ''        }'',
      ''      });'',
      ''    };'',
      ''  </script>'',
      ''</body>'',
      ''</html>'']"

fun join_lines :: "string list \<Rightarrow> string" where
  "join_lines [] = []"
| "join_lines [l] = l"
| "join_lines (l # ls) = l @ byte 10 # join_lines ls"

definition swaggerHTML :: string where
  "swaggerHTML = join_lines swagger_lines"

definition swagger :: "'s handler" where
  "swagger r =
     io_then (on_writer (header_set ''Content-Type'' ''text/html; charset=utf-8''))
      (io_then (on_writer (sr_WriteHeader 200)) (on_writer (sr_Write swaggerHTML)))"

subsection \<open>The router and how it serves a request\<close>

text \<open>The options of the API's routes: the errors of the parameters become the JSON envelope.\<close>

definition api_options :: "'s router \<Rightarrow> 's ChiServerOptions" where
  "api_options rr = \<lparr>co_BaseURL = [], co_BaseRouter = Some rr, co_Middlewares = [],
     co_ErrorHandlerFunc = Some (\<lambda>err r. writeError 400 ''bad request'')\<rparr>"

definition NewRouter :: "'s router_env \<Rightarrow> 's Server \<Rightarrow> 's router" where
  "NewRouter env srv =
     (let r0 = router_Use (accessLog env) (router_Use recoverer (router_Use (traceID env)
            (router_Use (requestID env) chi_NewRouter)));
          r1 = router_Method ''GET'' ''/readyz'' (readyz srv) (router_Method ''GET'' ''/healthz'' healthz r0);
          r2 = HandlerWithOptions (re_bind env) (server_interface (re_json_err env) srv) (api_options r1)
      in router_Method ''GET'' ''/swagger'' swagger
           (router_Method ''GET'' ''/openapi.yaml'' (openapi_yaml env) r2))"

definition route_http :: "'s router_env \<Rightarrow> 's route list \<Rightarrow> 's handler" where
  "route_http env routes r =
     (case re_find env (map (\<lambda>rt. (rt_method rt, rt_pattern rt)) routes) r of
        Matched k ps \<Rightarrow>
          if k < length routes then rt_handler (routes ! k) (r\<lparr>UrlParams := ps\<rparr>) else re_not_found env r
      | NoRoute \<Rightarrow> re_not_found env r
      | NoMethod \<Rightarrow> re_no_method env r)"

text \<open>The first middleware that was registered is the outermost.\<close>

definition serve :: "'s router_env \<Rightarrow> 's router \<Rightarrow> 's handler" where
  "serve env rr = foldr (\<lambda>m h. m h) (rr_middlewares rr) (route_http env (rr_routes rr))"

lemma router_routes [simp]:
  "map (\<lambda>rt. (rt_method rt, rt_pattern rt)) (rr_routes (NewRouter env srv)) =
     [(''GET'', ''/healthz''), (''GET'', ''/readyz''), (''GET'', ''/quotes/last''),
      (''POST'', ''/quotes/updates''), (''GET'', ''/quotes/updates/{id}''),
      (''GET'', ''/openapi.yaml''), (''GET'', ''/swagger'')]"
  by (simp add: NewRouter_def HandlerWithOptions_def api_options_def router_Method_def router_Use_def
      chi_NewRouter_def Let_def)

lemma serve_NewRouter:
  "serve env (NewRouter env srv) =
     requestID env (traceID env (recoverer (accessLog env (route_http env (rr_routes (NewRouter env srv))))))"
  by (simp add: serve_def NewRouter_def HandlerWithOptions_def api_options_def router_Method_def
      router_Use_def chi_NewRouter_def Let_def)

end
