(* ===== verification/Http_Effects.thy ===== *)
theory Http_Effects
  imports Http_Router
begin

section \<open>What a request can do to the services\<close>

text \<open>
  The router reaches the services through the methods of the application service, the readiness
  check and the dispatcher only, and asks for an update only for a pair it has validated. So
  what these keep, every request keeps.
\<close>

named_theorems svc_intros \<open>rules for handlers that keep a property of the services' state\<close>

text \<open>The handler keeps \<open>P\<close> of the services' state, whatever it writes.\<close>

definition svc_keeps :: "('s \<Rightarrow> bool) \<Rightarrow> ('s, 'a) hio \<Rightarrow> bool" where
  "svc_keeps P m \<longleftrightarrow> io_keeps (\<lambda>x. P (fst x)) m"

lemma svc_keepsD: "svc_keeps P m \<Longrightarrow> P s \<Longrightarrow> m (s, w) = (x, (s', w')) \<Longrightarrow> P s'"
  unfolding svc_keeps_def io_keeps_def by (metis fst_conv snd_conv)

lemma svc_basic [svc_intros]:
  "svc_keeps P (io_return a)" "svc_keeps P (on_writer f)" "svc_keeps P (log_at b lv msg ex)"
  "svc_keeps P (writeError code msg)" "svc_keeps P (writeJSON code v)"
  "svc_keeps P (logRequestError r msg err)"
  by (auto simp: svc_keeps_def io_keeps_def io_simps log_at_def writeError_def writeJSON_def
      logRequestError_def split: option.split)

lemma svc_service [svc_intros]: "io_keeps P m \<Longrightarrow> svc_keeps P (on_service m)"
  by (fastforce simp: svc_keeps_def io_keeps_def io_simps split: prod.split)

lemma svc_state [svc_intros]: "(\<And>s. P s \<Longrightarrow> P (snd (f s))) \<Longrightarrow> svc_keeps P (on_state f)"
  by (fastforce simp: svc_keeps_def io_keeps_def io_simps split: prod.split)

lemma svc_bind [svc_intros]:
  "svc_keeps P m \<Longrightarrow> (\<And>a. svc_keeps P (f a)) \<Longrightarrow> svc_keeps P (io_bind m f)"
  unfolding svc_keeps_def by (rule io_keeps_bind)

lemma svc_then [svc_intros]: "svc_keeps P m \<Longrightarrow> svc_keeps P n \<Longrightarrow> svc_keeps P (io_then m n)"
  unfolding io_then_def by (rule svc_bind)

lemma svc_try [svc_intros]: "svc_keeps P m \<Longrightarrow> svc_keeps P (io_try m)"
  unfolding svc_keeps_def by (rule io_keeps_try)

lemma svc_recoverer: "svc_keeps P (nxt r) \<Longrightarrow> svc_keeps P (recoverer nxt r)"
proof -
  assume n: "svc_keeps P (nxt r)"
  have rec: "svc_keeps P (on_recover r p)" for p
    unfolding on_recover_def by (intro svc_intros)
  show ?thesis
    using n rec unfolding recoverer_def svc_keeps_def io_keeps_def
    by (auto split: prod.split outcome.split) (metis snd_conv fst_conv)+
qed

text \<open>
  What the property \<open>P\<close> needs: from the parameters of the router that they keep it, and from the
  service's methods that they do, for contexts outside transactions and supported pairs.
\<close>

definition env_keeps :: "('s \<Rightarrow> bool) \<Rightarrow> 's router_env \<Rightarrow> bool" where
  "env_keeps P env \<longleftrightarrow> (\<forall>s. P s \<longrightarrow> P (snd (re_uuid env s)) \<and> P (snd (re_now env s))) \<and>
     (\<forall>p. io_keeps P (re_read_file env p)) \<and>
     (\<forall>r. svc_keeps P (re_not_found env r) \<and> svc_keeps P (re_no_method env r))"

definition service_keeps :: "('s \<Rightarrow> bool) \<Rightarrow> 's Server \<Rightarrow> bool" where
  "service_keeps P srv \<longleftrightarrow> (\<forall>c. ctx_tx c = None \<longrightarrow>
     (\<forall>p k. ValidatePair p \<longrightarrow> io_keeps P (RequestQuoteUpdate (srv_svc srv) c p k)) \<and>
     (\<forall>i. io_keeps P (GetQuoteUpdate (srv_svc srv) c i)) \<and>
     (\<forall>p. io_keeps P (GetLastQuote (srv_svc srv) c p)) \<and>
     (\<forall>f. srv_ping srv = Some f \<longrightarrow> io_keeps P (f c)) \<and>
     (\<forall>f i p t. srv_dispatch srv = Some f \<longrightarrow> io_keeps P (f c i p t)))"

lemma svc_post:
  assumes "service_keeps P srv" and "ctx_tx (ReqCtx r) = None"
  shows "svc_keeps P (Server_RequestQuoteUpdate je srv params r)"
proof -
  have req: "io_keeps P (RequestQuoteUpdate (srv_svc srv) (ReqCtx r) p k)" if "ValidatePair p" for p k
    using assms that by (simp add: service_keeps_def)
  have disp: "svc_keeps P (request_dispatch srv r lg i p)" for lg i p
    using assms unfolding request_dispatch_def service_keeps_def
    by (auto intro!: svc_intros split: option.split sum.split)
  show ?thesis
    unfolding Server_RequestQuoteUpdate_def request_error_def Let_def
    by (auto intro!: svc_intros req disp split: option.split sum.split)
qed

lemma svc_get_update:
  assumes "service_keeps P srv" and "ctx_tx (ReqCtx r) = None"
  shows "svc_keeps P (Server_GetQuoteUpdate srv i r)"
  using assms unfolding Server_GetQuoteUpdate_def Let_def service_keeps_def
  by (auto intro!: svc_intros split: sum.split)

lemma svc_get_last:
  assumes "service_keeps P srv" and "ctx_tx (ReqCtx r) = None"
  shows "svc_keeps P (Server_GetLastQuote srv params r)"
  using assms unfolding Server_GetLastQuote_def Let_def service_keeps_def
  by (auto intro!: svc_intros split: sum.split)

lemma svc_readyz:
  assumes "service_keeps P srv" and "ctx_tx (ReqCtx r) = None"
  shows "svc_keeps P (readyz srv r)"
  using assms unfolding readyz_def ready_answer_def service_keeps_def
  by (auto intro!: svc_intros split: option.split sum.split)

lemma svc_openapi:
  assumes "env_keeps P env"
  shows "svc_keeps P (openapi_yaml env r)"
proof -
  have "svc_keeps P (read_first (re_read_file env) ps found)" for ps found
    using assms by (induction ps arbitrary: found) (auto simp: env_keeps_def intro!: svc_intros split: sum.split)
  then show ?thesis unfolding openapi_yaml_def
    by (intro svc_bind) (auto simp del: read_first.simps intro!: svc_intros split: sum.split)
qed

lemma svc_wrapper:
  fixes je :: "string \<Rightarrow> go_error"
  assumes "service_keeps P srv" and "ctx_tx (ReqCtx r) = None"
  defines "siw \<equiv> \<lparr>siw_Handler = server_interface je srv, siw_HandlerMiddlewares = [],
    siw_ErrorHandlerFunc = (\<lambda>err r. writeError 400 ''bad request'')\<rparr>"
  shows "svc_keeps P (siw_GetLastQuote rt siw r)" and "svc_keeps P (siw_RequestQuoteUpdate rt siw r)"
    and "svc_keeps P (siw_GetQuoteUpdate rt siw r)"
  using svc_post [OF assms(1,2)] svc_get_update [OF assms(1,2)] svc_get_last [OF assms(1,2)]
  by (auto simp: siw_GetLastQuote_def siw_RequestQuoteUpdate_def siw_GetQuoteUpdate_def siw_def
      wrap_handler_def server_interface_def intro!: svc_intros split: sum.split option.split)

lemma svc_route:
  assumes env: "env_keeps P env" and srv: "service_keeps P srv" and top: "ctx_tx (ReqCtx r) = None"
  shows "svc_keeps P (route_http env (rr_routes (NewRouter env srv)) r)"
proof -
  have "\<forall>rt \<in> set (rr_routes (NewRouter env srv)). \<forall>q. ctx_tx (ReqCtx q) = None \<longrightarrow> svc_keeps P (rt_handler rt q)"
    unfolding NewRouter_def HandlerWithOptions_def api_options_def router_Method_def router_Use_def
      chi_NewRouter_def Let_def
    using svc_wrapper [OF srv] svc_readyz [OF srv] svc_openapi [OF env]
    by (auto simp: healthz_def swagger_def intro!: svc_intros)
  then show ?thesis
    using env top by (auto simp: route_http_def env_keeps_def split: chi_match.split)
qed

lemma serve_keeps:
  assumes env: "env_keeps P env" and srv: "service_keeps P srv" and top: "ctx_tx (ReqCtx r) = None"
  shows "svc_keeps P (serve env (NewRouter env srv) r)"
proof -
  have chosen: "svc_keeps P (choose_id env v)" for v
    using env by (auto simp: choose_id_def env_keeps_def intro!: svc_intros)
  have now: "svc_keeps P (on_state (re_now env))"
    using env by (auto simp: env_keeps_def intro!: svc_intros)
  have log: "svc_keeps P (accessLog env (route_http env (rr_routes (NewRouter env srv))) q)"
    if "ctx_tx (ReqCtx q) = None" for q
    unfolding accessLog_def by (intro svc_intros now svc_route [OF env srv that])
  show ?thesis
    unfolding serve_NewRouter requestID_def traceID_def
    by (intro svc_intros chosen svc_recoverer log) (simp add: top)
qed

end
