(* ===== verification/Pg_Tables.thy ===== *)
theory Pg_Tables
  imports Ports "HOL-Library.Multiset"
begin

section \<open>The PostgreSQL schema and the SQL statements\<close>

text \<open>
  The tables of \<^verbatim>\<open>internal/infrastructure/pg/migrations\<close> as lists of rows, and each SQL
  statement of the pg package as a function on the tables. A statement gets the instant its
  transaction began (\<open>NOW()\<close>), the number of the round trip it travels on, and the
  tables; it answers with an error or with its result and the new tables. A \<open>TIMESTAMPTZ\<close> is
  a number of microseconds since the Unix epoch.

  What the code cannot decide is read from an environment record: the clock, the outcome of
  each round trip, the digits of the random ids, the order in which the server scans rows,
  the rows another session has locked, and three conversions the driver makes (the spellings
  of a UUID it accepts, the decimal text of a float64, the microsecond of an instant).
\<close>

subsection \<open>The environment\<close>

datatype db_answer = Carried | Refused string | Lost string

record pg_env =
  env_now :: "nat \<Rightarrow> int"
  env_answer :: "nat \<Rightarrow> db_answer"
  env_uuid :: "nat \<Rightarrow> nat \<Rightarrow> nat"
  env_uuid_of :: "string \<Rightarrow> string"
  env_decimal :: "rat \<Rightarrow> rat"
  env_micros :: "int \<Rightarrow> int"
  env_scan :: "nat \<Rightarrow> string \<Rightarrow> nat"
  env_locked :: "nat \<Rightarrow> string list"

subsection \<open>Columns\<close>

definition is_dash :: "nat \<Rightarrow> bool" where
  "is_dash k \<longleftrightarrow> k = 8 \<or> k = 13 \<or> k = 18 \<or> k = 23"

definition is_hex :: "char \<Rightarrow> bool" where
  "is_hex ch \<longleftrightarrow> ch \<in> set ''0123456789abcdef''"

text \<open>The text form in which a UUID is read back: 36 characters, lower case.\<close>

definition is_canonical_uuid :: "string \<Rightarrow> bool" where
  "is_canonical_uuid s \<longleftrightarrow> length s = 36 \<and>
     list_all (\<lambda>k. if is_dash k then s ! k = CHR ''-'' else is_hex (s ! k)) [0..<36]"

text \<open>\<open>uuid.NewString\<close> on a stream of random digits.\<close>

definition uuid_text :: "(nat \<Rightarrow> nat) \<Rightarrow> string" where
  "uuid_text g = map (\<lambda>k. if is_dash k then CHR ''-'' else ''0123456789abcdef'' ! (g k mod 16)) [0..<36]"

lemma uuid_text_canonical [simp]: "is_canonical_uuid (uuid_text g)"
proof -
  have "is_hex (''0123456789abcdef'' ! (n mod 16))" for n :: nat
    unfolding is_hex_def by (rule nth_mem) simp
  then show ?thesis by (simp add: is_canonical_uuid_def uuid_text_def list_all_iff)
qed

text \<open>A string sent as a \<open>UUID\<close> parameter; the driver refuses what it cannot parse.\<close>

definition uuid_param :: "pg_env \<Rightarrow> string \<Rightarrow> string option" where
  "uuid_param E i =
     (if is_canonical_uuid i then Some i
      else if is_canonical_uuid (env_uuid_of E i) then Some (env_uuid_of E i)
      else None)"

definition uuid_key :: "pg_env \<Rightarrow> string \<Rightarrow> string" where
  "uuid_key E i = (case uuid_param E i of Some x \<Rightarrow> x | None \<Rightarrow> i)"

lemma uuid_param_canonical: "uuid_param E i = Some x \<Longrightarrow> is_canonical_uuid x"
  by (auto simp: uuid_param_def split: if_splits)

lemma uuid_key_canonical [simp]: "is_canonical_uuid i \<Longrightarrow> uuid_key E i = i"
  by (simp add: uuid_key_def uuid_param_def)

lemma uuid_key_param [simp]: "uuid_param E i = Some x \<Longrightarrow> uuid_key E i = x"
  by (simp add: uuid_key_def)

text \<open>
  \<open>NUMERIC(18,6)\<close>: a number of millionths of at most 18 digits, or NaN. Storing rounds
  half away from zero.
\<close>

datatype numeric = Num int | NumNaN

definition round_away :: "rat \<Rightarrow> int" where
  "round_away x = (if x < 0 then - \<lfloor>- x + 1 / 2\<rfloor> else \<lfloor>x + 1 / 2\<rfloor>)"

definition numeric_fits :: "numeric \<Rightarrow> bool" where
  "numeric_fits n = (case n of Num m \<Rightarrow> \<bar>m\<bar> < 10 ^ 18 | NumNaN \<Rightarrow> True)"

definition to_numeric :: "pg_env \<Rightarrow> go_float \<Rightarrow> numeric" where
  "to_numeric E x = (case x of Fin r \<Rightarrow> Num (round_away (env_decimal E r * 10 ^ 6)) | _ \<Rightarrow> NumNaN)"

definition numeric_param :: "pg_env \<Rightarrow> go_float \<Rightarrow> go_error + numeric" where
  "numeric_param E x =
     (if x = PosInf \<or> x = NegInf \<or> \<not> numeric_fits (to_numeric E x)
      then Inl (Foreign ''numeric field overflow'') else Inr (to_numeric E x))"

text \<open>\<open>price::float8\<close>.\<close>

definition numeric_float8 :: "numeric \<Rightarrow> go_float" where
  "numeric_float8 n = (case n of Num m \<Rightarrow> f64 (of_int m / 10 ^ 6) | NumNaN \<Rightarrow> NaN)"

text \<open>Statuses as stored; any other text reads back as failed, and is written as failed.\<close>

definition status_of_text :: "string \<Rightarrow> QuoteUpdateStatus" where
  "status_of_text s =
     (if s = ''queued'' then Queued else if s = ''processing'' then Processing
      else if s = ''done'' then Done else Failed)"

definition status_text :: "QuoteUpdateStatus \<Rightarrow> string" where
  "status_text st = (case st of Queued \<Rightarrow> ''queued'' | Processing \<Rightarrow> ''processing''
     | Done \<Rightarrow> ''done'' | Failed \<Rightarrow> ''failed'' | OtherStatus _ \<Rightarrow> ''failed'')"

lemma status_roundtrip [simp]: "known_status st \<Longrightarrow> status_of_text (status_text st) = st"
  by (cases st) (auto simp: status_of_text_def status_text_def)

lemma status_of_text_queued [simp]: "status_of_text s = Queued \<longleftrightarrow> s = ''queued''"
  by (simp add: status_of_text_def)

lemma status_of_text_literals [simp]:
  "status_of_text ''queued'' = Queued" "status_of_text ''processing'' = Processing"
  "status_of_text ''done'' = Done" "status_of_text ''failed'' = Failed"
  by (simp_all add: status_of_text_def)

subsection \<open>Tables\<close>

record quote_row =
  qu_pair :: string
  qu_price :: numeric
  qu_updated :: int

record job_row =
  ju_id :: string
  ju_pair :: string
  ju_status :: string
  ju_error :: "string option"
  ju_requested :: int
  ju_completed :: "int option"

record hist_row =
  hi_pair :: string
  hi_price :: numeric
  hi_quoted :: int
  hi_source :: string
  hi_update :: "string option"
  hi_inserted :: int

record tables =
  t_quotes :: "quote_row list"
  t_jobs :: "job_row list"
  t_hist :: "hist_row list"

definition hist_key :: "hist_row \<Rightarrow> string \<times> int \<times> string" where
  "hist_key h = (hi_pair h, hi_quoted h, hi_source h)"

text \<open>The constraints of the schema.\<close>

definition job_row_ok :: "job_row \<Rightarrow> bool" where
  "job_row_ok r \<longleftrightarrow> is_canonical_uuid (ju_id r) \<and>
     ju_status r \<in> {''queued'', ''processing'', ''done'', ''failed''}"

definition update_exists :: "string set \<Rightarrow> hist_row \<Rightarrow> bool" where
  "update_exists ids h = (case hi_update h of None \<Rightarrow> True | Some i \<Rightarrow> i \<in> ids)"

definition tables_ok :: "tables \<Rightarrow> bool" where
  "tables_ok T \<longleftrightarrow>
     distinct (map ju_id (t_jobs T)) \<and> list_all job_row_ok (t_jobs T) \<and>
     distinct (map qu_pair (t_quotes T)) \<and> list_all (numeric_fits \<circ> qu_price) (t_quotes T) \<and>
     distinct (map hist_key (t_hist T)) \<and> list_all (numeric_fits \<circ> hi_price) (t_hist T) \<and>
     list_all (update_exists (ju_id ` set (t_jobs T))) (t_hist T)"

definition empty_tables :: tables where
  "empty_tables = \<lparr>t_quotes = [], t_jobs = [], t_hist = []\<rparr>"

lemma empty_tables_ok [simp]: "tables_ok empty_tables"
  by (simp add: tables_ok_def empty_tables_def)

subsection \<open>Statements\<close>

type_synonym 'r stmt = "int \<Rightarrow> nat \<Rightarrow> tables \<Rightarrow> go_error + 'r \<times> tables"

text \<open>\<open>INSERT INTO quote_updates(id, pair, status) VALUES ($1, $2, 'queued')\<close>\<close>

definition sql_insert_job :: "pg_env \<Rightarrow> string \<Rightarrow> string \<Rightarrow> nat stmt" where
  "sql_insert_job E i p now n T =
     (case uuid_param E i of
        None \<Rightarrow> Inl (Foreign ''cannot parse UUID'')
      | Some x \<Rightarrow>
          if x \<in> ju_id ` set (t_jobs T) then Inl (Foreign ''duplicate key value'')
          else Inr (1, T\<lparr>t_jobs := t_jobs T @
            [\<lparr>ju_id = x, ju_pair = p, ju_status = ''queued'', ju_error = None,
              ju_requested = now div 1000, ju_completed = None\<rparr>]\<rparr>))"

text \<open>
  The query of \<open>GetByID\<close>: the job and, through the lateral join, the latest of its history
  rows.
\<close>

record job_result =
  jr_id :: string
  jr_pair :: string
  jr_status :: string
  jr_error :: "string option"
  jr_updated :: int
  jr_price :: "go_float option"

definition job_history :: "pg_env \<Rightarrow> nat \<Rightarrow> tables \<Rightarrow> string \<Rightarrow> hist_row list" where
  "job_history E n T i =
     take 1 (sort_key (\<lambda>h. - hi_quoted h)
       (sort_key (\<lambda>h. env_scan E n (hi_source h)) (filter (\<lambda>h. hi_update h = Some i) (t_hist T))))"

definition job_result_of :: "job_row \<Rightarrow> hist_row list \<Rightarrow> job_result" where
  "job_result_of r hs =
     \<lparr>jr_id = ju_id r, jr_pair = ju_pair r, jr_status = ju_status r, jr_error = ju_error r,
      jr_updated = (case hs of h # _ \<Rightarrow> hi_quoted h
        | [] \<Rightarrow> (case ju_completed r of Some t \<Rightarrow> t | None \<Rightarrow> ju_requested r)),
      jr_price = (case hs of h # _ \<Rightarrow> Some (numeric_float8 (hi_price h)) | [] \<Rightarrow> None)\<rparr>"

definition sql_get_job :: "pg_env \<Rightarrow> string \<Rightarrow> job_result option stmt" where
  "sql_get_job E i now n T =
     (case uuid_param E i of
        None \<Rightarrow> Inl (Foreign ''cannot parse UUID'')
      | Some x \<Rightarrow> (case filter (\<lambda>r. ju_id r = x) (t_jobs T) of
            [] \<Rightarrow> Inr (None, T)
          | r # _ \<Rightarrow> Inr (Some (job_result_of r (job_history E n T x)), T)))"

text \<open>The update of \<open>UpdateStatus\<close>; the result is the number of rows affected.\<close>

definition status_row :: "string \<Rightarrow> string option \<Rightarrow> int \<Rightarrow> job_row \<Rightarrow> job_row" where
  "status_row st err now r = r\<lparr>ju_status := st, ju_error := err,
     ju_completed := (if st = ''done'' \<or> st = ''failed'' then Some (now div 1000) else ju_completed r)\<rparr>"

definition sql_update_status :: "pg_env \<Rightarrow> string \<Rightarrow> string \<Rightarrow> string option \<Rightarrow> nat stmt" where
  "sql_update_status E i st err now n T =
     (case uuid_param E i of
        None \<Rightarrow> Inl (Foreign ''cannot parse UUID'')
      | Some x \<Rightarrow>
          if st \<notin> {''queued'', ''processing'', ''done'', ''failed''}
          then Inl (Foreign ''violates check constraint'')
          else Inr (length (filter (\<lambda>r. ju_id r = x) (t_jobs T)),
            T\<lparr>t_jobs := map (\<lambda>r. if ju_id r = x then status_row st err now r else r) (t_jobs T)\<rparr>))"

text \<open>
  The claim: the oldest queued rows nobody has locked, at most the limit, become
  \<open>processing\<close> and their ids and pairs are returned in the order of the join.
\<close>

definition claim_rows :: "pg_env \<Rightarrow> nat \<Rightarrow> int \<Rightarrow> tables \<Rightarrow> job_row list" where
  "claim_rows E n lmt T =
     take (nat lmt) (filter (\<lambda>r. ju_id r \<notin> set (env_locked E n))
       (sort_key ju_requested (sort_key (\<lambda>r. env_scan E n (ju_id r))
         (filter (\<lambda>r. ju_status r = ''queued'') (t_jobs T)))))"

definition sql_claim :: "pg_env \<Rightarrow> int \<Rightarrow> (string \<times> string) list stmt" where
  "sql_claim E lmt now n T =
     (if lmt < 0 then Inl (Foreign ''LIMIT must not be negative'')
      else let cte = map ju_id (claim_rows E n lmt T)
        in Inr (map (\<lambda>r. (ju_id r, ju_pair r)) (sort_key (\<lambda>r. env_scan E n (ju_id r))
                  (filter (\<lambda>r. ju_id r \<in> set cte) (t_jobs T))),
             T\<lparr>t_jobs := map (\<lambda>r. if ju_id r \<in> set cte then r\<lparr>ju_status := ''processing''\<rparr> else r)
                (t_jobs T)\<rparr>))"

text \<open>\<open>SELECT pair, price::float8, updated_at FROM quotes WHERE pair=$1\<close>\<close>

definition sql_get_quote :: "string \<Rightarrow> (string \<times> go_float \<times> int) option stmt" where
  "sql_get_quote p now n T =
     (case filter (\<lambda>r. qu_pair r = p) (t_quotes T) of
        [] \<Rightarrow> Inr (None, T)
      | r # _ \<Rightarrow> Inr (Some (qu_pair r, numeric_float8 (qu_price r), qu_updated r), T))"

text \<open>The upsert of a quote.\<close>

definition sql_upsert_quote :: "pg_env \<Rightarrow> string \<Rightarrow> go_float \<Rightarrow> int \<Rightarrow> nat stmt" where
  "sql_upsert_quote E p x t now n T =
     (case numeric_param E x of
        Inl e \<Rightarrow> Inl e
      | Inr v \<Rightarrow> Inr (1, T\<lparr>t_quotes :=
          (if p \<in> qu_pair ` set (t_quotes T)
           then map (\<lambda>r. if qu_pair r = p then r\<lparr>qu_price := v, qu_updated := env_micros E t\<rparr> else r) (t_quotes T)
           else t_quotes T @ [\<lparr>qu_pair = p, qu_price = v, qu_updated = env_micros E t\<rparr>])\<rparr>))"

text \<open>The history insert, which a row with the same pair, instant and source suppresses.\<close>

definition sql_insert_history ::
  "pg_env \<Rightarrow> string \<Rightarrow> go_float \<Rightarrow> int \<Rightarrow> string \<Rightarrow> string option \<Rightarrow> nat stmt" where
  "sql_insert_history E p x t src upd now n T =
     (if upd \<noteq> None \<and> uuid_param E (the upd) = None then Inl (Foreign ''cannot parse UUID'')
      else case numeric_param E x of
        Inl e \<Rightarrow> Inl e
      | Inr v \<Rightarrow>
          let u = map_option (uuid_key E) upd in
            if (p, env_micros E t, src) \<in> hist_key ` set (t_hist T) then Inr (0, T)
            else if u \<noteq> None \<and> the u \<notin> ju_id ` set (t_jobs T)
            then Inl (Foreign ''violates foreign key constraint'')
            else Inr (1, T\<lparr>t_hist := t_hist T @
              [\<lparr>hi_pair = p, hi_price = v, hi_quoted = env_micros E t, hi_source = src,
                hi_update = u, hi_inserted = now div 1000\<rparr>]\<rparr>))"

subsection \<open>Statements keep the constraints\<close>

text \<open>A statement that succeeds leaves tables that satisfy the schema.\<close>

definition stmt_ok :: "'r stmt \<Rightarrow> bool" where
  "stmt_ok st \<longleftrightarrow> (\<forall>now n T r T'. tables_ok T \<longrightarrow> st now n T = Inr (r, T') \<longrightarrow> tables_ok T')"

named_theorems stmt_intros \<open>statements that keep the schema's constraints\<close>

lemma numeric_param_fits: "numeric_param E x = Inr v \<Longrightarrow> numeric_fits v \<and> v = to_numeric E x"
  by (auto simp: numeric_param_def split: if_splits)

lemma map_key_update:
  "(\<And>r. f r = f (g r)) \<Longrightarrow> map f (map (\<lambda>r. if P r then g r else r) rs) = map f rs"
  by (induction rs) auto

lemma map_key_update_set:
  assumes "\<And>r. f r = f (g r)"
  shows "f ` (\<lambda>r. if P r then g r else r) ` set rs = f ` set rs"
  using map_key_update [of f g P rs] assms by (metis list.set_map)

lemma jobs_update_ok:
  assumes ok: "tables_ok T" and id: "\<And>r. ju_id (g r) = ju_id r"
    and row: "\<And>r. job_row_ok r \<Longrightarrow> job_row_ok (g r)"
  shows "tables_ok (T\<lparr>t_jobs := map (\<lambda>r. if P r then g r else r) (t_jobs T)\<rparr>)"
proof -
  let ?js = "map (\<lambda>r. if P r then g r else r) (t_jobs T)"
  have ids: "map ju_id ?js = map ju_id (t_jobs T)" by (rule map_key_update) (simp add: id)
  then have "ju_id ` set ?js = ju_id ` set (t_jobs T)" by (metis list.set_map)
  moreover have "list_all job_row_ok ?js" using ok row by (auto simp: tables_ok_def list_all_iff)
  ultimately show ?thesis using ok ids unfolding tables_ok_def by (simp del: map_map list.set_map)
qed

lemma insert_job_stmt_ok [stmt_intros]: "stmt_ok (sql_insert_job E i p)"
  by (auto simp: stmt_ok_def sql_insert_job_def tables_ok_def job_row_ok_def list_all_iff
      update_exists_def dest: uuid_param_canonical split: option.splits if_splits)

lemma get_job_stmt_ok [stmt_intros]: "stmt_ok (sql_get_job E i)"
  by (auto simp: stmt_ok_def sql_get_job_def split: option.splits list.splits)

lemma update_status_stmt_ok [stmt_intros]: "stmt_ok (sql_update_status E i st err)"
  unfolding stmt_ok_def sql_update_status_def
  by (auto split: option.splits if_splits intro!: jobs_update_ok
      simp: status_row_def job_row_ok_def)

lemma claim_stmt_ok [stmt_intros]: "stmt_ok (sql_claim E lmt)"
  unfolding stmt_ok_def sql_claim_def Let_def
  by (auto split: if_splits intro!: jobs_update_ok simp: job_row_ok_def)

lemma get_quote_stmt_ok [stmt_intros]: "stmt_ok (sql_get_quote p)"
  by (auto simp: stmt_ok_def sql_get_quote_def split: list.splits)

lemma upsert_quote_stmt_ok [stmt_intros]: "stmt_ok (sql_upsert_quote E p x t)"
  unfolding stmt_ok_def
proof (intro allI impI)
  fix now n T r T' assume ok: "tables_ok T" and st: "sql_upsert_quote E p x t now n T = Inr (r, T')"
  then obtain v where v: "numeric_param E x = Inr v"
    by (auto simp: sql_upsert_quote_def split: sum.splits)
  have "map qu_pair (map (\<lambda>r. if qu_pair r = p then r\<lparr>qu_price := v, qu_updated := env_micros E t\<rparr> else r)
      (t_quotes T)) = map qu_pair (t_quotes T)" by (rule map_key_update) simp
  then have d: "distinct (map qu_pair (map (\<lambda>r. if qu_pair r = p
      then r\<lparr>qu_price := v, qu_updated := env_micros E t\<rparr> else r) (t_quotes T)))"
    using ok by (simp only: tables_ok_def)
  from ok st v numeric_param_fits [OF v] show "tables_ok T'"
  proof (cases "p \<in> qu_pair ` set (t_quotes T)")
    case True
    with ok st v numeric_param_fits [OF v] d show ?thesis
      by (auto simp: sql_upsert_quote_def tables_ok_def list_all_iff simp del: map_map)
  next
    case False
    with ok st v numeric_param_fits [OF v] show ?thesis
      by (auto simp: sql_upsert_quote_def tables_ok_def list_all_iff)
  qed
qed

lemma insert_history_stmt_ok [stmt_intros]: "stmt_ok (sql_insert_history E p x t src upd)"
  unfolding stmt_ok_def sql_insert_history_def Let_def
  by (auto split: sum.splits if_splits option.splits dest!: numeric_param_fits
      simp: tables_ok_def list_all_iff hist_key_def update_exists_def)

subsection \<open>What the statements do to the callers' view\<close>

definition job_of_row :: "job_row \<Rightarrow> job_view" where
  "job_of_row r = \<lparr>jv_pair = ju_pair r, jv_status = status_of_text (ju_status r), jv_error = ju_error r\<rparr>"

definition jobs_of :: "tables \<Rightarrow> job_map" where
  "jobs_of T = map_of (map (\<lambda>r. (ju_id r, job_of_row r)) (t_jobs T))"

definition quotes_of :: "tables \<Rightarrow> string \<rightharpoonup> numeric \<times> int" where
  "quotes_of T = map_of (map (\<lambda>r. (qu_pair r, (qu_price r, qu_updated r))) (t_quotes T))"

text \<open>The history without the instants of insertion.\<close>

type_synonym hist_view = "(string \<times> numeric \<times> int \<times> string \<times> string option) set"

definition hist_of_row :: "hist_row \<Rightarrow> string \<times> numeric \<times> int \<times> string \<times> string option" where
  "hist_of_row h = (hi_pair h, hi_price h, hi_quoted h, hi_source h, hi_update h)"

definition hist_of :: "tables \<Rightarrow> hist_view" where
  "hist_of T = hist_of_row ` set (t_hist T)"

text \<open>What appending does: nothing when the pair, the instant and the source are there already.\<close>

definition add_history :: "pg_env \<Rightarrow> QuoteHistory \<Rightarrow> hist_view \<Rightarrow> hist_view" where
  "add_history E h H =
     (if \<exists>x \<in> H. case x of (p, v, t, src, u) \<Rightarrow>
           p = H_Pair h \<and> t = env_micros E (H_QuotedAt h) \<and> src = H_Source h
      then H
      else insert (H_Pair h, to_numeric E (H_Price h), env_micros E (H_QuotedAt h), H_Source h,
             map_option (uuid_key E) (H_UpdateID h)) H)"

lemma map_of_row_update:
  assumes "\<And>r. k (g r) = k r"
  shows "map_of (map (\<lambda>r. (k r, v r)) (map (\<lambda>r. if k r \<in> A then g r else r) rs)) i =
    (if i \<in> A then map_of (map (\<lambda>r. (k r, v (g r))) rs) i else map_of (map (\<lambda>r. (k r, v r)) rs) i)"
  using assms by (induction rs) auto

lemma map_of_filter_hd:
  "map_of (map (\<lambda>r. (k r, v r)) rs) i =
    (case filter (\<lambda>r. k r = i) rs of [] \<Rightarrow> None | r # _ \<Rightarrow> Some (v r))"
  by (induction rs) auto

lemma map_of_append_fresh:
  "x \<notin> k ` set rs \<Longrightarrow> map_of (map (\<lambda>r. (k r, v r)) (rs @ [r])) =
    (map_of (map (\<lambda>r. (k r, v r)) rs))(k r \<mapsto> v r)" if "k r = x" for x
  using that by (induction rs) (auto simp: fun_eq_iff)

lemma jobs_of_frame [simp]: "jobs_of (T\<lparr>t_quotes := a\<rparr>) = jobs_of T" "jobs_of (T\<lparr>t_hist := b\<rparr>) = jobs_of T"
  by (simp_all add: jobs_of_def)

lemma quotes_of_frame [simp]: "quotes_of (T\<lparr>t_jobs := a\<rparr>) = quotes_of T" "quotes_of (T\<lparr>t_hist := b\<rparr>) = quotes_of T"
  by (simp_all add: quotes_of_def)

lemma hist_of_frame [simp]: "hist_of (T\<lparr>t_quotes := a\<rparr>) = hist_of T" "hist_of (T\<lparr>t_jobs := b\<rparr>) = hist_of T"
  by (simp_all add: hist_of_def)

lemma jobs_of_eq: "jobs_of T i = map_option job_of_row
    (case filter (\<lambda>r. ju_id r = i) (t_jobs T) of [] \<Rightarrow> None | r # _ \<Rightarrow> Some r)"
  by (simp add: jobs_of_def map_of_filter_hd split: list.splits)

lemma jobs_of_row:
  assumes "tables_ok T" and "r \<in> set (t_jobs T)"
  shows "jobs_of T (ju_id r) = Some (job_of_row r)"
  unfolding jobs_of_def using assms
  by (intro map_of_is_SomeI) (auto simp: tables_ok_def comp_def)

lemma insert_job_jobs:
  assumes "sql_insert_job E i p now n T = Inr (r, T')"
  shows "jobs_of T' = (jobs_of T)(uuid_key E i \<mapsto> \<lparr>jv_pair = p, jv_status = Queued, jv_error = None\<rparr>)"
    and "jobs_of T (uuid_key E i) = None" and "quotes_of T' = quotes_of T" and "hist_of T' = hist_of T"
  using assms
  by (auto simp: sql_insert_job_def jobs_of_def map_of_append_fresh job_of_row_def
      map_of_eq_None_iff image_image simp del: map_append split: option.splits if_splits)

lemma update_status_jobs:
  assumes "sql_update_status E i (status_text st) err now n T = Inr (r, T')" and "known_status st"
  shows "jobs_of T' = set_job (uuid_key E i) st err (jobs_of T)"
    and "quotes_of T' = quotes_of T" and "hist_of T' = hist_of T" and "r = 0 \<longleftrightarrow> uuid_key E i \<notin> dom (jobs_of T)"
proof -
  let ?x = "uuid_key E i" and ?g = "status_row (status_text st) err now"
  from assms have T': "T' = T\<lparr>t_jobs := map (\<lambda>r. if ju_id r \<in> {?x} then ?g r else r) (t_jobs T)\<rparr>"
    and r: "r = length (filter (\<lambda>r. ju_id r = ?x) (t_jobs T))"
    by (auto simp: sql_update_status_def split: option.splits if_splits)
  show "jobs_of T' = set_job ?x st err (jobs_of T)"
  proof
    fix k
    have "jobs_of T' k = (if k \<in> {?x} then map_of (map (\<lambda>r. (ju_id r, job_of_row (?g r))) (t_jobs T)) k
        else jobs_of T k)"
      using map_of_row_update [where k = ju_id and g = ?g and v = job_of_row and A = "{?x}"]
      by (simp add: T' jobs_of_def status_row_def del: map_map)
    also have "\<dots> = set_job ?x st err (jobs_of T) k"
      using assms(2) by (auto simp: jobs_of_def map_of_filter_hd set_job_def job_of_row_def status_row_def
          split: list.splits option.splits)
    finally show "jobs_of T' k = set_job ?x st err (jobs_of T) k" .
  qed
  show "quotes_of T' = quotes_of T" by (simp add: T')
  show "hist_of T' = hist_of T" by (simp add: T')
  show "r = 0 \<longleftrightarrow> ?x \<notin> dom (jobs_of T)"
    by (auto simp: r jobs_of_eq filter_empty_conv split: list.splits)
qed

lemma set_claim_rows:
  "r \<in> set (claim_rows E n lmt T) \<Longrightarrow> r \<in> set (t_jobs T) \<and> ju_status r = ''queued'' \<and> ju_id r \<notin> set (env_locked E n)"
  by (auto simp: claim_rows_def dest: in_set_takeD)

lemma claim_ids:
  assumes "sql_claim E lmt now n T = Inr (xs, T')"
  shows "fst ` set xs = ju_id ` set (claim_rows E n lmt T)"
    and "T' = T\<lparr>t_jobs := map (\<lambda>r. if ju_id r \<in> fst ` set xs then r\<lparr>ju_status := ''processing''\<rparr> else r)
           (t_jobs T)\<rparr>"
proof -
  let ?ids = "set (map ju_id (claim_rows E n lmt T))"
  have "?ids \<subseteq> ju_id ` set (t_jobs T)" using set_claim_rows by fastforce
  then have "ju_id ` {r \<in> set (t_jobs T). ju_id r \<in> ?ids} = ?ids" by blast
  moreover have "fst ` set xs = ju_id ` {r \<in> set (t_jobs T). ju_id r \<in> ?ids}"
  proof -
    have "xs = map (\<lambda>r. (ju_id r, ju_pair r)) (sort_key (\<lambda>r. env_scan E n (ju_id r))
        (filter (\<lambda>r. ju_id r \<in> ?ids) (t_jobs T)))"
      using assms by (simp add: sql_claim_def Let_def split: if_splits)
    then show ?thesis by (simp only: list.set_map set_sort set_filter image_image fst_conv)
  qed
  ultimately have ids: "fst ` set xs = ?ids" by simp
  then show "fst ` set xs = ju_id ` set (claim_rows E n lmt T)" by simp
  from assms show "T' = T\<lparr>t_jobs := map (\<lambda>r. if ju_id r \<in> fst ` set xs
      then r\<lparr>ju_status := ''processing''\<rparr> else r) (t_jobs T)\<rparr>"
    unfolding ids by (auto simp: sql_claim_def Let_def split: if_splits)
qed

lemma claim_jobs_of:
  assumes ok: "tables_ok T" and cl: "sql_claim E lmt now n T = Inr (xs, T')"
  shows "distinct (map fst xs)"
    and "(i, p) \<in> set xs \<Longrightarrow> is_canonical_uuid i \<and>
      (\<exists>j. jobs_of T i = Some j \<and> jv_status j = Queued \<and> jv_pair j = p)"
    and "jobs_of T' = claim_jobs (fst ` set xs) (jobs_of T)"
    and "quotes_of T' = quotes_of T"
    and "hist_of T' = hist_of T"
proof -
  let ?ids = "ju_id ` set (claim_rows E n lmt T)"
  have xs: "xs = map (\<lambda>r. (ju_id r, ju_pair r)) (sort_key (\<lambda>r. env_scan E n (ju_id r))
      (filter (\<lambda>r. ju_id r \<in> ?ids) (t_jobs T)))"
    using cl by (auto simp: sql_claim_def Let_def split: if_splits)
  have dist: "distinct (map ju_id (t_jobs T))" using ok by (simp add: tables_ok_def)
  let ?ys = "sort_key (\<lambda>r. env_scan E n (ju_id r)) (filter (\<lambda>r. ju_id r \<in> ?ids) (t_jobs T))"
  have "mset (map ju_id ?ys) = mset (map ju_id (filter (\<lambda>r. ju_id r \<in> ?ids) (t_jobs T)))" by simp
  moreover have "distinct (map ju_id (filter (\<lambda>r. ju_id r \<in> ?ids) (t_jobs T)))"
    using dist by (rule distinct_map_filter)
  ultimately have "distinct (map ju_id ?ys)" by (metis mset_eq_imp_distinct_iff)
  then show "distinct (map fst xs)" by (simp add: xs comp_def)
  show "is_canonical_uuid i \<and> (\<exists>j. jobs_of T i = Some j \<and> jv_status j = Queued \<and> jv_pair j = p)"
    if "(i, p) \<in> set xs"
  proof -
    from that obtain r where r: "r \<in> set (t_jobs T)" "ju_id r \<in> ?ids" "i = ju_id r" "p = ju_pair r"
      by (auto simp: xs)
    then obtain r' where r': "r' \<in> set (claim_rows E n lmt T)" "ju_id r' = ju_id r" by auto
    have "r' = r" using set_claim_rows [OF r'(1)] r r'(2) dist by (auto simp: distinct_map inj_on_def)
    then have "ju_status r = ''queued''" using set_claim_rows [OF r'(1)] by simp
    moreover have "is_canonical_uuid (ju_id r)"
      using ok r(1) by (auto simp: tables_ok_def list_all_iff job_row_ok_def)
    ultimately show ?thesis using jobs_of_row [OF ok r(1)] r by (simp add: job_of_row_def)
  qed
  note T' = claim_ids(2) [OF cl]
  show "quotes_of T' = quotes_of T" by (simp add: T')
  show "hist_of T' = hist_of T" by (simp add: T')
  show "jobs_of T' = claim_jobs (fst ` set xs) (jobs_of T)"
  proof
    fix k
    have "jobs_of T' k = (if k \<in> fst ` set xs
        then map_of (map (\<lambda>r. (ju_id r, job_of_row (r\<lparr>ju_status := ''processing''\<rparr>))) (t_jobs T)) k
        else jobs_of T k)"
      using map_of_row_update [where k = ju_id and g = "\<lambda>r. r\<lparr>ju_status := ''processing''\<rparr>"
          and v = job_of_row and A = "fst ` set xs"]
      by (simp add: T' jobs_of_def del: map_map)
    also have "\<dots> = claim_jobs (fst ` set xs) (jobs_of T) k"
      by (auto simp: jobs_of_def map_of_filter_hd claim_jobs_def job_of_row_def split: list.splits)
    finally show "jobs_of T' k = claim_jobs (fst ` set xs) (jobs_of T) k" .
  qed
qed

lemma upsert_quotes_of:
  assumes "sql_upsert_quote E p x t now n T = Inr (r, T')"
  shows "quotes_of T' = (quotes_of T)(p \<mapsto> (to_numeric E x, env_micros E t))"
    and "jobs_of T' = jobs_of T"
    and "hist_of T' = hist_of T"
proof -
  obtain v where v: "numeric_param E x = Inr v" and
    T': "T' = T\<lparr>t_quotes := (if p \<in> qu_pair ` set (t_quotes T)
           then map (\<lambda>r. if qu_pair r = p then r\<lparr>qu_price := v, qu_updated := env_micros E t\<rparr> else r) (t_quotes T)
           else t_quotes T @ [\<lparr>qu_pair = p, qu_price = v, qu_updated = env_micros E t\<rparr>])\<rparr>"
    using assms by (auto simp: sql_upsert_quote_def split: sum.splits)
  have v': "v = to_numeric E x" using numeric_param_fits [OF v] by simp
  show "jobs_of T' = jobs_of T" by (simp add: T')
  show "hist_of T' = hist_of T" by (simp add: T')
  show "quotes_of T' = (quotes_of T)(p \<mapsto> (to_numeric E x, env_micros E t))"
  proof (cases "p \<in> qu_pair ` set (t_quotes T)")
    case True
    let ?g = "\<lambda>r. r\<lparr>qu_price := v, qu_updated := env_micros E t\<rparr>"
    have "quotes_of T' k = (if k \<in> {p} then map_of (map (\<lambda>r. (qu_pair r, (qu_price (?g r), qu_updated (?g r)))) (t_quotes T)) k
        else quotes_of T k)" for k
      using map_of_row_update [where k = qu_pair and g = ?g
          and v = "\<lambda>r. (qu_price r, qu_updated r)" and A = "{p}" and rs = "t_quotes T" and i = k] True
      by (simp add: T' quotes_of_def del: map_map)
    moreover have "filter (\<lambda>r. qu_pair r = p) (t_quotes T) \<noteq> []"
      using True by (auto simp: filter_empty_conv)
    ultimately show ?thesis
      by (auto simp: fun_eq_iff map_of_filter_hd v' split: list.splits)
  next
    case False
    let ?r = "\<lparr>qu_pair = p, qu_price = v, qu_updated = env_micros E t\<rparr>"
    from False have "quotes_of T' = (quotes_of T)(qu_pair ?r \<mapsto> (qu_price ?r, qu_updated ?r))"
      unfolding T' quotes_of_def
      using map_of_append_fresh [where k = qu_pair and v = "\<lambda>r. (qu_price r, qu_updated r)" and r = ?r
          and rs = "t_quotes T"] by simp
    then show ?thesis by (simp add: v')
  qed
qed

lemma hist_key_seen:
  "(p, t, src) \<in> hist_key ` set (t_hist T) \<longleftrightarrow>
     (\<exists>x \<in> hist_of T. case x of (p', v, t', src', u) \<Rightarrow> p' = p \<and> t' = t \<and> src' = src)"
  by (auto simp: hist_of_def hist_of_row_def hist_key_def)

lemma insert_history_view:
  assumes "sql_insert_history E p x t src upd now n T = Inr (r, T')"
  shows "jobs_of T' = jobs_of T" and "quotes_of T' = quotes_of T"
    and "hist_of T' = add_history E \<lparr>H_Pair = p, H_Price = x, H_QuotedAt = t, H_Source = src, H_UpdateID = upd\<rparr>
      (hist_of T)"
proof -
  show "jobs_of T' = jobs_of T" and "quotes_of T' = quotes_of T"
    using assms by (auto simp: sql_insert_history_def Let_def split: sum.splits if_splits)
  show "hist_of T' = add_history E \<lparr>H_Pair = p, H_Price = x, H_QuotedAt = t, H_Source = src, H_UpdateID = upd\<rparr>
      (hist_of T)"
  proof (cases "(p, env_micros E t, src) \<in> hist_key ` set (t_hist T)")
    case True
    then have "T' = T" using assms
      by (auto simp: sql_insert_history_def Let_def split: sum.splits if_splits)
    with True show ?thesis by (simp add: add_history_def hist_key_seen)
  next
    case False
    then have "hist_of T' = insert (p, to_numeric E x, env_micros E t, src, map_option (uuid_key E) upd) (hist_of T)"
      using assms
      by (auto simp: sql_insert_history_def Let_def hist_of_def hist_of_row_def
          split: sum.splits if_splits dest!: numeric_param_fits)
    with False show ?thesis by (simp add: add_history_def hist_key_seen)
  qed
qed

lemma filter_hd: "filter (\<lambda>r. k r = i) rs = x # xs \<Longrightarrow> k x = i"
  by (auto simp: filter_eq_Cons_iff)

lemma get_job_view:
  assumes "sql_get_job E i now n T = Inr (r, T')"
  shows "T' = T"
    and "r = None \<longleftrightarrow> uuid_key E i \<notin> dom (jobs_of T)"
    and "r = Some x \<Longrightarrow> jr_id x = uuid_key E i \<and> jobs_of T (jr_id x) =
      Some \<lparr>jv_pair = jr_pair x, jv_status = status_of_text (jr_status x), jv_error = jr_error x\<rparr>"
proof -
  note hd = filter_hd [where k = ju_id]
  show "T' = T" and "r = None \<longleftrightarrow> uuid_key E i \<notin> dom (jobs_of T)"
    using assms by (auto simp: sql_get_job_def jobs_of_eq split: option.splits list.splits)
  show "jr_id x = uuid_key E i \<and> jobs_of T (jr_id x) =
      Some \<lparr>jv_pair = jr_pair x, jv_status = status_of_text (jr_status x), jv_error = jr_error x\<rparr>"
    if "r = Some x"
  proof -
    from assms that obtain k y ys where k: "uuid_param E i = Some k"
      and f: "filter (\<lambda>r. ju_id r = k) (t_jobs T) = y # ys"
      and x: "x = job_result_of y (job_history E n T k)"
      by (auto simp: sql_get_job_def split: option.splits list.splits)
    have "ju_id y = k" by (rule hd [OF f])
    with k f x show ?thesis by (simp add: jobs_of_eq job_result_of_def job_of_row_def)
  qed
qed

lemma get_quote_view:
  assumes "sql_get_quote p now n T = Inr (r, T')"
  shows "T' = T"
    and "r = (case quotes_of T p of None \<Rightarrow> None | Some (v, t) \<Rightarrow> Some (p, numeric_float8 v, t))"
proof -
  note hd = filter_hd [where k = qu_pair]
  show "T' = T" and "r = (case quotes_of T p of None \<Rightarrow> None
      | Some (v, t) \<Rightarrow> Some (p, numeric_float8 v, t))"
    using assms
    by (auto simp: sql_get_quote_def quotes_of_def map_of_filter_hd dest: hd split: option.splits list.splits)
qed

subsection \<open>Which jobs a claim takes\<close>

definition claimable :: "pg_env \<Rightarrow> nat \<Rightarrow> tables \<Rightarrow> job_row list" where
  "claimable E n T = filter (\<lambda>r. ju_status r = ''queued'' \<and> ju_id r \<notin> set (env_locked E n)) (t_jobs T)"

definition claim_queue :: "pg_env \<Rightarrow> nat \<Rightarrow> tables \<Rightarrow> job_row list" where
  "claim_queue E n T = filter (\<lambda>r. ju_id r \<notin> set (env_locked E n))
       (sort_key ju_requested (sort_key (\<lambda>r. env_scan E n (ju_id r))
         (filter (\<lambda>r. ju_status r = ''queued'') (t_jobs T))))"

lemma claim_rows_queue: "claim_rows E n lmt T = take (nat lmt) (claim_queue E n T)"
  by (simp add: claim_rows_def claim_queue_def)

lemma mset_claim_queue: "mset (claim_queue E n T) = mset (claimable E n T)"
  by (simp add: claim_queue_def claimable_def filter_filter_mset conj_commute)

lemma sorted_claim_queue: "sorted (map ju_requested (claim_queue E n T))"
  unfolding claim_queue_def by (intro sorted_filter) simp

lemma distinct_claim_queue:
  assumes "tables_ok T"
  shows "distinct (map ju_id (claim_queue E n T))"
proof -
  have "distinct (map ju_id (claimable E n T))"
    unfolding claimable_def using assms by (intro distinct_map_filter) (simp add: tables_ok_def)
  moreover have "mset (map ju_id (claim_queue E n T)) = mset (map ju_id (claimable E n T))"
    by (simp add: mset_claim_queue)
  ultimately show ?thesis by (metis mset_eq_imp_distinct_iff)
qed

lemma take_sorted_le:
  assumes "sorted (map f xs)" and "x \<in> set (take k xs)" and "y \<in> set (drop k xs)"
  shows "f x \<le> f y"
proof -
  have "sorted (map f (take k xs @ drop k xs))" using assms(1) by simp
  then have "sorted (map f (take k xs) @ map f (drop k xs))" by (simp only: map_append)
  with assms(2,3) show ?thesis by (auto simp: sorted_append)
qed

text \<open>How many rows a claim takes, and from where.\<close>

lemma claim_taken:
  assumes cl: "sql_claim E lmt now n T = Inr (xs, T')"
  shows "fst ` set xs = ju_id ` set (take (nat lmt) (claim_queue E n T))"
  using claim_ids(1) [OF cl] by (simp add: claim_rows_queue)

lemma claim_count:
  assumes ok: "tables_ok T" and cl: "sql_claim E lmt now n T = Inr (xs, T')"
  shows "length xs = min (nat lmt) (length (claimable E n T))"
    and "fst ` set xs \<subseteq> ju_id ` set (claimable E n T)"
proof -
  let ?q = "claim_queue E n T"
  have "length xs = card (fst ` set xs)"
    using distinct_card [OF claim_jobs_of(1) [OF ok cl]] by simp
  also have "\<dots> = card (set (map ju_id (take (nat lmt) ?q)))" by (simp add: claim_taken [OF cl])
  also have "\<dots> = length (take (nat lmt) ?q)"
    using distinct_card [of "map ju_id (take (nat lmt) ?q)"] distinct_claim_queue [OF ok, of E n]
    by (simp add: take_map [symmetric])
  finally show "length xs = min (nat lmt) (length (claimable E n T))"
    using mset_eq_length [OF mset_claim_queue [of E n T]] by simp
  have "set ?q = set (claimable E n T)" by (metis mset_claim_queue mset_eq_setD)
  then show "fst ` set xs \<subseteq> ju_id ` set (claimable E n T)"
    unfolding claim_taken [OF cl] by (auto dest: in_set_takeD)
qed

text \<open>
  C31: The claim takes queued rows that no other session has locked, as many as there are up
  to the limit, and the oldest ones: a row it takes was requested no later than any such row it
  leaves. (A negative limit is an error of the server, and nothing is claimed.)
\<close>

theorem claim_oldest_first:
  assumes ok: "tables_ok T" and cl: "sql_claim E lmt now n T = Inr (xs, T')"
  shows "length xs = min (nat lmt) (length (claimable E n T)) \<and>
    fst ` set xs \<subseteq> ju_id ` set (claimable E n T) \<and>
    (\<forall>r \<in> set (claimable E n T). \<forall>r' \<in> set (claimable E n T).
       ju_id r \<in> fst ` set xs \<longrightarrow> ju_id r' \<notin> fst ` set xs \<longrightarrow> ju_requested r \<le> ju_requested r')"
proof (intro conjI ballI impI claim_count [OF ok cl])
  let ?q = "claim_queue E n T"
  have set_q: "set ?q = set (claimable E n T)" by (metis mset_claim_queue mset_eq_setD)
  note ids = claim_taken [OF cl]
  note dist = distinct_claim_queue [OF ok, of E n]
  fix r r' assume "r \<in> set (claimable E n T)" "r' \<in> set (claimable E n T)"
    and "ju_id r \<in> fst ` set xs" "ju_id r' \<notin> fst ` set xs"
  then have q: "r \<in> set ?q" "r' \<in> set ?q" and out: "r' \<notin> set (take (nat lmt) ?q)"
    and inx: "ju_id r \<in> ju_id ` set (take (nat lmt) ?q)"
    by (auto simp: set_q ids)
  from inx obtain x where "x \<in> set (take (nat lmt) ?q)" "ju_id x = ju_id r" by auto
  moreover from this q(1) dist have "x = r"
    by (auto simp: distinct_map inj_on_def dest: in_set_takeD)
  ultimately have "r \<in> set (take (nat lmt) ?q)" by simp
  moreover have "r' \<in> set (drop (nat lmt) ?q)"
    using q(2) out by (metis Un_iff append_take_drop_id set_append)
  ultimately show "ju_requested r \<le> ju_requested r'"
    by (rule take_sorted_le [OF sorted_claim_queue])
qed

definition demo_env :: pg_env where
  "demo_env = \<lparr>env_now = (\<lambda>n. int n * 1000), env_answer = (\<lambda>n. Carried), env_uuid = (\<lambda>n k. n + k),
     env_uuid_of = (\<lambda>s. s), env_decimal = (\<lambda>r. r), env_micros = (\<lambda>t. t div 1000),
     env_scan = (\<lambda>n s. 0), env_locked = (\<lambda>n. [])\<rparr>"

definition demo_job :: "nat \<Rightarrow> int \<Rightarrow> job_row" where
  "demo_job k t = \<lparr>ju_id = uuid_text (\<lambda>i. k), ju_pair = ''USD/EUR'', ju_status = ''queued'',
     ju_error = None, ju_requested = t, ju_completed = None\<rparr>"

lemma claim_oldest_first_witness:
  "let T = \<lparr>t_quotes = [], t_jobs = [demo_job 1 7, demo_job 2 5, demo_job 3 6], t_hist = []\<rparr> in
   map snd (fst (projr (sql_claim demo_env 2 0 0 T))) = [''USD/EUR'', ''USD/EUR''] \<and>
   (\<forall>r \<in> set (claimable demo_env 0 T). \<forall>r' \<in> set (claimable demo_env 0 T).
      ju_id r \<in> fst ` set (fst (projr (sql_claim demo_env 2 0 0 T))) \<longrightarrow>
      ju_id r' \<notin> fst ` set (fst (projr (sql_claim demo_env 2 0 0 T))) \<longrightarrow> ju_requested r \<le> ju_requested r')"
proof -
  let ?T = "\<lparr>t_quotes = [], t_jobs = [demo_job 1 7, demo_job 2 5, demo_job 3 6], t_hist = []\<rparr>"
  have ok: "tables_ok ?T" by code_simp
  have two: "map snd (fst (projr (sql_claim demo_env 2 0 0 ?T))) = [''USD/EUR'', ''USD/EUR'']" by code_simp
  have cl: "sql_claim demo_env 2 0 0 ?T =
      Inr (fst (projr (sql_claim demo_env 2 0 0 ?T)), snd (projr (sql_claim demo_env 2 0 0 ?T)))"
    by (simp add: sql_claim_def Let_def)
  show ?thesis unfolding Let_def using two claim_oldest_first [OF ok cl] by blast
qed

end
