(* ===== verification/Pg_Store.thy ===== *)
theory Pg_Store
  imports Pg_Tables Service
begin

section \<open>The PostgreSQL repositories and the unit of work\<close>

text \<open>
  \<^verbatim>\<open>internal/infrastructure/pg\<close>: the repositories over a connection pool or a transaction
  taken from the context, and \<open>UnitOfWork.Do\<close>. Every round trip to the server takes a
  number, and the environment says for each number whether the server carried it out, refused
  it, or carried it out and lost the answer. The interpretations at the end show that the
  repositories and the unit of work keep the contracts of the application layer in every
  environment.
\<close>

subsection \<open>The database as a client sees it\<close>

text \<open>
  \<open>rest\<close> is the state of everything else the process talks to (Redis, HTTP servers).
  A transaction has its own copy of the tables; an error inside it aborts it.
\<close>

record pg_tx =
  tx_start :: int
  tx_tables :: tables
  tx_aborted :: bool

record 'z world =
  ticks :: nat
  committed :: tables
  txs :: "nat \<Rightarrow> pg_tx option"
  next_tx :: nat
  rest :: 'z

definition world_init :: "'z \<Rightarrow> 'z world" where
  "world_init z = \<lparr>ticks = 0, committed = empty_tables, txs = (\<lambda>_. None), next_tx = 0, rest = z\<rparr>"

definition pg_view :: "ctx \<Rightarrow> 'z world \<Rightarrow> tables" where
  "pg_view c w = (case ctx_tx c of
     None \<Rightarrow> committed w
   | Some k \<Rightarrow> (case txs w k of None \<Rightarrow> committed w | Some t \<Rightarrow> tx_tables t))"

definition world_ok :: "ctx \<Rightarrow> 'z world \<Rightarrow> bool" where
  "world_ok c w \<longleftrightarrow> tables_ok (committed w) \<and> (\<forall>k t. txs w k = Some t \<longrightarrow> tables_ok (tx_tables t))"

definition pg_jobs :: "ctx \<Rightarrow> 'z world \<Rightarrow> job_map" where
  "pg_jobs c w = jobs_of (pg_view c w)"

definition pg_quotes :: "ctx \<Rightarrow> 'z world \<Rightarrow> string \<rightharpoonup> numeric \<times> int" where
  "pg_quotes c w = quotes_of (pg_view c w)"

definition pg_history :: "ctx \<Rightarrow> 'z world \<Rightarrow> hist_view" where
  "pg_history c w = hist_of (pg_view c w)"

lemma world_ok_init [simp]: "world_ok c (world_init z)"
  by (simp add: world_ok_def world_init_def)

lemma world_ok_view: "world_ok c w \<Longrightarrow> tables_ok (pg_view c' w)"
  by (auto simp: world_ok_def pg_view_def split: option.splits)

subsection \<open>Statements on the wire\<close>

datatype execer = ExecPool | ExecTx nat

text \<open>\<open>txFromCtx\<close> and the repositories' \<open>exec\<close>.\<close>

definition txFromCtx :: "ctx \<Rightarrow> nat option" where
  "txFromCtx c = ctx_tx c"

definition repo_exec :: "ctx \<Rightarrow> execer" where
  "repo_exec c = (case txFromCtx c of Some k \<Rightarrow> ExecTx k | None \<Rightarrow> ExecPool)"

definition tick :: "'z world \<Rightarrow> 'z world" where
  "tick w = w\<lparr>ticks := Suc (ticks w)\<rparr>"

definition set_tx :: "nat \<Rightarrow> pg_tx option \<Rightarrow> 'z world \<Rightarrow> 'z world" where
  "set_tx k t w = w\<lparr>txs := (txs w)(k := t)\<rparr>"

definition run_pool :: "pg_env \<Rightarrow> ctx \<Rightarrow> 'r stmt \<Rightarrow> ('z world, 'r) io" where
  "run_pool E c st w =
     (let n = ticks w; now = env_now E n; w1 = tick w in
      case ctx_err c now of
        Some e \<Rightarrow> (Err e, w1)
      | None \<Rightarrow> (case env_answer E n of
          Refused m \<Rightarrow> (Err (Foreign m), w1)
        | Carried \<Rightarrow> (case st now n (committed w) of
            Inl e \<Rightarrow> (Err e, w1)
          | Inr (r, T) \<Rightarrow> (Ok r, w1\<lparr>committed := T\<rparr>))
        | Lost m \<Rightarrow> (case st now n (committed w) of
            Inl e \<Rightarrow> (Err (Foreign m), w1)
          | Inr (r, T) \<Rightarrow> (Err (Foreign m), w1\<lparr>committed := T\<rparr>))))"

definition run_tx :: "pg_env \<Rightarrow> ctx \<Rightarrow> nat \<Rightarrow> 'r stmt \<Rightarrow> ('z world, 'r) io" where
  "run_tx E c k st w =
     (let n = ticks w; now = env_now E n; w1 = tick w in
      case txs w k of
        None \<Rightarrow> (Err (Foreign ''tx is closed''), w1)
      | Some t \<Rightarrow>
          let aborted = set_tx k (Some (t\<lparr>tx_aborted := True\<rparr>)) w1 in
          if tx_aborted t then (Err (Foreign ''current transaction is aborted''), w1)
          else (case ctx_err c now of
            Some e \<Rightarrow> (Err e, aborted)
          | None \<Rightarrow> (case env_answer E n of
              Carried \<Rightarrow> (case st (tx_start t) n (tx_tables t) of
                Inl e \<Rightarrow> (Err e, aborted)
              | Inr (r, T) \<Rightarrow> (Ok r, set_tx k (Some (t\<lparr>tx_tables := T\<rparr>)) w1))
            | Refused m \<Rightarrow> (Err (Foreign m), aborted)
            | Lost m \<Rightarrow> (Err (Foreign m), aborted))))"

definition pg_run :: "pg_env \<Rightarrow> ctx \<Rightarrow> 'r stmt \<Rightarrow> ('z world, 'r) io" where
  "pg_run E c st = (case repo_exec c of ExecPool \<Rightarrow> run_pool E c st | ExecTx k \<Rightarrow> run_tx E c k st)"

subsection \<open>The repositories\<close>

definition pg_CreateQueued :: "pg_env \<Rightarrow> ctx \<Rightarrow> string \<Rightarrow> string option \<Rightarrow> ('z world, string) io" where
  "pg_CreateQueued E c pair idem = (\<lambda>w.
     let i = uuid_text (env_uuid E (ticks w)) in
     io_bind (pg_run E c (sql_insert_job E i pair)) (\<lambda>_. io_return i) w)"

definition job_of_result :: "job_result \<Rightarrow> QuoteUpdate" where
  "job_of_result x = \<lparr>U_ID = jr_id x, U_Pair = jr_pair x, U_Status = status_of_text (jr_status x),
     U_Error = jr_error x, U_Price = jr_price x, U_UpdatedAt = jr_updated x * 1000\<rparr>"

definition pg_GetByID :: "pg_env \<Rightarrow> ctx \<Rightarrow> string \<Rightarrow> ('z world, QuoteUpdate) io" where
  "pg_GetByID E c i =
     io_bind (pg_run E c (sql_get_job E i)) (\<lambda>row. case row of
       None \<Rightarrow> io_fail ErrNotFound
     | Some x \<Rightarrow> io_return (job_of_result x))"

definition pg_UpdateStatus ::
  "pg_env \<Rightarrow> ctx \<Rightarrow> string \<Rightarrow> QuoteUpdateStatus \<Rightarrow> string option \<Rightarrow> ('z world, unit) io" where
  "pg_UpdateStatus E c i st errMsg =
     io_bind (pg_run E c (sql_update_status E i (status_text st) errMsg)) (\<lambda>n.
       if n = 0 then io_fail ErrNotFound else io_return ())"

definition pg_ClaimQueued :: "pg_env \<Rightarrow> ctx \<Rightarrow> int \<Rightarrow> ('z world, (string \<times> string) list) io" where
  "pg_ClaimQueued E c lmt = pg_run E c (sql_claim E lmt)"

definition pg_GetLast :: "pg_env \<Rightarrow> ctx \<Rightarrow> string \<Rightarrow> ('z world, Quote) io" where
  "pg_GetLast E c pair =
     io_bind (pg_run E c (sql_get_quote pair)) (\<lambda>row. case row of
       None \<Rightarrow> io_fail ErrNotFound
     | Some (p, x, t) \<Rightarrow> io_return \<lparr>Q_Pair = p, Q_Price = x, Q_UpdatedAt = t * 1000\<rparr>)"

definition pg_Upsert :: "pg_env \<Rightarrow> ctx \<Rightarrow> Quote \<Rightarrow> ('z world, unit) io" where
  "pg_Upsert E c q =
     io_bind (pg_run E c (sql_upsert_quote E (Q_Pair q) (Q_Price q) (Q_UpdatedAt q))) (\<lambda>_. io_return ())"

definition pg_AppendHistory :: "pg_env \<Rightarrow> ctx \<Rightarrow> QuoteHistory \<Rightarrow> ('z world, unit) io" where
  "pg_AppendHistory E c h =
     io_bind (pg_run E c (sql_insert_history E (H_Pair h) (H_Price h) (H_QuotedAt h) (H_Source h)
       (H_UpdateID h))) (\<lambda>_. io_return ())"

definition pg_job_repo :: "pg_env \<Rightarrow> 'z world UpdateJobRepo" where
  "pg_job_repo E = \<lparr>CreateQueued = pg_CreateQueued E, GetByID = pg_GetByID E,
     UpdateStatus = pg_UpdateStatus E, ClaimQueued = pg_ClaimQueued E\<rparr>"

definition pg_quote_repo :: "pg_env \<Rightarrow> 'z world QuoteRepo" where
  "pg_quote_repo E = \<lparr>GetLast = pg_GetLast E, Upsert = pg_Upsert E, AppendHistory = pg_AppendHistory E\<rparr>"

subsection \<open>The unit of work\<close>

definition pg_begin :: "pg_env \<Rightarrow> ctx \<Rightarrow> ('z world, nat) io" where
  "pg_begin E c w =
     (let n = ticks w; now = env_now E n; w1 = tick w; k = next_tx w in
      case ctx_err c now of
        Some e \<Rightarrow> (Err e, w1)
      | None \<Rightarrow> (case env_answer E n of
          Carried \<Rightarrow> (Ok k, set_tx k (Some \<lparr>tx_start = now, tx_tables = committed w, tx_aborted = False\<rparr>)
                        (w1\<lparr>next_tx := Suc k\<rparr>))
        | Refused m \<Rightarrow> (Err (Foreign m), w1)
        | Lost m \<Rightarrow> (Err (Foreign m), w1)))"

definition pg_commit :: "pg_env \<Rightarrow> ctx \<Rightarrow> nat \<Rightarrow> ('z world, unit) io" where
  "pg_commit E c k w =
     (let n = ticks w; now = env_now E n; w1 = tick w; gone = set_tx k None w1 in
      case txs w k of
        None \<Rightarrow> (Err (Foreign ''tx is closed''), w1)
      | Some t \<Rightarrow>
          (case ctx_err c now of
            Some e \<Rightarrow> (Err e, gone)
          | None \<Rightarrow> (case env_answer E n of
              Refused m \<Rightarrow> (Err (Foreign m), gone)
            | Carried \<Rightarrow>
                if tx_aborted t then (Err (Foreign ''commit unexpectedly resulted in rollback''), gone)
                else (Ok (), gone\<lparr>committed := tx_tables t\<rparr>)
            | Lost m \<Rightarrow>
                if tx_aborted t then (Err (Foreign m), gone)
                else (Err (Foreign m), gone\<lparr>committed := tx_tables t\<rparr>))))"

text \<open>Whatever the answer, the transaction of a rollback is over.\<close>

definition pg_rollback :: "pg_env \<Rightarrow> ctx \<Rightarrow> nat \<Rightarrow> ('z world, unit) io" where
  "pg_rollback E c k w = (Ok (), set_tx k None (tick w))"

definition pg_Do :: "pg_env \<Rightarrow> ctx \<Rightarrow> (ctx \<Rightarrow> ('z world, unit) io) \<Rightarrow> ('z world, unit) io" where
  "pg_Do E c fn =
     io_bind (pg_begin E c) (\<lambda>k.
     io_bind (io_try (fn (c\<lparr>ctx_tx := Some k\<rparr>))) (\<lambda>res. case res of
       Inl e \<Rightarrow> io_bind (pg_rollback E c k) (\<lambda>_. io_fail e)
     | Inr _ \<Rightarrow> pg_commit E c k))"

definition pg_uow :: "pg_env \<Rightarrow> 'z world UnitOfWork" where
  "pg_uow E = \<lparr>Do = pg_Do E\<rparr>"

subsection \<open>What one round trip can do\<close>

lemma tick_simps [simp]:
  "committed (tick w) = committed w" "txs (tick w) = txs w" "next_tx (tick w) = next_tx w"
  "rest (tick w) = rest w" "ticks (tick w) = Suc (ticks w)"
  by (simp_all add: tick_def)

lemma set_tx_simps [simp]:
  "committed (set_tx k t w) = committed w" "txs (set_tx k t w) = (txs w)(k := t)"
  "rest (set_tx k t w) = rest w" "ticks (set_tx k t w) = ticks w" "next_tx (set_tx k t w) = next_tx w"
  by (simp_all add: set_tx_def)

lemma repo_exec_simps [simp]:
  "ctx_tx c = None \<Longrightarrow> repo_exec c = ExecPool" "ctx_tx c = Some k \<Longrightarrow> repo_exec c = ExecTx k"
  by (simp_all add: repo_exec_def txFromCtx_def)

lemma pg_run_cases:
  assumes "pg_run E c st w = (r, w')"
  obtains (ok) a now n where "r = Ok a" and "st now n (pg_view c w) = Inr (a, pg_view c w')"
  | (lost) m now n a where "r = Err (Foreign m)" and "st now n (pg_view c w) = Inr (a, pg_view c w')"
  | (stmt) e now n where "r = Err e" and "st now n (pg_view c w) = Inl e" and "pg_view c w' = pg_view c w"
  | (none) e where "r = Err e" and "e \<noteq> ErrNotFound" and "pg_view c w' = pg_view c w"
proof (cases "ctx_tx c")
  case None
  with assms have "run_pool E c st w = (r, w')" by (simp add: pg_run_def)
  with None show thesis
    by (auto simp: run_pool_def Let_def pg_view_def ctx_err_def
        split: option.splits db_answer.splits sum.splits if_splits prod.splits intro: that)
next
  case (Some k)
  with assms have "run_tx E c k st w = (r, w')" by (simp add: pg_run_def)
  with Some show thesis
    by (auto simp: run_tx_def Let_def pg_view_def ctx_err_def
        split: option.splits db_answer.splits sum.splits if_splits prod.splits intro: that)
qed

lemma pg_run_ok:
  assumes "pg_run E c st w = (Ok a, w')"
  obtains now n where "st now n (pg_view c w) = Inr (a, pg_view c w')"
  using assms by (cases rule: pg_run_cases) auto

lemma pg_run_no_panic [simp]: "pg_run E c st w \<noteq> (Panic x, w')"
  by (auto elim: pg_run_cases)

lemma pg_run_inv [keeps_intros]: "stmt_ok st \<Longrightarrow> io_keeps (world_ok c') (pg_run E c st)"
  unfolding io_keeps_def world_ok_def pg_run_def run_pool_def run_tx_def Let_def stmt_ok_def
  by (auto split: option.splits db_answer.splits sum.splits if_splits prod.splits execer.splits)
    (metis+)

lemma pg_run_tx_frame:
  "ctx_tx c' \<noteq> None \<Longrightarrow> committed (snd (pg_run E c' st w)) = committed w"
  by (auto simp: pg_run_def run_tx_def Let_def split: option.splits db_answer.splits sum.splits prod.splits)

lemma pg_run_tx_keeps:
  assumes "ctx_tx c = None" and "ctx_tx c' \<noteq> None" and "stmt_ok st"
  shows "io_keeps (\<lambda>w. world_ok c w \<and> P (pg_jobs c w) (pg_quotes c w) (pg_history c w)) (pg_run E c' st)"
proof (rule io_keepsI)
  fix w assume w: "world_ok c w \<and> P (pg_jobs c w) (pg_quotes c w) (pg_history c w)"
  then have "world_ok c (snd (pg_run E c' st w))" by (auto intro: io_keepsD [OF pg_run_inv [OF assms(3)]])
  with w pg_run_tx_frame [OF assms(2), of E st w] assms(1)
  show "world_ok c (snd (pg_run E c' st w)) \<and>
      P (pg_jobs c (snd (pg_run E c' st w))) (pg_quotes c (snd (pg_run E c' st w)))
        (pg_history c (snd (pg_run E c' st w)))"
    by (simp add: pg_jobs_def pg_quotes_def pg_history_def pg_view_def)
qed

subsection \<open>The repositories keep the contracts of their ports\<close>

lemma pg_repo_simps [simp]:
  "CreateQueued (pg_job_repo E) = pg_CreateQueued E" "GetByID (pg_job_repo E) = pg_GetByID E"
  "UpdateStatus (pg_job_repo E) = pg_UpdateStatus E" "ClaimQueued (pg_job_repo E) = pg_ClaimQueued E"
  "GetLast (pg_quote_repo E) = pg_GetLast E" "Upsert (pg_quote_repo E) = pg_Upsert E"
  "AppendHistory (pg_quote_repo E) = pg_AppendHistory E" "Do (pg_uow E) = pg_Do E"
  by (simp_all add: pg_job_repo_def pg_quote_repo_def pg_uow_def)

lemma pg_create_inv [keeps_intros]: "io_keeps (world_ok c') (pg_CreateQueued E c p k)"
proof (rule io_keepsI)
  fix w assume "world_ok c' w"
  then show "world_ok c' (snd (pg_CreateQueued E c p k w))"
    unfolding pg_CreateQueued_def Let_def
    by (rule io_keepsD [rotated]) (intro keeps_intros stmt_intros)
qed

lemma pg_keeps [keeps_intros]:
  "io_keeps (world_ok c') (pg_GetByID E c i)"
  "io_keeps (world_ok c') (pg_UpdateStatus E c i st err)"
  "io_keeps (world_ok c') (pg_ClaimQueued E c n)"
  "io_keeps (world_ok c') (pg_GetLast E c p)"
  "io_keeps (world_ok c') (pg_Upsert E c q)"
  "io_keeps (world_ok c') (pg_AppendHistory E c h)"
  unfolding pg_GetByID_def pg_UpdateStatus_def pg_ClaimQueued_def pg_GetLast_def pg_Upsert_def
    pg_AppendHistory_def
  by (intro keeps_intros stmt_intros; auto intro!: keeps_intros split: option.splits)+

lemma pg_tx_keeps:
  assumes "ctx_tx c = None" and "ctx_tx c' \<noteq> None"
  shows "io_keeps (\<lambda>w. world_ok c w \<and> P (pg_jobs c w) (pg_quotes c w) (pg_history c w)) (pg_UpdateStatus E c' i st err)"
    and "io_keeps (\<lambda>w. world_ok c w \<and> P (pg_jobs c w) (pg_quotes c w) (pg_history c w)) (pg_Upsert E c' q)"
    and "io_keeps (\<lambda>w. world_ok c w \<and> P (pg_jobs c w) (pg_quotes c w) (pg_history c w)) (pg_AppendHistory E c' h)"
  unfolding pg_UpdateStatus_def pg_Upsert_def pg_AppendHistory_def
  by (intro keeps_intros pg_run_tx_keeps [OF assms] stmt_intros; auto intro!: keeps_intros)+

lemma pg_update_effect:
  assumes "pg_UpdateStatus E c i st err w = (r, w')" and st: "known_status st"
  obtains (ok) "r = Ok ()" "uuid_key E i \<in> dom (pg_jobs c w)"
      "pg_jobs c w' = set_job (uuid_key E i) st err (pg_jobs c w)" "pg_quotes c w' = pg_quotes c w"
  | (missing) "r = Err ErrNotFound" "uuid_key E i \<notin> dom (pg_jobs c w)"
      "pg_jobs c w' = set_job (uuid_key E i) st err (pg_jobs c w)" "pg_quotes c w' = pg_quotes c w"
  | (err) e where "r = Err e" "pg_jobs c w' = pg_jobs c w \<or>
      pg_jobs c w' = set_job (uuid_key E i) st err (pg_jobs c w)" "pg_quotes c w' = pg_quotes c w"
proof -
  obtain x w1 where run: "pg_run E c (sql_update_status E i (status_text st) err) w = (x, w1)" by fastforce
  from run show thesis
  proof (cases rule: pg_run_cases)
    case (ok n now k)
    note eff = update_status_jobs [OF ok(2) st]
    show thesis
    proof (cases "n = 0")
      case True
      with assms(1) run ok(1) have "r = Err ErrNotFound" "w' = w1"
        by (auto simp: pg_UpdateStatus_def io_simps)
      with eff True show thesis using that(2) by (simp add: pg_jobs_def pg_quotes_def)
    next
      case False
      with assms(1) run ok(1) have "r = Ok ()" "w' = w1"
        by (auto simp: pg_UpdateStatus_def io_simps)
      with eff False show thesis using that(1) by (simp add: pg_jobs_def pg_quotes_def)
    qed
  next
    case (lost m now k n)
    with assms(1) run have "r = Err (Foreign m)" "w' = w1" by (auto simp: pg_UpdateStatus_def io_simps)
    with update_status_jobs [OF lost(2) st] show thesis
      using that(3) by (simp add: pg_jobs_def pg_quotes_def)
  next
    case (stmt e)
    with assms(1) run that(3) show thesis by (auto simp: pg_UpdateStatus_def io_simps pg_jobs_def pg_quotes_def)
  next
    case (none e)
    with assms(1) run that(3) show thesis by (auto simp: pg_UpdateStatus_def io_simps pg_jobs_def pg_quotes_def)
  qed
qed

lemma pg_update_quotes:
  "pg_quotes c (snd (pg_UpdateStatus E c i st err w)) = pg_quotes c w"
  "pg_history c (snd (pg_UpdateStatus E c i st err w)) = pg_history c w"
proof -
  obtain x w1 where run: "pg_run E c (sql_update_status E i (status_text st) err) w = (x, w1)" by fastforce
  moreover have "quotes_of T' = quotes_of T \<and> hist_of T' = hist_of T"
    if "sql_update_status E i s err now n T = Inr (k, T')" for s now n T k T'
    using that by (auto simp: sql_update_status_def split: option.splits if_splits)
  ultimately have "pg_quotes c w1 = pg_quotes c w \<and> pg_history c w1 = pg_history c w"
    by (cases rule: pg_run_cases) (auto simp: pg_quotes_def pg_history_def)
  then show "pg_quotes c (snd (pg_UpdateStatus E c i st err w)) = pg_quotes c w"
    and "pg_history c (snd (pg_UpdateStatus E c i st err w)) = pg_history c w"
    using run by (auto simp: pg_UpdateStatus_def io_simps split: outcome.splits)
qed

lemma pg_claim_effect:
  assumes "pg_ClaimQueued E c lmt w = (r, w')" and ok: "world_ok c w"
  obtains (ok) xs where "r = Ok xs" "distinct (map fst xs)"
      "\<forall>(i, p) \<in> set xs. is_canonical_uuid i \<and>
         (\<exists>j. pg_jobs c w i = Some j \<and> jv_status j = Queued \<and> jv_pair j = p)"
      "pg_jobs c w' = claim_jobs (fst ` set xs) (pg_jobs c w)" "pg_quotes c w' = pg_quotes c w" "pg_history c w' = pg_history c w"
  | (err) e ids where "r = Err e" "\<forall>i \<in> ids. \<exists>j. pg_jobs c w i = Some j \<and> jv_status j = Queued"
      "pg_jobs c w' = claim_jobs ids (pg_jobs c w)" "pg_quotes c w' = pg_quotes c w" "pg_history c w' = pg_history c w"
proof -
  have no_claim: "claim_jobs {} m = m" for m by (simp add: claim_jobs_def)
  from assms(1) have "pg_run E c (sql_claim E lmt) w = (r, w')" by (simp add: pg_ClaimQueued_def)
  then show thesis
  proof (cases rule: pg_run_cases)
    case (ok xs now n)
    note cl = claim_jobs_of [OF world_ok_view [OF assms(2)] ok(2)]
    show thesis by (rule that(1) [OF ok(1) cl(1)]) (use cl in \<open>auto simp: pg_jobs_def pg_quotes_def pg_history_def\<close>)
  next
    case (lost m now n xs)
    note cl = claim_jobs_of [OF world_ok_view [OF assms(2)] lost(2)]
    show thesis
      by (rule that(2) [OF lost(1), of "fst ` set xs"])
        (use cl in \<open>fastforce simp: pg_jobs_def pg_quotes_def pg_history_def\<close>)+
  next
    case (stmt e)
    then show thesis using that(2) [of e "{}"] by (simp add: pg_jobs_def pg_quotes_def pg_history_def no_claim)
  next
    case (none e)
    then show thesis using that(2) [of e "{}"] by (simp add: pg_jobs_def pg_quotes_def pg_history_def no_claim)
  qed
qed

lemma pg_create_effect:
  assumes "pg_CreateQueued E c p k w = (r, w')"
  obtains (ok) i where "r = Ok i" "is_canonical_uuid i" "pg_jobs c w i = None" "pg_quotes c w' = pg_quotes c w"
      "pg_jobs c w' = (pg_jobs c w)(i \<mapsto> \<lparr>jv_pair = p, jv_status = Queued, jv_error = None\<rparr>)"
  | (lost) m i where "r = Err (Foreign m)" "pg_jobs c w i = None" "pg_quotes c w' = pg_quotes c w"
      "pg_jobs c w' = (pg_jobs c w)(i \<mapsto> \<lparr>jv_pair = p, jv_status = Queued, jv_error = None\<rparr>)"
  | (err) e where "r = Err e" "pg_jobs c w' = pg_jobs c w" "pg_quotes c w' = pg_quotes c w"
proof -
  let ?i = "uuid_text (env_uuid E (ticks w))"
  obtain x w1 where run: "pg_run E c (sql_insert_job E ?i p) w = (x, w1)" by fastforce
  from run show thesis
  proof (cases rule: pg_run_cases)
    case (ok a now n)
    with assms run have "r = Ok ?i" "w' = w1" by (auto simp: pg_CreateQueued_def io_simps)
    with insert_job_jobs [OF ok(2)] show thesis
      using that(1) [of ?i] by (simp add: pg_jobs_def pg_quotes_def)
  next
    case (lost m now n a)
    with assms run have "r = Err (Foreign m)" "w' = w1" by (auto simp: pg_CreateQueued_def io_simps)
    with insert_job_jobs [OF lost(2)] show thesis
      using that(2) [of m ?i] by (simp add: pg_jobs_def pg_quotes_def)
  next
    case (stmt e)
    with assms run that(3) show thesis by (auto simp: pg_CreateQueued_def io_simps pg_jobs_def pg_quotes_def)
  next
    case (none e)
    with assms run that(3) show thesis by (auto simp: pg_CreateQueued_def io_simps pg_jobs_def pg_quotes_def)
  qed
qed

definition pg_enc :: "pg_env \<Rightarrow> Quote \<Rightarrow> numeric \<times> int" where
  "pg_enc E q = (to_numeric E (Q_Price q), env_micros E (Q_UpdatedAt q))"

definition pg_dec :: "string \<Rightarrow> numeric \<times> int \<Rightarrow> Quote" where
  "pg_dec p x = \<lparr>Q_Pair = p, Q_Price = numeric_float8 (fst x), Q_UpdatedAt = snd x * 1000\<rparr>"

lemma pg_upsert_effect:
  assumes "pg_Upsert E c q w = (r, w')"
  obtains (ok) "r = Ok ()" "pg_quotes c w' = (pg_quotes c w)(Q_Pair q \<mapsto> pg_enc E q)" "pg_jobs c w' = pg_jobs c w"
      "pg_history c w' = pg_history c w"
  | (err) e where "r = Err e" "pg_jobs c w' = pg_jobs c w" "pg_history c w' = pg_history c w"
      "pg_quotes c w' = pg_quotes c w \<or> pg_quotes c w' = (pg_quotes c w)(Q_Pair q \<mapsto> pg_enc E q)"
proof -
  obtain x w1 where run: "pg_run E c (sql_upsert_quote E (Q_Pair q) (Q_Price q) (Q_UpdatedAt q)) w = (x, w1)"
    by fastforce
  from run show thesis
    by (cases rule: pg_run_cases)
      (use assms run that in \<open>auto simp: pg_Upsert_def io_simps pg_jobs_def pg_quotes_def pg_history_def pg_enc_def
        dest: upsert_quotes_of\<close>)
qed

lemma pg_history_effect:
  assumes "pg_AppendHistory E c h w = (r, w')"
  obtains (ok) "r = Ok ()" "pg_quotes c w' = pg_quotes c w" "pg_jobs c w' = pg_jobs c w"
      "pg_history c w' = add_history E h (pg_history c w)"
  | (err) e where "r = Err e" "pg_quotes c w' = pg_quotes c w" "pg_jobs c w' = pg_jobs c w"
      "pg_history c w' = pg_history c w \<or> pg_history c w' = add_history E h (pg_history c w)"
proof -
  have h: "\<lparr>H_Pair = H_Pair h, H_Price = H_Price h, H_QuotedAt = H_QuotedAt h, H_Source = H_Source h,
    H_UpdateID = H_UpdateID h\<rparr> = h" by simp
  obtain x w1 where run: "pg_run E c (sql_insert_history E (H_Pair h) (H_Price h) (H_QuotedAt h)
      (H_Source h) (H_UpdateID h)) w = (x, w1)" by fastforce
  from run show thesis
  proof (cases rule: pg_run_cases)
    case (ok a now n)
    with insert_history_view [OF ok(2)] assms run that(1) show thesis
      by (auto simp: pg_AppendHistory_def io_simps pg_jobs_def pg_quotes_def pg_history_def h)
  next
    case (lost m now n a)
    with insert_history_view [OF lost(2)] assms run that(2) show thesis
      by (auto simp: pg_AppendHistory_def io_simps pg_jobs_def pg_quotes_def pg_history_def h)
  next
    case (stmt e now n)
    with assms run that(2) show thesis
      by (auto simp: pg_AppendHistory_def io_simps pg_jobs_def pg_quotes_def pg_history_def)
  next
    case (none e)
    with assms run that(2) show thesis
      by (auto simp: pg_AppendHistory_def io_simps pg_jobs_def pg_quotes_def pg_history_def)
  qed
qed

lemma pg_get_effect:
  assumes "pg_GetByID E c i w = (r, w')"
  obtains (ok) u where "r = Ok u" "U_ID u = uuid_key E i" "pg_view c w' = pg_view c w"
      "pg_jobs c w (U_ID u) = Some \<lparr>jv_pair = U_Pair u, jv_status = U_Status u, jv_error = U_Error u\<rparr>"
  | (missing) "r = Err ErrNotFound" "pg_jobs c w (uuid_key E i) = None" "pg_view c w' = pg_view c w"
  | (err) e where "r = Err e" "e \<noteq> ErrNotFound" "pg_view c w' = pg_view c w"
proof -
  obtain x w1 where run: "pg_run E c (sql_get_job E i) w = (x, w1)" by fastforce
  from run show thesis
  proof (cases rule: pg_run_cases)
    case (ok a now n)
    note g = get_job_view [OF ok(2)]
    show thesis
    proof (cases a)
      case None
      with assms run ok(1) g show thesis
        using that(2) by (auto simp: pg_GetByID_def io_simps pg_jobs_def)
    next
      case (Some y)
      with assms run ok(1) have "r = Ok (job_of_result y)" "w' = w1"
        by (auto simp: pg_GetByID_def io_simps)
      with g Some show thesis
        using that(1) [of "job_of_result y"] by (auto simp: pg_jobs_def job_of_result_def)
    qed
  next
    case (lost m now n a)
    with assms run get_job_view(1) [OF lost(2)] that(3) show thesis by (auto simp: pg_GetByID_def io_simps)
  next
    case (stmt e now n)
    then have "e \<noteq> ErrNotFound" by (auto simp: sql_get_job_def split: option.splits list.splits)
    with stmt assms run that(3) show thesis by (auto simp: pg_GetByID_def io_simps)
  next
    case (none e)
    with assms run that(3) show thesis by (auto simp: pg_GetByID_def io_simps)
  qed
qed

lemma pg_last_effect:
  assumes "pg_GetLast E c p w = (r, w')"
  obtains (ok) x where "r = Ok (pg_dec p x)" "pg_quotes c w p = Some x" "pg_view c w' = pg_view c w"
  | (missing) "r = Err ErrNotFound" "pg_quotes c w p = None" "pg_view c w' = pg_view c w"
  | (err) e where "r = Err e" "e \<noteq> ErrNotFound" "pg_view c w' = pg_view c w"
proof -
  obtain x w1 where run: "pg_run E c (sql_get_quote p) w = (x, w1)" by fastforce
  from run show thesis
  proof (cases rule: pg_run_cases)
    case (ok a now n)
    note g = get_quote_view [OF ok(2)]
    show thesis
    proof (cases "pg_quotes c w p")
      case None
      with assms run ok(1) g show thesis
        using that(2) by (auto simp: pg_GetLast_def io_simps pg_quotes_def)
    next
      case (Some y)
      with assms run ok(1) g have "r = Ok (pg_dec p y)" "w' = w1"
        by (auto simp: pg_GetLast_def io_simps pg_quotes_def pg_dec_def split: prod.splits)
      with g Some show thesis using that(1) [of y] by simp
    qed
  next
    case (lost m now n a)
    with assms run get_quote_view(1) [OF lost(2)] that(3) show thesis by (auto simp: pg_GetLast_def io_simps)
  next
    case (stmt e now n)
    then have "e \<noteq> ErrNotFound" by (auto simp: sql_get_quote_def split: list.splits)
    with stmt assms run that(3) show thesis by (auto simp: pg_GetLast_def io_simps)
  next
    case (none e)
    with assms run that(3) show thesis by (auto simp: pg_GetLast_def io_simps)
  qed
qed

interpretation pg_job: fresh_job_port "pg_job_repo E" world_ok pg_jobs "uuid_key E" for E :: pg_env
proof
  fix c and s s' :: "'a world" and i st err
  assume "world_ok c s" "known_status st" "UpdateStatus (pg_job_repo E) c i st err s = (Ok (), s')"
  then show "uuid_key E i \<in> dom (pg_jobs c s) \<and> pg_jobs c s' = set_job (uuid_key E i) st err (pg_jobs c s)"
    by (auto elim: pg_update_effect)
next
  fix c and s s' :: "'a world" and i st err e
  assume "world_ok c s" "known_status st" "UpdateStatus (pg_job_repo E) c i st err s = (Err e, s')"
  then show "pg_jobs c s' = pg_jobs c s \<or> pg_jobs c s' = set_job (uuid_key E i) st err (pg_jobs c s)"
    by (auto elim: pg_update_effect)
next
  fix c and s s' :: "'a world" and i st err p
  show "UpdateStatus (pg_job_repo E) c i st err s \<noteq> (Panic p, s')"
    by (auto simp: pg_UpdateStatus_def io_simps split: outcome.splits prod.splits if_splits)
next
  fix c and s s' :: "'a world" and n xs
  assume "world_ok c s" "ClaimQueued (pg_job_repo E) c n s = (Ok xs, s')"
  then show "distinct (map fst xs) \<and>
       (\<forall>(i, p) \<in> set xs. uuid_key E i = i \<and>
          (\<exists>j. pg_jobs c s i = Some j \<and> jv_status j = Queued \<and> jv_pair j = p)) \<and>
       pg_jobs c s' = claim_jobs (fst ` set xs) (pg_jobs c s)"
    by (auto elim!: pg_claim_effect)
next
  fix c and s s' :: "'a world" and n e
  assume "world_ok c s" "ClaimQueued (pg_job_repo E) c n s = (Err e, s')"
  then show "\<exists>ids. (\<forall>i \<in> ids. \<exists>j. pg_jobs c s i = Some j \<and> jv_status j = Queued) \<and>
         pg_jobs c s' = claim_jobs ids (pg_jobs c s)"
    by (auto elim!: pg_claim_effect)
next
  fix c and s s' :: "'a world" and n p
  show "ClaimQueued (pg_job_repo E) c n s \<noteq> (Panic p, s')" by (simp add: pg_ClaimQueued_def)
next
  fix c and s s' :: "'a world" and p k i
  assume "world_ok c s" "CreateQueued (pg_job_repo E) c p k s = (Ok i, s')"
  then show "pg_jobs c s' = (pg_jobs c s)(uuid_key E i \<mapsto> \<lparr>jv_pair = p, jv_status = Queued, jv_error = None\<rparr>)"
    and "pg_jobs c s (uuid_key E i) = None"
    by (auto elim!: pg_create_effect)
next
  fix c and s s' :: "'a world" and p k e
  assume "world_ok c s" "CreateQueued (pg_job_repo E) c p k s = (Err e, s')"
  then show "pg_jobs c s' = pg_jobs c s \<or> (\<exists>i. pg_jobs c s i = None \<and>
         pg_jobs c s' = (pg_jobs c s)(i \<mapsto> \<lparr>jv_pair = p, jv_status = Queued, jv_error = None\<rparr>))"
    by (auto elim!: pg_create_effect)
next
  fix c and s s' :: "'a world" and i u
  assume "world_ok c s" "GetByID (pg_job_repo E) c i s = (Ok u, s')"
  then show "pg_jobs c s (U_ID u) = Some \<lparr>jv_pair = U_Pair u, jv_status = U_Status u, jv_error = U_Error u\<rparr>"
    by (auto elim!: pg_get_effect)
next
  fix c and s :: "'a world" and i
  obtain r s' where g: "pg_GetByID E c i s = (r, s')" by fastforce
  then show "pg_jobs c (snd (GetByID (pg_job_repo E) c i s)) = pg_jobs c s"
    by (cases rule: pg_get_effect) (simp_all add: g pg_jobs_def)
qed (auto intro: io_keepsD [OF pg_keeps(2)] io_keepsD [OF pg_keeps(3)] io_keepsD [OF pg_create_inv])

interpretation pg_quote: quote_port "pg_quote_repo E" world_ok pg_quotes "pg_enc E" pg_dec pg_history
  "add_history E" for E :: pg_env
proof
  fix c and s s' :: "'a world" and q
  assume "world_ok c s" "Upsert (pg_quote_repo E) c q s = (Ok (), s')"
  then show "pg_quotes c s' = (pg_quotes c s)(Q_Pair q \<mapsto> pg_enc E q)" by (auto elim: pg_upsert_effect)
next
  fix c and s s' :: "'a world" and q e
  assume "world_ok c s" "Upsert (pg_quote_repo E) c q s = (Err e, s')"
  then show "pg_quotes c s' = pg_quotes c s \<or> pg_quotes c s' = (pg_quotes c s)(Q_Pair q \<mapsto> pg_enc E q)"
    by (auto elim: pg_upsert_effect)
next
  fix c and s :: "'a world" and q
  obtain r s' where "pg_Upsert E c q s = (r, s')" by fastforce
  then show "pg_history c (snd (Upsert (pg_quote_repo E) c q s)) = pg_history c s"
    by (auto elim: pg_upsert_effect)
next
  fix c and s s' :: "'a world" and h
  assume "world_ok c s" "AppendHistory (pg_quote_repo E) c h s = (Ok (), s')"
  then show "pg_history c s' = add_history E h (pg_history c s)" by (auto elim: pg_history_effect)
next
  fix c and s s' :: "'a world" and h e
  assume "world_ok c s" "AppendHistory (pg_quote_repo E) c h s = (Err e, s')"
  then show "pg_history c s' = pg_history c s \<or> pg_history c s' = add_history E h (pg_history c s)"
    by (auto elim: pg_history_effect)
next
  fix c and s s' :: "'a world" and q x
  show "Upsert (pg_quote_repo E) c q s \<noteq> (Panic x, s')" by (auto elim: pg_upsert_effect)
next
  fix c and s s' :: "'a world" and h x
  show "AppendHistory (pg_quote_repo E) c h s \<noteq> (Panic x, s')" by (auto elim: pg_history_effect)
next
  fix c and s s' :: "'a world" and p q
  assume "world_ok c s" "GetLast (pg_quote_repo E) c p s = (Ok q, s')"
  then show "\<exists>x. pg_quotes c s p = Some x \<and> q = pg_dec p x" by (auto elim: pg_last_effect)
next
  fix c and s s' :: "'a world" and p
  assume "world_ok c s" "GetLast (pg_quote_repo E) c p s = (Err ErrNotFound, s')"
  then show "pg_quotes c s p = None" by (auto elim: pg_last_effect)
next
  fix c and s :: "'a world" and p
  obtain r s' where g: "pg_GetLast E c p s = (r, s')" by fastforce
  then show "pg_quotes c (snd (GetLast (pg_quote_repo E) c p s)) = pg_quotes c s"
    by (cases rule: pg_last_effect) (simp_all add: g pg_quotes_def)
next
  fix c and s :: "'a world" and h
  obtain r s' where g: "pg_AppendHistory E c h s = (r, s')" by fastforce
  then show "pg_quotes c (snd (AppendHistory (pg_quote_repo E) c h s)) = pg_quotes c s"
    by (cases rule: pg_history_effect) (simp_all add: g)
qed (auto intro: io_keepsD [OF pg_keeps(4)] io_keepsD [OF pg_keeps(5)] io_keepsD [OF pg_keeps(6)])

subsection \<open>The unit of work is atomic\<close>

abbreviation pg_sees :: "ctx \<Rightarrow> 'z world \<Rightarrow> job_map \<times> (string \<rightharpoonup> numeric \<times> int) \<times> hist_view" where
  "pg_sees c w \<equiv> (pg_jobs c w, pg_quotes c w, pg_history c w)"

lemma pg_sees_view: "pg_view c w = pg_view c' w' \<Longrightarrow> pg_sees c w = pg_sees c' w'"
  by (simp add: pg_jobs_def pg_quotes_def pg_history_def)

lemma pg_tx_keeps_inv [keeps_intros]:
  "io_keeps (world_ok x) (pg_begin E c)" "io_keeps (world_ok x) (pg_commit E c k)"
  "io_keeps (world_ok x) (pg_rollback E c k)"
  by (auto simp: io_keeps_def pg_begin_def pg_commit_def pg_rollback_def Let_def world_ok_def
      split: option.splits db_answer.splits)

lemma pg_begin_view:
  assumes "pg_begin E c w = (r, w')" and "ctx_tx c = None"
  obtains (ok) k where "r = Ok k" "pg_view (c\<lparr>ctx_tx := Some k\<rparr>) w' = pg_view c w" "pg_view c w' = pg_view c w"
  | (err) e where "r = Err e" "pg_view c w' = pg_view c w"
  using assms
  by (auto simp: pg_begin_def Let_def pg_view_def split: option.splits db_answer.splits intro: that)

lemma pg_commit_view:
  assumes "pg_commit E c k w = (r, w')" and "ctx_tx c = None"
  obtains (ok) "r = Ok ()" "pg_view c w' = pg_view (c\<lparr>ctx_tx := Some k\<rparr>) w"
  | (lost) e where "r = Err e" "pg_view c w' = pg_view (c\<lparr>ctx_tx := Some k\<rparr>) w"
  | (none) e where "r = Err e" "pg_view c w' = pg_view c w"
  using assms
  by (auto simp: pg_commit_def Let_def pg_view_def
      split: option.splits db_answer.splits if_splits intro: that)

text \<open>The runs of \<open>Do\<close>, by what happened to the transaction.\<close>

lemma pg_Do_cases:
  assumes run: "pg_Do E c fn w = (r, w')" and w: "world_ok c w" and top: "ctx_tx c = None"
  obtains (nobegin) e where "r = Err e" "pg_view c w' = pg_view c w"
  | (failed) k w1 f w2 where "world_ok c w1" "pg_view (c\<lparr>ctx_tx := Some k\<rparr>) w1 = pg_view c w"
      "pg_view c w1 = pg_view c w" "fn (c\<lparr>ctx_tx := Some k\<rparr>) w1 = (f, w2)"
      "r \<noteq> Ok ()" "\<forall>p. r = Panic p \<longrightarrow> f = Panic p" "pg_view c w' = pg_view c w2"
  | (committed) k w1 w2 where "world_ok c w1" "pg_view (c\<lparr>ctx_tx := Some k\<rparr>) w1 = pg_view c w"
      "fn (c\<lparr>ctx_tx := Some k\<rparr>) w1 = (Ok (), w2)" "pg_view c w' = pg_view (c\<lparr>ctx_tx := Some k\<rparr>) w2"
      "\<forall>p. r \<noteq> Panic p"
proof -
  obtain b w1 where b: "pg_begin E c w = (b, w1)" by fastforce
  have w1: "world_ok c w1" using io_keepsD [OF pg_tx_keeps_inv(1) w, of E c] b by simp
  from b top show thesis
  proof (cases rule: pg_begin_view)
    case (err e)
    with run b nobegin show thesis by (auto simp: pg_Do_def io_simps)
  next
    case (ok k)
    obtain f w2 where f: "fn (c\<lparr>ctx_tx := Some k\<rparr>) w1 = (f, w2)" by fastforce
    show thesis
    proof (cases f)
      case (Ok u)
      then have "pg_commit E c k w2 = (r, w')"
        using run b ok(1) f by (auto simp: pg_Do_def io_simps)
      from this top show thesis
        by (cases rule: pg_commit_view)
          (use w1 ok f Ok failed [of w1 k f w2] committed [of w1 k w2] in auto)
    next
      case (Err e)
      then have "r = Err e" and "w' = snd (pg_rollback E c k w2)"
        using run b ok(1) f by (auto simp: pg_Do_def io_simps pg_rollback_def)
      moreover have "pg_view c (snd (pg_rollback E c k w2)) = pg_view c w2"
        using top by (simp add: pg_rollback_def pg_view_def)
      ultimately show thesis using failed [OF w1 ok(2,3) f] by simp
    next
      case (Panic p)
      then have "r = Panic p" and "w' = w2" using run b ok(1) f by (auto simp: pg_Do_def io_simps)
      then show thesis using failed [OF w1 ok(2,3) f] Panic by simp
    qed
  qed
qed

lemma pg_Do_inv:
  assumes "\<And>c'. io_keeps (world_ok x) (fn c')"
  shows "io_keeps (world_ok x) (pg_Do E c fn)"
  unfolding pg_Do_def by (intro keeps_intros assms) (auto split: sum.splits intro!: keeps_intros)

lemma world_ok_ctx: "world_ok c w \<Longrightarrow> world_ok c' w"
  by (simp add: world_ok_def)

interpretation pg_unit: atomic_uow_port "pg_uow E" world_ok pg_sees for E :: pg_env
proof
  fix c and s s' :: "'a world" and fn
  assume "world_ok c s" "ctx_tx c = None" "Do (pg_uow E) c fn s = (Ok (), s')"
  then show "\<exists>c' s1 s2. world_ok c' s1 \<and> pg_sees c' s1 = pg_sees c s \<and> fn c' s1 = (Ok (), s2) \<and>
      pg_sees c s' = pg_sees c' s2"
    by simp (erule pg_Do_cases, assumption+; blast dest: pg_sees_view world_ok_ctx)
next
  fix c and s s' :: "'a world" and fn e
  assume w: "world_ok c s" and top: "ctx_tx c = None" and run: "Do (pg_uow E) c fn s = (Err e, s')"
    and keep: "\<And>c' v. ctx_tx c' \<noteq> None \<Longrightarrow> io_keeps (\<lambda>s. world_ok c s \<and> pg_sees c s = v) (fn c')"
  from run have "pg_Do E c fn s = (Err e, s')" by simp
  from this w top show "pg_sees c s' = pg_sees c s \<or>
      (\<exists>c' s1 s2. world_ok c' s1 \<and> pg_sees c' s1 = pg_sees c s \<and> fn c' s1 = (Ok (), s2) \<and>
        pg_sees c s' = pg_sees c' s2)"
  proof (cases rule: pg_Do_cases)
    case (failed k w1 f w2)
    have "pg_sees c w2 = pg_sees c w1"
      using io_keepsD [OF keep [of "c\<lparr>ctx_tx := Some k\<rparr>" "pg_sees c w1"], of w1] failed(1,4) by simp
    then show ?thesis using failed(3,7) by (metis pg_sees_view)
  qed (blast dest: pg_sees_view world_ok_ctx)+
next
  fix c and s :: "'a world" and fn :: "ctx \<Rightarrow> ('a world, unit) io"
  assume "world_ok c s" and "\<And>c'. io_keeps (world_ok c') (fn c')"
  then show "world_ok c (snd (Do (pg_uow E) c fn s))"
    using pg_Do_inv [of c fn E c] by (simp add: io_keeps_def) (metis world_ok_ctx)
next
  fix c and s s' :: "'a world" and fn :: "ctx \<Rightarrow> ('a world, unit) io" and y
  assume w: "world_ok c s" and top: "ctx_tx c = None"
    and fn: "\<And>c' s x s'. world_ok c' s \<Longrightarrow> fn c' s \<noteq> (Panic x, s')"
  show "Do (pg_uow E) c fn s \<noteq> (Panic y, s')"
  proof
    assume "Do (pg_uow E) c fn s = (Panic y, s')"
    then have "pg_Do E c fn s = (Panic y, s')" by simp
    from this w top show False
      by (cases rule: pg_Do_cases) (use fn world_ok_ctx in \<open>fastforce\<close>)+
  qed
qed

subsection \<open>What happens outside the database\<close>

text \<open>
  An operation on the rest of the process's surroundings: it changes neither the tables nor the
  transactions. Rate providers and idempotency stores run this way.
\<close>

definition outside :: "('z, 'a) io \<Rightarrow> ('z world, 'a) io" where
  "outside m w = (fst (m (rest w)), tick w\<lparr>rest := snd (m (rest w))\<rparr>)"

definition outside_rate :: "'z RateProvider \<Rightarrow> 'z world RateProvider" where
  "outside_rate rp = \<lparr>Get = (\<lambda>c p. outside (Get rp c p))\<rparr>"

definition outside_idem :: "'z IdempotencyStore \<Rightarrow> 'z world IdempotencyStore" where
  "outside_idem st = \<lparr>TryReserve = (\<lambda>c k. outside (TryReserve st c k))\<rparr>"

lemma outside_view [simp]: "pg_view c (snd (outside m w)) = pg_view c w"
  by (simp add: outside_def pg_view_def split: option.splits)

lemma outside_inv [simp]: "world_ok c (snd (outside m w)) = world_ok c w"
  by (simp add: outside_def world_ok_def)

interpretation pg_rate: rate_port "outside_rate rp" world_ok pg_sees for rp :: "'z RateProvider"
  by unfold_locales (simp_all add: outside_rate_def pg_jobs_def pg_quotes_def pg_history_def)

interpretation pg_idem: idempotency_port "outside_idem st" world_ok pg_sees for st :: "'z IdempotencyStore"
  by unfold_locales (simp_all add: outside_idem_def pg_jobs_def pg_quotes_def pg_history_def)

subsection \<open>The service over PostgreSQL\<close>

text \<open>
  The service as \<open>ProvideFXRatesService\<close> wires it: both repositories and the unit of work
  over one pool, a rate provider and an idempotency store outside the database, and the default
  clock and id generator.
\<close>

definition env_time :: "pg_env \<Rightarrow> ('z world, int) io" where
  "env_time E w = (Ok (env_now E (ticks w)), tick w)"

definition env_newID :: "pg_env \<Rightarrow> ('z world, string) io" where
  "env_newID E w = (Ok (uuid_text (env_uuid E (ticks w))), tick w)"

definition ProvideFXRatesService ::
  "pg_env \<Rightarrow> 'z RateProvider \<Rightarrow> 'z IdempotencyStore \<Rightarrow> 'z world FXRatesService" where
  "ProvideFXRatesService E rp st =
     NewService (env_time E) (env_newID E) (Some (pg_quote_repo E)) (Some (pg_job_repo E))
       (Some (outside_rate rp)) (Some (outside_idem st)) [WithUoW (pg_uow E)]"

lemma pg_service_simps [simp]:
  "updateJobRepo (ProvideFXRatesService E rp st) = Some (pg_job_repo E)"
  "quoteRepo (ProvideFXRatesService E rp st) = Some (pg_quote_repo E)"
  "rateProvider (ProvideFXRatesService E rp st) = Some (outside_rate rp)"
  "uow (ProvideFXRatesService E rp st) = pg_uow E"
  "svc_idem (ProvideFXRatesService E rp st) = Some (outside_idem st)"
  by (simp_all add: ProvideFXRatesService_def NewService_def WithUoW_def)

interpretation pg_fx: worker_fx_service "pg_job_repo E" world_ok pg_jobs "uuid_key E" "pg_quote_repo E"
  pg_quotes "pg_enc E" pg_dec pg_history "add_history E" "pg_uow E" "ProvideFXRatesService E rp st" "outside_rate rp"
  for E :: pg_env and rp :: "'z RateProvider" and st :: "'z IdempotencyStore"
proof
  fix c and s :: "'z world" and n
  assume w: "world_ok c s"
  obtain r s' where "pg_ClaimQueued E c n s = (r, s')" by fastforce
  with w show "pg_quotes c (snd (ClaimQueued (pg_job_repo E) c n s)) = pg_quotes c s"
    and "pg_history c (snd (ClaimQueued (pg_job_repo E) c n s)) = pg_history c s"
    by (auto elim: pg_claim_effect)
next
  fix c and s :: "'z world" and q
  obtain r s' where "pg_Upsert E c q s = (r, s')" by fastforce
  then show "pg_jobs c (snd (Upsert (pg_quote_repo E) c q s)) = pg_jobs c s"
    by (auto elim: pg_upsert_effect)
next
  fix c and s :: "'z world" and h
  obtain r s' where "pg_AppendHistory E c h s = (r, s')" by fastforce
  then show "pg_jobs c (snd (AppendHistory (pg_quote_repo E) c h s)) = pg_jobs c s"
    by (auto elim: pg_history_effect)
qed (simp_all add: pg_update_quotes pg_tx_keeps)

end
