(* ===== verification/Idempotency.thy ===== *)
theory Idempotency
  imports Service
begin

section \<open>The idempotency stores\<close>

text \<open>
  \<^verbatim>\<open>internal/infrastructure/redis\<close>. The Redis client is not code of the repository: its
  \<open>SETNX\<close> is an argument, and \<open>setnx_law\<close> is its documented behaviour, over a predicate
  that says which keys hold an unexpired value.
\<close>

type_synonym 's set_nx = "ctx \<Rightarrow> string \<Rightarrow> string \<Rightarrow> int \<Rightarrow> ('s, bool) io"

record 's redis_store =
  rs_Client :: "'s set_nx"
  rs_TTL :: int

definition redis_New :: "'s set_nx \<Rightarrow> int \<Rightarrow> 's redis_store" where
  "redis_New client ttl = \<lparr>rs_Client = client, rs_TTL = ttl\<rparr>"

definition redis_TryReserve :: "'s redis_store \<Rightarrow> ctx \<Rightarrow> string \<Rightarrow> ('s, bool) io" where
  "redis_TryReserve st c key =
     io_bind (io_try (rs_Client st c key ''1'' (rs_TTL st))) (\<lambda>res. case res of
       Inl e \<Rightarrow> io_fail e
     | Inr ok \<Rightarrow> io_return ok)"

definition redis_idem :: "'s redis_store \<Rightarrow> 's IdempotencyStore" where
  "redis_idem st = \<lparr>TryReserve = redis_TryReserve st\<rparr>"

definition noop_TryReserve :: "ctx \<Rightarrow> string \<Rightarrow> ('s, bool) io" where
  "noop_TryReserve c key = io_return True"

definition NoopIdempotency :: "'s IdempotencyStore" where
  "NoopIdempotency = \<lparr>TryReserve = noop_TryReserve\<rparr>"

text \<open>
  \<open>SET key value NX PX ttl\<close>: the answer \<open>True\<close> means that the key had no value and now
  has one, the answer \<open>False\<close> that it had one, which is kept; a key that had a value still has it
  after a call for the same key.
\<close>

definition setnx_law :: "('s \<Rightarrow> string \<Rightarrow> bool) \<Rightarrow> 's set_nx \<Rightarrow> bool" where
  "setnx_law holds client \<longleftrightarrow> (\<forall>c key v ttl s.
     (fst (client c key v ttl s) = Ok True \<longrightarrow>
        \<not> holds s key \<and> holds (snd (client c key v ttl s)) key) \<and>
     (fst (client c key v ttl s) = Ok False \<longrightarrow> holds s key) \<and>
     (holds s key \<longrightarrow> holds (snd (client c key v ttl s)) key))"

lemma redis_TryReserve_eq: "redis_TryReserve st c key = rs_Client st c key ''1'' (rs_TTL st)"
  by (rule ext) (auto simp: redis_TryReserve_def io_simps split: outcome.splits prod.splits)

interpretation noop_idem: idempotency_port NoopIdempotency "\<lambda>c s. True" "\<lambda>c s. s"
  by unfold_locales (simp_all add: NoopIdempotency_def noop_TryReserve_def io_simps)

subsection \<open>What a request does with its key\<close>

text \<open>
  A request without a key, or with an empty one, is a bad request and touches nothing. With
  a key, the key is reserved first; a job is created only when the reservation was granted, and
  the result of the request is then the id or the error of \<open>CreateQueued\<close>; a refused
  reservation is a conflict and a failed one the store's own error, both without a job.
\<close>

theorem RequestQuoteUpdate_branches:
  "RequestQuoteUpdate svc c pair idem s =
    (case idem of
       None \<Rightarrow> (Err ErrBadRequest, s)
     | Some key \<Rightarrow>
         if key = [] then (Err ErrBadRequest, s)
         else case (case svc_idem svc of None \<Rightarrow> (Ok True, s) | Some st \<Rightarrow> TryReserve st c key s) of
            (Ok True, s1) \<Rightarrow> io_call (updateJobRepo svc) (\<lambda>r. CreateQueued r c pair (Some key)) s1
          | (Ok False, s1) \<Rightarrow> (Err ErrConflict, s1)
          | (Err e, s1) \<Rightarrow> (Err e, s1)
          | (Panic p, s1) \<Rightarrow> (Panic p, s1))"
  by (auto simp: RequestQuoteUpdate_def io_simps split: option.splits outcome.splits prod.splits bool.splits)

text \<open>
  C19: Once a request with a key was answered with a job, no later request with that key creates a
  job as long as Redis still holds the key: its only effect is the call of \<open>SETNX\<close>, and it
  is answered with a conflict or with the store's error.
\<close>

theorem one_job_per_key:
  assumes law: "setnx_law holds client"
    and idem: "svc_idem svc = Some (redis_idem (redis_New client ttl))"
    and first: "RequestQuoteUpdate svc c pair (Some key) s = (Ok i, s1)"
    and held: "holds s2 key"
  shows "\<not> holds s key \<and>
    (case client c' key ''1'' ttl s2 of
       (Ok ok, s3) \<Rightarrow> RequestQuoteUpdate svc c' pair' (Some key) s2 = (Err ErrConflict, s3) \<and> holds s3 key
     | (Err e, s3) \<Rightarrow> RequestQuoteUpdate svc c' pair' (Some key) s2 = (Err e, s3) \<and> holds s3 key
     | (Panic p, s3) \<Rightarrow> RequestQuoteUpdate svc c' pair' (Some key) s2 = (Panic p, s3) \<and> holds s3 key)"
proof -
  have key: "key \<noteq> []" using first by (auto simp: RequestQuoteUpdate_def io_simps)
  have store: "TryReserve (redis_idem (redis_New client ttl)) c k = client c k ''1'' ttl" for c k
    by (simp add: redis_idem_def redis_TryReserve_eq redis_New_def)
  have "fst (client c key ''1'' ttl s) = Ok True"
    using first key by (auto simp: RequestQuoteUpdate_def io_simps idem store split: outcome.splits prod.splits if_splits)
  with law have "\<not> holds s key" by (simp add: setnx_law_def)
  moreover have "fst (client c' key ''1'' ttl s2) \<noteq> Ok True"
    using law held by (auto simp: setnx_law_def)
  moreover have "holds (snd (client c' key ''1'' ttl s2)) key"
    using law held by (auto simp: setnx_law_def)
  ultimately show ?thesis using key
    by (auto simp: RequestQuoteUpdate_def io_simps idem store split: outcome.splits prod.splits if_splits)
qed

text \<open>A Redis that keeps its keys in a list and never expires them.\<close>

definition list_setnx :: "string list set_nx" where
  "list_setnx c key v ttl s = (if key \<in> set s then (Ok False, s) else (Ok True, key # s))"

lemma list_setnx_law: "setnx_law (\<lambda>s k. k \<in> set s) list_setnx"
  by (auto simp: setnx_law_def list_setnx_def)

definition demo_jobs :: "string list UpdateJobRepo" where
  "demo_jobs = \<lparr>CreateQueued = (\<lambda>c p k. io_return ''job''), GetByID = (\<lambda>c i. io_fail ErrNotFound),
     UpdateStatus = (\<lambda>c i st e. io_fail ErrNotFound), ClaimQueued = (\<lambda>c n. io_return [])\<rparr>"

definition demo_service :: "string list FXRatesService" where
  "demo_service = NewService (io_return 0) (io_return ''id'') None (Some demo_jobs) None
     (Some (redis_idem (redis_New list_setnx 60))) []"

lemma one_job_per_key_witness:
  "RequestQuoteUpdate demo_service ctx_background ''USD/EUR'' (Some ''k'') [''k''] = (Err ErrConflict, [''k''])"
proof -
  have idem: "svc_idem demo_service = Some (redis_idem (redis_New list_setnx 60))"
    by (simp add: demo_service_def NewService_def)
  have first: "RequestQuoteUpdate demo_service ctx_background ''USD/EUR'' (Some ''k'') [] = (Ok ''job'', [''k''])"
    by (simp add: RequestQuoteUpdate_def demo_service_def NewService_def redis_idem_def redis_TryReserve_eq
        redis_New_def list_setnx_def demo_jobs_def io_simps)
  show ?thesis
    using one_job_per_key [OF list_setnx_law idem first, of "[''k'']" ctx_background "''USD/EUR''"]
    by (simp add: list_setnx_def)
qed

text \<open>
  C33: A request whose job could not be created keeps its key: it has failed and no job exists for
  it, but a second try with the same key is answered with a conflict, by any job store and
  without asking it, as long as Redis holds the key.
\<close>

theorem failed_request_burns_key:
  assumes law: "setnx_law holds client"
    and idem: "svc_idem svc = Some (redis_idem (redis_New client ttl))"
    and jr: "updateJobRepo svc = Some jr"
    and reserve: "client c key ''1'' ttl s = (Ok True, s1)" and key: "key \<noteq> []"
    and failed: "CreateQueued jr c pair (Some key) s1 = (Err e, s2)"
    and kept: "holds s2 key"
    and answers: "client c key ''1'' ttl s2 = (Ok ok, s3)"
  shows "RequestQuoteUpdate svc c pair (Some key) s = (Err e, s2) \<and>
    RequestQuoteUpdate svc c pair (Some key) s2 = (Err ErrConflict, s3)"
proof
  have store: "TryReserve (redis_idem (redis_New client ttl)) c k = client c k ''1'' ttl" for c k
    by (simp add: redis_idem_def redis_TryReserve_eq redis_New_def)
  show "RequestQuoteUpdate svc c pair (Some key) s = (Err e, s2)"
    by (simp add: RequestQuoteUpdate_def io_simps idem store reserve key jr failed)
  have "ok \<noteq> True" using law kept answers unfolding setnx_law_def by (metis fst_conv)
  then show "RequestQuoteUpdate svc c pair (Some key) s2 = (Err ErrConflict, s3)"
    by (simp add: RequestQuoteUpdate_def io_simps idem store answers key)
qed

definition failing_jobs :: "string list UpdateJobRepo" where
  "failing_jobs = demo_jobs\<lparr>CreateQueued := (\<lambda>c p k. io_fail (Foreign ''connection refused''))\<rparr>"

lemma failed_request_burns_key_witness:
  "RequestQuoteUpdate (demo_service\<lparr>updateJobRepo := Some failing_jobs\<rparr>) ctx_background ''USD/EUR'' (Some ''k'') []
     = (Err (Foreign ''connection refused''), [''k'']) \<and>
   RequestQuoteUpdate (demo_service\<lparr>updateJobRepo := Some failing_jobs\<rparr>) ctx_background ''USD/EUR'' (Some ''k'') [''k'']
     = (Err ErrConflict, [''k''])"
  using failed_request_burns_key [OF list_setnx_law, of "demo_service\<lparr>updateJobRepo := Some failing_jobs\<rparr>" 60
      failing_jobs ctx_background "''k''" "[]" "[''k'']" "''USD/EUR''" "Foreign ''connection refused''" "[''k'']"
      False "[''k'']"]
  by (simp add: demo_service_def NewService_def failing_jobs_def list_setnx_def io_simps)

end
