(* ===== verification/Pg_Service.thy ===== *)
theory Pg_Service
  imports Pg_Store Idempotency
begin

section \<open>The service over PostgreSQL: its guarantees\<close>

text \<open>
  The lemmas of the application layer, read at the service \<open>ProvideFXRatesService\<close> builds.
  They hold in every environment: whatever answers the server gives, refuses or loses, and
  whatever the clock does. What needs a server that answers says so.
\<close>

subsection \<open>A demonstration world\<close>

definition demo_rate :: "'z RateProvider" where
  "demo_rate = \<lparr>Get = (\<lambda>c p. io_return \<lparr>Q_Pair = p, Q_Price = Fin (5/4), Q_UpdatedAt = 7000000\<rparr>)\<rparr>"

definition down_rate :: "'z RateProvider" where
  "down_rate = \<lparr>Get = (\<lambda>c p. io_fail (Foreign ''connection refused''))\<rparr>"

abbreviation demo_fx :: "pg_env \<Rightarrow> 'z RateProvider \<Rightarrow> 'z world FXRatesService" where
  "demo_fx E rp \<equiv> ProvideFXRatesService E rp NoopIdempotency"

definition demo_tables :: tables where
  "demo_tables = \<lparr>t_quotes = [], t_jobs = [demo_job 1 7, demo_job 2 5], t_hist = []\<rparr>"

definition demo_world :: "unit world" where
  "demo_world = \<lparr>ticks = 0, committed = demo_tables, txs = (\<lambda>_. None), next_tx = 0, rest = ()\<rparr>"

definition demo_id :: string where
  "demo_id = uuid_text (\<lambda>i. 1)"

lemma demo_tables_ok: "tables_ok demo_tables"
  by code_simp

lemma demo_world_ok [simp]: "world_ok c demo_world"
  by (simp add: world_ok_def demo_world_def demo_tables_ok)

lemma demo_ctx [simp]: "ctx_tx ctx_background = None"
  by (simp add: ctx_background_def)

lemma demo_key [simp]: "uuid_key E demo_id = demo_id"
  by (simp add: demo_id_def)

lemma demo_present: "pg_jobs ctx_background demo_world demo_id =
  Some \<lparr>jv_pair = ''USD/EUR'', jv_status = Queued, jv_error = None\<rparr>"
  by (simp add: pg_jobs_def pg_view_def demo_world_def jobs_of_def demo_tables_def demo_job_def
      demo_id_def job_of_row_def)

subsection \<open>Completing an update\<close>

text \<open>
  C4: A completion whose fetch succeeded is all or nothing in every environment: either nothing
  of it shows (and it did not report success), or the job is done without error, the quote is
  the current quote of its pair and the history has its entry. When it reports success, the
  latter holds.
\<close>

theorem completion_atomic:
  assumes "fetch c w = (Ok q, w1)" and "world_ok c w1" and "ctx_tx c = None"
    and "CompleteQuoteUpdate (ProvideFXRatesService E rp st) c i fetch src w = (r, w')"
  shows "(r \<noteq> Ok () \<and> pg_jobs c w' = pg_jobs c w1 \<and> pg_quotes c w' = pg_quotes c w1 \<and>
      pg_history c w' = pg_history c w1) \<or>
    (uuid_key E i \<in> dom (pg_jobs c w1) \<and>
      pg_jobs c w' = set_job (uuid_key E i) Done None (pg_jobs c w1) \<and>
      pg_quotes c w' = (pg_quotes c w1)(Q_Pair q \<mapsto> pg_enc E q) \<and>
      pg_history c w' = add_history E (history_of q src i) (pg_history c w1))"
  using pg_fx.complete_atomic [where fetch = fetch, OF assms] by blast

abbreviation demo_svc :: "unit world FXRatesService" where
  "demo_svc \<equiv> demo_fx demo_env demo_rate"

abbreviation demo_fetch :: "ctx \<Rightarrow> (unit world, Quote) io" where
  "demo_fetch \<equiv> \<lambda>c. FetchQuote demo_svc c ''USD/EUR''"

definition demo_quote :: Quote where
  "demo_quote = \<lparr>Q_Pair = ''USD/EUR'', Q_Price = Fin (5/4), Q_UpdatedAt = 7000000\<rparr>"

lemma demo_fetch_eq: "demo_fetch ctx_background demo_world = (Ok demo_quote, tick demo_world)"
  by (simp add: FetchQuote_def outside_rate_def outside_def demo_rate_def demo_quote_def
      io_simps demo_world_def)

lemma tick_ok [simp]: "world_ok c (tick w) = world_ok c w" "pg_jobs c (tick w) = pg_jobs c w"
  by (simp_all add: world_ok_def pg_jobs_def pg_view_def tick_def split: option.splits)

lemma completion_atomic_witness:
  "pg_jobs ctx_background
     (snd (CompleteQuoteUpdate demo_svc ctx_background demo_id demo_fetch ''db'' demo_world)) demo_id =
   Some \<lparr>jv_pair = ''USD/EUR'', jv_status = Done, jv_error = None\<rparr>"
proof -
  obtain r w' where run: "CompleteQuoteUpdate demo_svc ctx_background demo_id demo_fetch ''db'' demo_world = (r, w')"
    by fastforce
  have "fst (CompleteQuoteUpdate demo_svc ctx_background demo_id demo_fetch ''db'' demo_world) = Ok ()"
    by code_simp
  then have "r = Ok ()" by (simp add: run)
  with completion_atomic [where fetch = demo_fetch, OF demo_fetch_eq _ demo_ctx run]
  show ?thesis by (simp add: run demo_present)
qed

subsection \<open>A server that answers\<close>

text \<open>
  An environment that carries out every statement, for a context that neither expires nor is
  canceled at the time of any of them.
\<close>

definition answering :: "pg_env \<Rightarrow> ctx \<Rightarrow> bool" where
  "answering E c \<longleftrightarrow> (\<forall>n. env_answer E n = Carried) \<and> (\<forall>n. ctx_err c (env_now E n) = None)"

definition tx_open :: "ctx \<Rightarrow> 'z world \<Rightarrow> bool" where
  "tx_open c w = (case ctx_tx c of None \<Rightarrow> True | Some k \<Rightarrow>
     (case txs w k of None \<Rightarrow> False | Some t \<Rightarrow> \<not> tx_aborted t))"

definition stmt_answers :: "'r stmt \<Rightarrow> tables \<Rightarrow> bool" where
  "stmt_answers st T \<longleftrightarrow> (\<forall>now n. \<exists>a T'. st now n T = Inr (a, T'))"

lemma pg_run_answers:
  assumes "answering E c" and "tx_open c w" and "stmt_answers st (pg_view c w)"
  obtains a w' now n where "pg_run E c st w = (Ok a, w')" and "st now n (pg_view c w) = Inr (a, pg_view c w')"
    and "tx_open c w'"
proof (cases "ctx_tx c")
  case None
  obtain a T where "st (env_now E (ticks w)) (ticks w) (pg_view c w) = Inr (a, T)"
    using assms(3) unfolding stmt_answers_def by blast
  then have "pg_run E c st w = (Ok a, tick w\<lparr>committed := T\<rparr>)"
    and "st (env_now E (ticks w)) (ticks w) (pg_view c w) = Inr (a, pg_view c (tick w\<lparr>committed := T\<rparr>))"
    using None assms(1) by (simp_all add: pg_run_def run_pool_def Let_def answering_def pg_view_def)
  then show thesis by (rule that) (simp add: tx_open_def None)
next
  case (Some k)
  then obtain t where t: "txs w k = Some t" "\<not> tx_aborted t"
    using assms(2) by (auto simp: tx_open_def split: option.splits)
  obtain a T where "st (tx_start t) (ticks w) (pg_view c w) = Inr (a, T)"
    using assms(3) unfolding stmt_answers_def by blast
  then have "pg_run E c st w = (Ok a, set_tx k (Some (t\<lparr>tx_tables := T\<rparr>)) (tick w))"
    and "st (tx_start t) (ticks w) (pg_view c w)
      = Inr (a, pg_view c (set_tx k (Some (t\<lparr>tx_tables := T\<rparr>)) (tick w)))"
    using Some t assms(1) by (simp_all add: pg_run_def run_tx_def Let_def answering_def pg_view_def)
  then show thesis by (rule that) (simp add: tx_open_def Some t)
qed

lemma pg_update_answers:
  assumes "answering E c" and "tx_open c w" and i: "uuid_param E i = Some k" "k \<in> dom (pg_jobs c w)"
    and st: "known_status st"
  obtains w' where "pg_UpdateStatus E c i st err w = (Ok (), w')" and "tx_open c w'"
proof -
  have ex: "stmt_answers (sql_update_status E i (status_text st) err) (pg_view c w)"
    using i(1) st by (cases st) (auto simp: stmt_answers_def sql_update_status_def status_text_def)
  obtain a w' now n where run: "pg_run E c (sql_update_status E i (status_text st) err) w = (Ok a, w')"
    and eff: "sql_update_status E i (status_text st) err now n (pg_view c w) = Inr (a, pg_view c w')"
    and "tx_open c w'" by (rule pg_run_answers [OF assms(1,2) ex])
  moreover have "a \<noteq> 0"
    using update_status_jobs(4) [OF eff st] i by (simp add: pg_jobs_def)
  ultimately show thesis by (intro that [of w']) (simp_all add: pg_UpdateStatus_def io_simps)
qed

lemma pg_upsert_answers:
  assumes "answering E c" and "tx_open c w" and "numeric_param E (Q_Price q) = Inr v"
  obtains w' where "pg_Upsert E c q w = (Ok (), w')" and "tx_open c w'"
proof -
  have ex: "stmt_answers (sql_upsert_quote E (Q_Pair q) (Q_Price q) (Q_UpdatedAt q)) (pg_view c w)"
    using assms(3) by (auto simp: stmt_answers_def sql_upsert_quote_def)
  obtain a w' now n where "pg_run E c (sql_upsert_quote E (Q_Pair q) (Q_Price q) (Q_UpdatedAt q)) w = (Ok a, w')"
    and "tx_open c w'" by (rule pg_run_answers [OF assms(1,2) ex])
  then show thesis by (intro that [of w']) (simp_all add: pg_Upsert_def io_simps)
qed

lemma jobs_of_present: "k \<in> dom (jobs_of T) \<longleftrightarrow> k \<in> ju_id ` set (t_jobs T)"
  by (simp add: jobs_of_def dom_map_of_conv_image_fst image_image)

lemma pg_history_answers:
  assumes "answering E c" and "tx_open c w" and "numeric_param E (Q_Price q) = Inr v"
    and i: "uuid_param E i = Some k" "k \<in> dom (pg_jobs c w)"
  obtains w' where "pg_AppendHistory E c (history_of q src i) w = (Ok (), w')" and "tx_open c w'"
proof -
  let ?h = "history_of q src i"
  have ex: "stmt_answers (sql_insert_history E (H_Pair ?h) (H_Price ?h) (H_QuotedAt ?h) (H_Source ?h) (H_UpdateID ?h))
      (pg_view c w)"
    using assms(3) i by (auto simp: stmt_answers_def sql_insert_history_def history_of_def Let_def pg_jobs_def jobs_of_present)
  obtain a w' now n where "pg_run E c (sql_insert_history E (H_Pair ?h) (H_Price ?h) (H_QuotedAt ?h)
      (H_Source ?h) (H_UpdateID ?h)) w = (Ok a, w')" and "tx_open c w'"
    by (rule pg_run_answers [OF assms(1,2) ex])
  then show thesis by (intro that [of w']) (simp_all add: pg_AppendHistory_def io_simps)
qed

lemma Quote_eta [simp]: "\<lparr>Q_Pair = Q_Pair q, Q_Price = Q_Price q, Q_UpdatedAt = Q_UpdatedAt q\<rparr> = q"
  by simp

lemma complete_tx_answers:
  assumes ans: "answering E c" and op: "tx_open c w" and num: "numeric_param E (Q_Price q) = Inr v"
    and i: "uuid_param E i = Some k" "k \<in> dom (pg_jobs c w)"
  obtains w' where "complete_tx (ProvideFXRatesService E rp st) i q src c w = (Ok (), w')" and "tx_open c w'"
proof -
  obtain w1 where h: "pg_AppendHistory E c (history_of q src i) w = (Ok (), w1)" and op1: "tx_open c w1"
    by (rule pg_history_answers [OF ans op num i])
  have d1: "k \<in> dom (pg_jobs c w1)" by (rule pg_history_effect [OF h]) (use i(2) in auto)
  obtain w2 where u: "pg_Upsert E c q w1 = (Ok (), w2)" and op2: "tx_open c w2"
    by (rule pg_upsert_answers [OF ans op1 num])
  have d2: "k \<in> dom (pg_jobs c w2)" by (rule pg_upsert_effect [OF u]) (use d1 in auto)
  obtain w3 where "pg_UpdateStatus E c i Done None w2 = (Ok (), w3)" and "tx_open c w3"
    by (rule pg_update_answers [OF ans op2 i(1) d2, where st = Done and err = None]) simp
  with h u show thesis by (intro that [of w3]) (simp_all add: complete_tx_def io_simps)
qed

lemma pg_complete_answers:
  assumes ans: "answering E c" and top: "ctx_tx c = None" and num: "numeric_param E (Q_Price q) = Inr v"
    and i: "uuid_param E i = Some k" "k \<in> dom (pg_jobs c w1)" and fetch: "fetch c w = (Ok q, w1)"
  obtains w' where "CompleteQuoteUpdate (ProvideFXRatesService E rp st) c i fetch src w = (Ok (), w')"
proof -
  let ?k = "next_tx w1" and ?svc = "ProvideFXRatesService E rp st"
  let ?c = "c\<lparr>ctx_tx := Some ?k\<rparr>"
  define w2 where "w2 = set_tx ?k (Some \<lparr>tx_start = env_now E (ticks w1), tx_tables = committed w1, tx_aborted = False\<rparr>)
    (tick w1\<lparr>next_tx := Suc ?k\<rparr>)"
  have b: "pg_begin E c w1 = (Ok ?k, w2)" using ans by (simp add: pg_begin_def Let_def answering_def w2_def)
  have "answering E ?c" and "tx_open ?c w2" and "k \<in> dom (pg_jobs ?c w2)"
    using ans i(2) top by (simp_all add: answering_def tx_open_def w2_def pg_jobs_def pg_view_def)
  from this(1,2) num i(1) this(3) obtain w3 where tx: "complete_tx ?svc i q src ?c w2 = (Ok (), w3)" and "tx_open ?c w3"
    by (rule complete_tx_answers)
  then obtain t where "txs w3 ?k = Some t" "\<not> tx_aborted t" by (auto simp: tx_open_def split: option.splits)
  then obtain w4 where "pg_commit E c ?k w3 = (Ok (), w4)"
    using ans by (simp add: pg_commit_def Let_def answering_def)
  with b tx have "pg_Do E c (complete_tx ?svc i q src) w1 = (Ok (), w4)"
    by (simp add: pg_Do_def io_simps)
  then show thesis by (intro that [of w4]) (simp add: CompleteQuoteUpdate_def io_simps fetch)
qed

text \<open>
  C24: When the server answers every statement and the context lives on, a completion whose fetch
  succeeded with a price the price column can hold returns success for a job that exists, and
  the job is done, the quote stored and the history written.
\<close>

theorem completion_succeeds:
  assumes ans: "answering E c" and top: "ctx_tx c = None" and w: "world_ok c w1"
    and fetch: "fetch c w = (Ok q, w1)" and num: "numeric_param E (Q_Price q) = Inr v"
    and i: "uuid_param E i = Some k" "k \<in> dom (pg_jobs c w1)"
  shows "\<exists>w'. CompleteQuoteUpdate (ProvideFXRatesService E rp st) c i fetch src w = (Ok (), w') \<and>
    pg_jobs c w' = set_job k Done None (pg_jobs c w1) \<and>
    pg_quotes c w' = (pg_quotes c w1)(Q_Pair q \<mapsto> pg_enc E q) \<and>
    pg_history c w' = add_history E (history_of q src i) (pg_history c w1)"
proof -
  obtain w' where run: "CompleteQuoteUpdate (ProvideFXRatesService E rp st) c i fetch src w = (Ok (), w')"
    by (rule pg_complete_answers [where fetch = fetch, OF ans top num i fetch])
  from pg_fx.complete_ok [where fetch = fetch, OF fetch w top run] run i(1) show ?thesis by auto
qed

lemma demo_answering: "answering demo_env ctx_background"
  by (simp add: answering_def demo_env_def)

lemma completion_succeeds_witness:
  "\<exists>w'. CompleteQuoteUpdate demo_svc ctx_background demo_id demo_fetch ''db'' demo_world = (Ok (), w') \<and>
     pg_jobs ctx_background w' demo_id = Some \<lparr>jv_pair = ''USD/EUR'', jv_status = Done, jv_error = None\<rparr> \<and>
     pg_quotes ctx_background w' ''USD/EUR'' = Some (Num 1250000, 7000)"
proof -
  have n: "numeric_param demo_env (Q_Price demo_quote) = Inr (Num 1250000)" by code_simp
  have e: "pg_enc demo_env demo_quote = (Num 1250000, 7000)" by code_simp
  have k: "uuid_param demo_env demo_id = Some demo_id" by (simp add: uuid_param_def demo_id_def)
  have p: "demo_id \<in> dom (pg_jobs ctx_background (tick demo_world))" by (simp add: demo_present domI)
  have q: "Q_Pair demo_quote = ''USD/EUR''" by (simp add: demo_quote_def)
  show ?thesis
    using completion_succeeds [where fetch = demo_fetch, OF demo_answering demo_ctx _ demo_fetch_eq n k p,
        of demo_rate NoopIdempotency "''db''"]
    by (auto simp: demo_present e q)
qed

subsection \<open>A batch of the database worker\<close>

text \<open>
  One batch, in every environment, changes only jobs that were queued when it began: no job
  appears or disappears or changes its pair, every other job is as before, and every job it
  claimed has left the queue, even when the claim's answer or a later statement was lost.
\<close>

theorem batch_moves_queued:
  assumes "world_ok c w" and "ctx_tx c = None"
  shows "\<exists>ids. (\<forall>i \<in> ids. \<exists>j. pg_jobs c w i = Some j \<and> jv_status j = Queued) \<and>
    moved ids (pg_jobs c w) (pg_jobs c (snd (ProcessQueueBatch (ProvideFXRatesService E rp st) c n w)))"
  by (rule pg_fx.batch_moves [OF assms]) blast

lemma batch_moves_queued_witness:
  "\<exists>ids. (\<forall>i \<in> ids. \<exists>j. pg_jobs ctx_background demo_world i = Some j \<and> jv_status j = Queued) \<and>
    moved ids (pg_jobs ctx_background demo_world)
      (pg_jobs ctx_background (snd (ProcessQueueBatch demo_svc ctx_background 1 demo_world)))"
  by (rule batch_moves_queued) simp_all

definition queued_ids :: "job_map \<Rightarrow> string set" where
  "queued_ids m = {i. \<exists>j. m i = Some j \<and> jv_status j = Queued}"

definition rate_answers :: "pg_env \<Rightarrow> 'z RateProvider \<Rightarrow> bool" where
  "rate_answers E rp \<longleftrightarrow> (\<forall>c p z. \<exists>q z' v. Get rp c p z = (Ok q, z') \<and> numeric_param E (Q_Price q) = Inr v)"

definition done_view :: "job_view \<Rightarrow> job_view" where
  "done_view j = j\<lparr>jv_status := Done, jv_error := None\<rparr>"

lemma set_job_twice:
  "set_job i Done None (set_job i Processing None m) =
    (\<lambda>k. if k = i then map_option done_view (m k) else m k)"
  by (auto simp: set_job_def done_view_def fun_eq_iff split: option.splits)

lemma completion_answers:
  assumes ans: "answering E c" and top: "ctx_tx c = None" and rp: "rate_answers E rp"
    and w: "world_ok c w" and i: "is_canonical_uuid i" "i \<in> dom (pg_jobs c w)"
  obtains w' where "CompleteQuoteUpdate (ProvideFXRatesService E rp st) c i
          (\<lambda>c'. FetchQuote (ProvideFXRatesService E rp st) c' p) src w = (Ok (), w')"
    and "world_ok c w'" and "pg_jobs c w' = set_job i Done None (pg_jobs c w)"
proof -
  let ?svc = "ProvideFXRatesService E rp st"
  let ?fetch = "\<lambda>c'. FetchQuote ?svc c' p"
  have up: "uuid_param E i = Some i" using i(1) by (simp add: uuid_param_def)
  obtain q z' v where g: "Get rp c p (rest w) = (Ok q, z')" and num: "numeric_param E (Q_Price q) = Inr v"
    using rp unfolding rate_answers_def by blast
  define w2 where "w2 = tick w\<lparr>rest := z'\<rparr>"
  have f: "?fetch c w = (Ok q, w2)"
    by (simp add: FetchQuote_def io_simps outside_rate_def outside_def g w2_def)
  have w2: "world_ok c w2" "pg_jobs c w2 = pg_jobs c w"
    using w top by (auto simp: w2_def world_ok_def pg_jobs_def pg_view_def)
  have d: "i \<in> dom (pg_jobs c w2)" using w2(2) i(2) by simp
  obtain w' where run: "CompleteQuoteUpdate ?svc c i ?fetch src w = (Ok (), w')"
    by (rule pg_complete_answers [where fetch = ?fetch, OF ans top num up d f])
  have "io_keeps (world_ok c) (?fetch c)"
    by (simp add: io_keeps_def FetchQuote_def io_simps pg_rate.get_inv)
  then have "world_ok c w'"
    using io_keepsD [OF pg_fx.complete_inv [where fetch = ?fetch, OF _ top] w] run by (metis snd_conv)
  moreover have "pg_jobs c w' = set_job i Done None (pg_jobs c w)"
    using pg_fx.complete_ok [where fetch = ?fetch, OF f w2(1) top run] i(1) w2(2) by simp
  ultimately show thesis using run by (intro that)
qed

lemma one_job_answers:
  assumes ans: "answering E c" and top: "ctx_tx c = None" and rp: "rate_answers E rp"
    and w: "world_ok c w" and i: "is_canonical_uuid i" "i \<in> dom (pg_jobs c w)"
  obtains w1 w' where "pg_UpdateStatus E c i Processing None w = (Ok (), w1)"
    and "CompleteQuoteUpdate (ProvideFXRatesService E rp st) c i
          (\<lambda>c'. FetchQuote (ProvideFXRatesService E rp st) c' p) src w1 = (Ok (), w')"
    and "world_ok c w'"
    and "pg_jobs c w' = (\<lambda>k. if k = i then map_option done_view (pg_jobs c w k) else pg_jobs c w k)"
proof -
  have up: "uuid_param E i = Some i" using i(1) by (simp add: uuid_param_def)
  obtain w1 where st: "pg_UpdateStatus E c i Processing None w = (Ok (), w1)"
    using pg_update_answers [OF ans _ up i(2), where st = Processing and err = None]
    by (auto simp: tx_open_def top)
  have w1: "world_ok c w1" using io_keepsD [OF pg_keeps(2) w, of E c i Processing None] by (simp add: st)
  have j1: "pg_jobs c w1 = set_job i Processing None (pg_jobs c w)"
    by (rule pg_update_effect [OF st]) (use i(1) in auto)
  then have d: "i \<in> dom (pg_jobs c w1)" using i(2) by simp
  obtain w' where "CompleteQuoteUpdate (ProvideFXRatesService E rp st) c i
      (\<lambda>c'. FetchQuote (ProvideFXRatesService E rp st) c' p) src w1 = (Ok (), w')"
    and "world_ok c w'" and "pg_jobs c w' = set_job i Done None (pg_jobs c w1)"
    by (rule completion_answers [OF ans top rp w1 i(1) d])
  with st show thesis by (intro that) (simp_all add: j1 set_job_twice)
qed

lemma process_jobs_answers:
  assumes ans: "answering E c" and top: "ctx_tx c = None" and rp: "rate_answers E rp"
    and "world_ok c w" and "\<forall>(i, p) \<in> set xs. is_canonical_uuid i \<and> i \<in> dom (pg_jobs c w)"
    and "distinct (map fst xs)"
  shows "\<exists>w'. process_jobs (ProvideFXRatesService E rp st) c xs e w = (Ok e, w') \<and> world_ok c w' \<and>
    pg_jobs c w' = (\<lambda>k. if k \<in> fst ` set xs then map_option done_view (pg_jobs c w k) else pg_jobs c w k)"
  using assms(4-6)
proof (induction xs arbitrary: w)
  case Nil
  then show ?case by (simp add: io_simps)
next
  case (Cons x xs)
  obtain i p where x: "x = (i, p)" by fastforce
  with Cons.prems have i: "is_canonical_uuid i" "i \<in> dom (pg_jobs c w)" by auto
  obtain w1 w2 where st: "pg_UpdateStatus E c i Processing None w = (Ok (), w1)"
    and cp: "CompleteQuoteUpdate (ProvideFXRatesService E rp st) c i
          (\<lambda>c'. FetchQuote (ProvideFXRatesService E rp st) c' p) ''db'' w1 = (Ok (), w2)"
    and w2: "world_ok c w2"
    and j2: "pg_jobs c w2 = (\<lambda>k. if k = i then map_option done_view (pg_jobs c w k) else pg_jobs c w k)"
    by (rule one_job_answers [OF ans top rp Cons.prems(1) i])
  have "\<forall>(i, p) \<in> set xs. is_canonical_uuid i \<and> i \<in> dom (pg_jobs c w2)"
    using Cons.prems(2) by (auto simp: j2 dom_def)
  moreover have "distinct (map fst xs)" and i_new: "i \<notin> fst ` set xs" using Cons.prems(3) x by auto
  ultimately obtain w' where "process_jobs (ProvideFXRatesService E rp st) c xs e w2 = (Ok e, w')"
    and "world_ok c w'"
    and "pg_jobs c w' = (\<lambda>k. if k \<in> fst ` set xs then map_option done_view (pg_jobs c w2 k) else pg_jobs c w2 k)"
    using Cons.IH [OF w2] by blast
  then show ?case using i_new by (intro exI [of _ w']) (auto simp: x io_simps st cp j2 fun_eq_iff)
qed

lemma claimable_queued:
  assumes "tables_ok T" and "env_locked E n = []"
  shows "length (claimable E n T) = card (queued_ids (jobs_of T))"
    and "ju_id ` set (claimable E n T) = queued_ids (jobs_of T)"
proof -
  have "ju_id ` set (claimable E n T) = queued_ids (jobs_of T)"
  proof (intro equalityI subsetI)
    fix i assume "i \<in> ju_id ` set (claimable E n T)"
    then obtain r where "r \<in> set (t_jobs T)" "ju_status r = ''queued''" "i = ju_id r"
      by (auto simp: claimable_def)
    with jobs_of_row [OF assms(1)] show "i \<in> queued_ids (jobs_of T)"
      by (auto simp: queued_ids_def job_of_row_def)
  next
    fix i assume "i \<in> queued_ids (jobs_of T)"
    then obtain r where "r \<in> set (t_jobs T)" "ju_id r = i" "status_of_text (ju_status r) = Queued"
      by (auto simp: queued_ids_def jobs_of_def job_of_row_def dest!: map_of_SomeD)
    then show "i \<in> ju_id ` set (claimable E n T)" by (force simp: claimable_def assms(2))
  qed
  moreover have "distinct (map ju_id (claimable E n T))"
    unfolding claimable_def using assms(1) by (intro distinct_map_filter) (simp add: tables_ok_def)
  ultimately show "length (claimable E n T) = card (queued_ids (jobs_of T))"
    and "ju_id ` set (claimable E n T) = queued_ids (jobs_of T)"
    using distinct_card [of "map ju_id (claimable E n T)"] by simp_all
qed

lemma claim_answers:
  assumes ans: "answering E c" and top: "ctx_tx c = None" and w: "world_ok c w"
    and free: "\<forall>n. env_locked E n = []" and lmt: "0 \<le> lmt"
  obtains xs w1 where "pg_ClaimQueued E c lmt w = (Ok xs, w1)" and "world_ok c w1" and "distinct (map fst xs)"
    and "\<forall>(i, p) \<in> set xs. is_canonical_uuid i \<and> i \<in> dom (pg_jobs c w1)"
    and "fst ` set xs \<subseteq> queued_ids (pg_jobs c w)"
    and "card (fst ` set xs) = min (nat lmt) (card (queued_ids (pg_jobs c w)))"
    and "pg_jobs c w1 = claim_jobs (fst ` set xs) (pg_jobs c w)"
proof -
  have "stmt_answers (sql_claim E lmt) (pg_view c w)"
    using lmt by (simp add: stmt_answers_def sql_claim_def Let_def)
  moreover have "tx_open c w" by (simp add: tx_open_def top)
  ultimately obtain xs w1 now n where
    run: "pg_run E c (sql_claim E lmt) w = (Ok xs, w1)"
    and cl: "sql_claim E lmt now n (pg_view c w) = Inr (xs, pg_view c w1)"
    using pg_run_answers [OF ans, of w "sql_claim E lmt"] by metis
  note ok = world_ok_view [OF w, of c]
  note c1 = claim_count [OF ok cl] and c2 = claim_jobs_of [OF ok cl]
  note q = claimable_queued [OF ok free [rule_format]]
  have "world_ok c w1" using io_keepsD [OF pg_keeps(3) w, of E c lmt] by (simp add: pg_ClaimQueued_def run)
  moreover have "fst ` set xs \<subseteq> queued_ids (pg_jobs c w)" using c1 q by (simp add: pg_jobs_def)
  moreover have "card (fst ` set xs) = min (nat lmt) (card (queued_ids (pg_jobs c w)))"
    using c1 q distinct_card [OF c2(1)] by (simp add: pg_jobs_def)
  moreover have j1: "pg_jobs c w1 = claim_jobs (fst ` set xs) (pg_jobs c w)" using c2(3) by (simp add: pg_jobs_def)
  moreover have "\<forall>(i, p) \<in> set xs. is_canonical_uuid i \<and> i \<in> dom (pg_jobs c w1)"
    using c2(2) unfolding j1 by (auto simp: pg_jobs_def)
  ultimately show thesis using run c2(1) by (intro that [of xs w1]) (simp_all add: pg_ClaimQueued_def)
qed

lemma batch_answers:
  assumes ans: "answering E c" and top: "ctx_tx c = None" and rp: "rate_answers E rp"
    and w: "world_ok c w" and free: "\<forall>n. env_locked E n = []" and lmt: "0 \<le> lmt"
  shows "\<exists>w' ids. ProcessQueueBatch (ProvideFXRatesService E rp st) c lmt w = (Ok (), w') \<and>
    world_ok c w' \<and> ids \<subseteq> queued_ids (pg_jobs c w) \<and>
    card ids = min (nat lmt) (card (queued_ids (pg_jobs c w))) \<and>
    pg_jobs c w' = (\<lambda>k. if k \<in> ids then map_option done_view (pg_jobs c w k) else pg_jobs c w k)"
proof -
  let ?svc = "ProvideFXRatesService E rp st"
  obtain xs w1 where run: "pg_ClaimQueued E c lmt w = (Ok xs, w1)" and w1: "world_ok c w1"
    and d: "distinct (map fst xs)" and here: "\<forall>(i, p) \<in> set xs. is_canonical_uuid i \<and> i \<in> dom (pg_jobs c w1)"
    and ids: "fst ` set xs \<subseteq> queued_ids (pg_jobs c w)"
    and card: "card (fst ` set xs) = min (nat lmt) (card (queued_ids (pg_jobs c w)))"
    and j1: "pg_jobs c w1 = claim_jobs (fst ` set xs) (pg_jobs c w)"
    by (rule claim_answers [OF ans top w free lmt])
  from process_jobs_answers [OF ans top rp w1 here d] obtain w' where
    p: "process_jobs ?svc c xs None w1 = (Ok None, w')" and w': "world_ok c w'"
    and j': "pg_jobs c w' = (\<lambda>k. if k \<in> fst ` set xs then map_option done_view (pg_jobs c w1 k) else pg_jobs c w1 k)"
    by blast
  have "ProcessQueueBatch ?svc c lmt w = (Ok (), w')"
    by (simp add: ProcessQueueBatch_def io_simps run p)
  moreover have "pg_jobs c w' = (\<lambda>k. if k \<in> fst ` set xs then map_option done_view (pg_jobs c w k) else pg_jobs c w k)"
    by (auto simp: j' j1 claim_jobs_def fun_eq_iff done_view_def [abs_def] option.map_comp comp_def)
  ultimately show ?thesis using ids card w' by blast
qed

text \<open>
  C13: When the server and the rate provider answer and no row is locked elsewhere, a batch
  returns without error and has completed as many queued jobs as there are up to the limit:
  these are done without an error text, and every other job is as it was.
\<close>

theorem batch_completes:
  assumes ans: "answering E c" and top: "ctx_tx c = None" and rp: "rate_answers E rp"
    and w: "world_ok c w" and free: "\<forall>n. env_locked E n = []" and lmt: "0 \<le> lmt"
  shows "\<exists>w' ids. ProcessQueueBatch (ProvideFXRatesService E rp st) c lmt w = (Ok (), w') \<and>
    world_ok c w' \<and> ids \<subseteq> queued_ids (pg_jobs c w) \<and>
    card ids = min (nat lmt) (card (queued_ids (pg_jobs c w))) \<and>
    pg_jobs c w' = (\<lambda>k. if k \<in> ids then map_option done_view (pg_jobs c w k) else pg_jobs c w k)"
  using assms by (rule batch_answers)

lemma demo_rate_answers: "rate_answers demo_env demo_rate"
proof -
  have "numeric_param demo_env (Fin (5/4)) = Inr (Num 1250000)" by code_simp
  then show ?thesis by (auto simp: rate_answers_def demo_rate_def io_simps)
qed

lemma batch_completes_witness:
  "\<exists>w' ids. ProcessQueueBatch demo_svc ctx_background 5 demo_world = (Ok (), w') \<and>
    world_ok ctx_background w' \<and> ids \<subseteq> queued_ids (pg_jobs ctx_background demo_world) \<and>
    card ids = min 5 (card (queued_ids (pg_jobs ctx_background demo_world))) \<and>
    pg_jobs ctx_background w' = (\<lambda>k. if k \<in> ids then map_option done_view (pg_jobs ctx_background demo_world k)
      else pg_jobs ctx_background demo_world k)"
  using batch_completes [OF demo_answering demo_ctx demo_rate_answers demo_world_ok, of 5 NoopIdempotency]
  by (simp add: demo_env_def)

text \<open>
  C32: A job that is not queued (one left \<open>processing\<close> by a worker that died or whose
  transaction failed, for instance) is never touched by a batch again: any number of batches, in
  any environment, leaves it as it is.
\<close>

theorem unqueued_never_reclaimed:
  assumes w: "world_ok c w" and top: "ctx_tx c = None"
    and j: "pg_jobs c w i = Some j" and nq: "jv_status j \<noteq> Queued"
  shows "pg_jobs c (((\<lambda>w. snd (ProcessQueueBatch (ProvideFXRatesService E rp st) c n w)) ^^ k) w) i = Some j"
proof -
  let ?batch = "\<lambda>w. snd (ProcessQueueBatch (ProvideFXRatesService E rp st) c n w)"
  have "world_ok c ((?batch ^^ k) w) \<and> pg_jobs c ((?batch ^^ k) w) i = Some j"
  proof (induction k)
    case 0
    then show ?case using w j by simp
  next
    case (Suc k)
    then have ok: "world_ok c ((?batch ^^ k) w)" and old: "pg_jobs c ((?batch ^^ k) w) i = Some j" by auto
    from pg_fx.batch_moves [OF ok top, of E rp st n] obtain ids where
      q: "\<forall>i \<in> ids. \<exists>j. pg_jobs c ((?batch ^^ k) w) i = Some j \<and> jv_status j = Queued"
      and b: "world_ok c (?batch ((?batch ^^ k) w))"
      and m: "moved ids (pg_jobs c ((?batch ^^ k) w)) (pg_jobs c (?batch ((?batch ^^ k) w)))" by metis
    from q old nq have "i \<notin> ids" by force
    then have "pg_jobs c (?batch ((?batch ^^ k) w)) i = Some j" using m old by (simp add: moved_def)
    with b show ?case by simp
  qed
  then show ?thesis by blast
qed

definition stuck_world :: "unit world" where
  "stuck_world = demo_world\<lparr>committed := demo_tables\<lparr>t_jobs := [(demo_job 1 7)\<lparr>ju_status := ''processing''\<rparr>]\<rparr>\<rparr>"

lemma unqueued_never_reclaimed_witness:
  "pg_jobs ctx_background
     (((\<lambda>w. snd (ProcessQueueBatch demo_svc ctx_background 5 w)) ^^ 1000) stuck_world) demo_id =
   Some \<lparr>jv_pair = ''USD/EUR'', jv_status = Processing, jv_error = None\<rparr>"
proof -
  have "tables_ok (demo_tables\<lparr>t_jobs := [(demo_job 1 7)\<lparr>ju_status := ''processing''\<rparr>]\<rparr>)" by code_simp
  then have ok: "world_ok ctx_background stuck_world" by (simp add: world_ok_def stuck_world_def demo_world_def)
  have j: "pg_jobs ctx_background stuck_world demo_id =
      Some \<lparr>jv_pair = ''USD/EUR'', jv_status = Processing, jv_error = None\<rparr>"
    by (simp add: pg_jobs_def pg_view_def stuck_world_def demo_world_def jobs_of_def demo_job_def
        demo_id_def job_of_row_def)
  show ?thesis by (rule unqueued_never_reclaimed [OF ok demo_ctx j]) simp
qed

text \<open>
  A completion whose fetch failed returns the fetch's error, writes no quote and no history,
  and marks the job failed with the error's text, or leaves it as it was when that write was
  refused (its error is dropped).
\<close>

theorem completion_fetch_failed:
  assumes "fetch c w = (Err e, w1)" and "world_ok c w1"
    and "CompleteQuoteUpdate (ProvideFXRatesService E rp st) c i fetch src w = (r, w')"
  shows "r = Err e \<and> pg_quotes c w' = pg_quotes c w1 \<and> pg_history c w' = pg_history c w1 \<and>
    (pg_jobs c w' = pg_jobs c w1 \<or>
     pg_jobs c w' = set_job (uuid_key E i) Failed (Some (error_text e)) (pg_jobs c w1))"
  using pg_fx.complete_fetch_failed [where fetch = fetch, OF assms(1,2), of E rp st i src] assms(3) by auto

lemma completion_fetch_failed_witness:
  "pg_jobs ctx_background (snd (CompleteQuoteUpdate (demo_fx demo_env down_rate) ctx_background demo_id
     (\<lambda>c. FetchQuote (demo_fx demo_env down_rate) c ''USD/EUR'') ''db'' demo_world)) demo_id
   \<in> {Some \<lparr>jv_pair = ''USD/EUR'', jv_status = Queued, jv_error = None\<rparr>,
      Some \<lparr>jv_pair = ''USD/EUR'', jv_status = Failed, jv_error = Some ''connection refused''\<rparr>}"
proof -
  let ?fetch = "\<lambda>c. FetchQuote (demo_fx demo_env down_rate) c ''USD/EUR''"
  have f: "?fetch ctx_background demo_world = (Err (Foreign ''connection refused''), tick demo_world)"
    by (simp add: FetchQuote_def outside_rate_def outside_def down_rate_def io_simps demo_world_def)
  obtain r w' where run: "CompleteQuoteUpdate (demo_fx demo_env down_rate) ctx_background demo_id ?fetch ''db''
      demo_world = (r, w')" by fastforce
  from completion_fetch_failed [where fetch = ?fetch, OF f _ run] show ?thesis
    by (auto simp: run demo_present)
qed

subsection \<open>Reading back\<close>

text \<open>The history row that \<open>GetByID\<close> reads, in terms of the callers' view of the history.\<close>

lemma job_history_none:
  "(\<forall>(p, v, t, src, u) \<in> hist_of T. u \<noteq> Some i) \<Longrightarrow> job_history E n T i = []"
  by (auto simp: job_history_def hist_of_def hist_of_row_def filter_empty_conv)

lemma job_history_one:
  assumes "(p, v, t, src, Some i) \<in> hist_of T"
    and "\<forall>(p', v', t', src', u) \<in> hist_of T. u = Some i \<longrightarrow> v' = v \<and> t' = t"
  obtains h where "job_history E n T i = [h]" and "hi_price h = v" and "hi_quoted h = t"
proof -
  let ?xs = "sort_key (\<lambda>h. - hi_quoted h)
       (sort_key (\<lambda>h. env_scan E n (hi_source h)) (filter (\<lambda>h. hi_update h = Some i) (t_hist T)))"
  have "set ?xs = {h \<in> set (t_hist T). hi_update h = Some i}" by simp
  moreover have "\<dots> \<noteq> {}" using assms(1) by (auto simp: hist_of_def hist_of_row_def)
  ultimately obtain h hs where xs: "?xs = h # hs" by (metis list.exhaust list.set(1))
  then have "h \<in> set ?xs" by simp
  then have "h \<in> set (t_hist T)" "hi_update h = Some i" by simp_all
  then have "hist_of_row h \<in> hist_of T" by (simp add: hist_of_def)
  with assms(2) \<open>hi_update h = Some i\<close> have "hi_price h = v" "hi_quoted h = t"
    by (auto simp: hist_of_row_def)
  moreover have "job_history E n T i = [h]" by (simp add: job_history_def xs)
  ultimately show thesis by (intro that)
qed

lemma sql_get_job_present:
  assumes "uuid_param E i = Some k" and "k \<in> dom (jobs_of T)"
  shows "\<exists>r. ju_id r = k \<and> jobs_of T k = Some (job_of_row r) \<and>
    sql_get_job E i now n T = Inr (Some (job_result_of r (job_history E n T k)), T)"
proof -
  have "filter (\<lambda>r. ju_id r = k) (t_jobs T) \<noteq> []"
    using assms(2) by (auto simp: jobs_of_present filter_empty_conv)
  then obtain r rs where f: "filter (\<lambda>r. ju_id r = k) (t_jobs T) = r # rs"
    by (meson list.exhaust)
  then have "ju_id r = k" by (rule filter_hd [where k = ju_id])
  with f assms(1) show ?thesis by (auto simp: sql_get_job_def jobs_of_eq)
qed

lemma GetQuoteUpdate_answers:
  assumes ans: "answering E c" and top: "ctx_tx c = None"
    and i: "uuid_param E i = Some k" "k \<in> dom (pg_jobs c w)"
  obtains r n w' where "ju_id r = k" and "pg_jobs c w k = Some (job_of_row r)"
    and "GetQuoteUpdate (ProvideFXRatesService E rp st) c i w =
      (Ok (job_of_result (job_result_of r (job_history E n (pg_view c w) k))), w')"
proof -
  let ?T = "pg_view c w"
  have present: "\<exists>r. ju_id r = k \<and> jobs_of ?T k = Some (job_of_row r) \<and>
    sql_get_job E i now n ?T = Inr (Some (job_result_of r (job_history E n ?T k)), ?T)" for now n
    by (rule sql_get_job_present) (use i in \<open>simp_all add: pg_jobs_def\<close>)
  then have "stmt_answers (sql_get_job E i) ?T" unfolding stmt_answers_def by blast
  moreover have "tx_open c w" by (simp add: tx_open_def top)
  ultimately obtain a w' now n where run: "pg_run E c (sql_get_job E i) w = (Ok a, w')"
    and st: "sql_get_job E i now n ?T = Inr (a, pg_view c w')"
    using pg_run_answers [OF ans, of w "sql_get_job E i"] by metis
  from present [of now n] st obtain r where "ju_id r = k" "jobs_of ?T k = Some (job_of_row r)"
    and "a = Some (job_result_of r (job_history E n ?T k))" by auto
  with run show thesis
    by (intro that [of r n w']) (simp_all add: GetQuoteUpdate_def pg_GetByID_def io_simps pg_jobs_def)
qed

text \<open>The history a lookup finds, after the completion of an update that had none.\<close>

lemma completed_history:
  assumes hist: "pg_history c w' = add_history E (history_of q src i) (pg_history c w1)" and k: "uuid_param E i = Some k"
    and fresh: "\<forall>(p, v, t, s, u) \<in> pg_history c w1. u \<noteq> Some k"
  shows "if \<exists>v upd. (Q_Pair q, v, env_micros E (Q_UpdatedAt q), src, upd) \<in> pg_history c w1
     then job_history E n (pg_view c w') k = []
     else \<exists>x. job_history E n (pg_view c w') k = [x] \<and> hi_price x = to_numeric E (Q_Price q) \<and>
       hi_quoted x = env_micros E (Q_UpdatedAt q)"
proof (cases "\<exists>v upd. (Q_Pair q, v, env_micros E (Q_UpdatedAt q), src, upd) \<in> pg_history c w1")
  case True
  then have "pg_history c w' = pg_history c w1" by (auto simp: hist add_history_def history_of_def)
  with fresh have "job_history E n (pg_view c w') k = []"
    by (intro job_history_none) (simp add: pg_history_def)
  with True show ?thesis by simp
next
  case False
  then have h: "pg_history c w' = insert (Q_Pair q, to_numeric E (Q_Price q), env_micros E (Q_UpdatedAt q), src,
      Some k) (pg_history c w1)"
    using k by (auto simp: hist add_history_def history_of_def)
  obtain x where "job_history E n (pg_view c w') k = [x]" and "hi_price x = to_numeric E (Q_Price q)"
    and "hi_quoted x = env_micros E (Q_UpdatedAt q)"
  proof (rule job_history_one)
    show "(Q_Pair q, to_numeric E (Q_Price q), env_micros E (Q_UpdatedAt q), src, Some k) \<in> hist_of (pg_view c w')"
      using h by (simp add: pg_history_def)
    show "\<forall>(p', v', t', src', u) \<in> hist_of (pg_view c w'). u = Some k \<longrightarrow>
        v' = to_numeric E (Q_Price q) \<and> t' = env_micros E (Q_UpdatedAt q)"
      using h fresh by (auto simp: pg_history_def)
  qed
  with False show ?thesis by auto
qed

text \<open>
  C25: What a client reads of an update that was completed (and had no history entry before):
  status done and no error; and the price is the fetched one as the database stores it, with the
  quote's instant, except when the history already had an entry of the same pair, instant and
  source, in which case the update is done without a price.
\<close>

theorem completed_update_reads_back:
  assumes ans: "answering E c" and top: "ctx_tx c = None" and w: "world_ok c w1"
    and fetch: "fetch c w = (Ok q, w1)" and k: "uuid_param E i = Some k"
    and run: "CompleteQuoteUpdate (ProvideFXRatesService E rp st) c i fetch src w = (Ok (), w')"
    and fresh: "\<forall>(p, v, t, s, u) \<in> pg_history c w1. u \<noteq> Some k"
  shows "\<exists>u w''. GetQuoteUpdate (ProvideFXRatesService E rp st) c i w' = (Ok u, w'') \<and>
    U_ID u = k \<and> U_Status u = Done \<and> U_Error u = None \<and>
    (if \<exists>v upd. (Q_Pair q, v, env_micros E (Q_UpdatedAt q), src, upd) \<in> pg_history c w1
     then U_Price u = None
     else U_Price u = Some (numeric_float8 (to_numeric E (Q_Price q))) \<and>
          U_UpdatedAt u = env_micros E (Q_UpdatedAt q) * 1000)"
proof -
  let ?svc = "ProvideFXRatesService E rp st" and ?T = "pg_view c w'"
  note eff = pg_fx.complete_ok [where fetch = fetch, OF fetch w top run]
  have j: "pg_jobs c w' = set_job k Done None (pg_jobs c w1)" and kd: "k \<in> dom (pg_jobs c w1)"
    and hist: "pg_history c w' = add_history E (history_of q src i) (pg_history c w1)"
    using eff k by simp_all
  have "k \<in> dom (pg_jobs c w')" using j kd by simp
  from GetQuoteUpdate_answers [OF ans top k this, of rp st] obtain r n w'' where
    r: "ju_id r = k" "pg_jobs c w' k = Some (job_of_row r)"
    and get: "GetQuoteUpdate ?svc c i w' = (Ok (job_of_result (job_result_of r (job_history E n ?T k))), w'')"
    by metis
  let ?u = "job_of_result (job_result_of r (job_history E n ?T k))"
  have rest: "U_ID ?u = k \<and> U_Status ?u = Done \<and> U_Error ?u = None"
  proof -
    obtain y where y: "pg_jobs c w1 k = Some y" using kd by blast
    with r j have "job_of_row r = y\<lparr>jv_status := Done, jv_error := None\<rparr>" by simp
    then have "jv_status (job_of_row r) = Done" and "jv_error (job_of_row r) = None" by simp_all
    with r show ?thesis by (simp add: job_of_result_def job_result_of_def job_of_row_def)
  qed
  have "if \<exists>v upd. (Q_Pair q, v, env_micros E (Q_UpdatedAt q), src, upd) \<in> pg_history c w1
     then U_Price ?u = None
     else U_Price ?u = Some (numeric_float8 (to_numeric E (Q_Price q))) \<and>
          U_UpdatedAt ?u = env_micros E (Q_UpdatedAt q) * 1000"
    using completed_history [OF hist k fresh, of n]
    by (auto simp: job_of_result_def job_result_of_def split: if_splits)
  with get rest show ?thesis by blast
qed

lemma completed_update_reads_back_witness:
  "\<exists>u w''. GetQuoteUpdate demo_svc ctx_background demo_id
      (snd (CompleteQuoteUpdate demo_svc ctx_background demo_id demo_fetch ''db'' demo_world)) = (Ok u, w'') \<and>
    U_Status u = Done \<and> U_Price u = Some (Fin (5/4)) \<and> U_UpdatedAt u = 7000000"
proof -
  obtain r w' where run: "CompleteQuoteUpdate demo_svc ctx_background demo_id demo_fetch ''db'' demo_world = (r, w')"
    by fastforce
  have "fst (CompleteQuoteUpdate demo_svc ctx_background demo_id demo_fetch ''db'' demo_world) = Ok ()"
    by code_simp
  with run have r: "CompleteQuoteUpdate demo_svc ctx_background demo_id demo_fetch ''db'' demo_world = (Ok (), w')"
    by simp
  have k: "uuid_param demo_env demo_id = Some demo_id" by (simp add: uuid_param_def demo_id_def)
  have none: "pg_history ctx_background (tick demo_world) = {}"
    by (simp add: pg_history_def pg_view_def hist_of_def demo_world_def demo_tables_def)
  have v: "numeric_float8 (to_numeric demo_env (Q_Price demo_quote)) = Fin (5/4)"
    and t: "env_micros demo_env (Q_UpdatedAt demo_quote) * 1000 = 7000000" by code_simp+
  have w: "world_ok ctx_background (tick demo_world)" by simp
  show ?thesis
    using completed_update_reads_back [where fetch = demo_fetch, OF demo_answering demo_ctx w demo_fetch_eq k r]
    by (auto simp: none v t r)
qed

subsection \<open>The price that is stored\<close>

lemma round_away_error: "\<bar>of_int (round_away x) - x\<bar> \<le> (1/2 :: rat)"
proof -
  have f: "of_int \<lfloor>y\<rfloor> \<le> y" "y < of_int \<lfloor>y\<rfloor> + 1" for y :: rat by linarith+
  show ?thesis
    using f [of "x + 1/2"] f [of "- x + 1/2"]
    by (cases "x < 0") (simp_all only: round_away_def if_True if_False abs_le_iff of_int_minus, linarith+)
qed

lemma tiny_le: "(2::rat) powi (-1075) \<le> 1 / 2 ^ 54"
proof -
  have "(2::rat) powi (-1075) \<le> 2 powi (-54)" by (rule power_int_increasing) simp_all
  then show ?thesis by (simp add: power_int_minus_divide)
qed

lemma f64_error_sum:
  assumes "f64 x = Fin y"
  shows "\<bar>y - x\<bar> \<le> (\<bar>x\<bar> + 1/2) / 2 ^ 53"
proof -
  have b: "(2::rat) powi (-53) = 1 / 2 ^ 53" by (simp add: power_int_minus_divide)
  have "max (\<bar>x\<bar> * 2 powi (-53)) (2 powi (-1075)) \<le> \<bar>x\<bar> / 2 ^ 53 + 1 / 2 ^ 54"
    using tiny_le unfolding b by (simp add: max_def)
  with f64_error [OF assms] show ?thesis by (simp add: field_simps)
qed

lemma f64_finite:
  assumes "\<bar>x\<bar> < 2 ^ 1000"
  obtains y where "f64 x = Fin y"
proof -
  let ?y = "round_prec 53 (-1074) x"
  have b: "(2::rat) powi (-53) = 1 / 2 ^ 53" by (simp add: power_int_minus_divide)
  have "max (\<bar>x\<bar> * 2 powi (-53)) (2 powi (-1075)) \<le> \<bar>x\<bar> / 2 ^ 53 + 1 / 2 ^ 54"
    using tiny_le unfolding b by (simp add: max_def)
  then have e: "\<bar>?y - x\<bar> \<le> \<bar>x\<bar> + 1" using round_prec_error [of 53 "-1074" x] by simp
  have "(2::rat) * 2 ^ 1000 + 1 < 2 ^ 1024" by simp
  with e assms have "\<bar>?y\<bar> < 2 ^ 1024" by linarith
  then have "f64 x = Fin ?y" by (simp add: f64_def overflow_small)
  then show thesis by (rule that)
qed

text \<open>
  C26: A finite price that was stored reads back, as the last quote of its pair, within half a
  millionth and a few float64 roundings of itself. (\<open>env_decimal\<close> is the decimal text the
  driver sends for a float64, which parses back to the same float64.)
\<close>

theorem stored_price_close:
  assumes w: "world_ok c w" and price: "Q_Price q = Fin r" and dec: "f64 (env_decimal E r) = Fin r"
    and up: "pg_Upsert E c q w = (Ok (), w1)"
    and get: "GetLastQuote (ProvideFXRatesService E rp st) c (Q_Pair q) w1 = (Ok q', w2)"
  shows "\<exists>r'. Q_Price q' = Fin r' \<and> \<bar>r' - r\<bar> \<le> 1 / 2000000 + (4 * \<bar>r\<bar> + 3) / 2 ^ 53"
proof -
  let ?d = "env_decimal E r" and ?m = "round_away (env_decimal E r * 10 ^ 6)"
  define x :: rat where "x = of_int ?m / 10 ^ 6"
  from get have "pg_GetLast E c (Q_Pair q) w1 = (Ok q', w2)"
    by (auto simp: GetLastQuote_def io_simps split: outcome.splits prod.splits sum.splits if_splits)
  then have "q' = pg_dec (Q_Pair q) (pg_enc E q)"
    using pg_quote.last_after_upsert [OF w, of E q w1] up by simp
  then have q': "Q_Price q' = f64 x"
    by (simp add: pg_dec_def pg_enc_def to_numeric_def price numeric_float8_def x_def)
  from up obtain n w' where "pg_run E c (sql_upsert_quote E (Q_Pair q) (Q_Price q) (Q_UpdatedAt q)) w = (Ok n, w')"
    by (auto simp: pg_Upsert_def io_simps split: outcome.splits prod.splits)
  then obtain now t where "sql_upsert_quote E (Q_Pair q) (Q_Price q) (Q_UpdatedAt q) now t (pg_view c w) = Inr (n, pg_view c w')"
    by (rule pg_run_ok)
  then have "\<bar>?m\<bar> < 10 ^ 18"
    by (auto simp: sql_upsert_quote_def numeric_param_def price to_numeric_def numeric_fits_def
        split: sum.splits if_splits)
  then have "\<bar>of_int ?m :: rat\<bar> < of_int (10 ^ 18)" by (simp only: of_int_abs [symmetric] of_int_less_iff)
  then have "\<bar>x\<bar> < 10 ^ 12" by (simp add: x_def)
  moreover have "(10::rat) ^ 12 < 2 ^ 1000" by simp
  ultimately have "\<bar>x\<bar> < 2 ^ 1000" by linarith
  then obtain y where y: "f64 x = Fin y" by (rule f64_finite)
  have "\<bar>x - ?d\<bar> \<le> 1 / 2000000"
    using round_away_error [of "?d * 10 ^ 6"] by (simp add: x_def field_simps abs_if split: if_splits)
  moreover have "\<bar>y - x\<bar> \<le> (\<bar>x\<bar> + 1/2) / 2 ^ 53" by (rule f64_error_sum [OF y])
  moreover have "\<bar>r - ?d\<bar> \<le> (\<bar>?d\<bar> + 1/2) / 2 ^ 53" by (rule f64_error_sum [OF dec])
  ultimately have "\<bar>y - r\<bar> \<le> 1 / 2000000 + (4 * \<bar>r\<bar> + 3) / 2 ^ 53"
    by (simp add: abs_if field_simps split: if_splits)
  with q' y show ?thesis by (intro exI [of _ y]) simp
qed

lemma stored_price_close_witness:
  "\<exists>w1 q' w2 r'. pg_Upsert demo_env ctx_background demo_quote demo_world = (Ok (), w1) \<and>
    GetLastQuote demo_svc ctx_background ''USD/EUR'' w1 = (Ok q', w2) \<and>
    Q_Price q' = Fin r' \<and> \<bar>r' - 5/4\<bar> \<le> 1 / 2000000 + (4 * \<bar>5/4\<bar> + 3) / 2 ^ 53"
proof -
  obtain r1 w1 where up: "pg_Upsert demo_env ctx_background demo_quote demo_world = (r1, w1)" by fastforce
  have "fst (pg_Upsert demo_env ctx_background demo_quote demo_world) = Ok ()" by code_simp
  with up have up: "pg_Upsert demo_env ctx_background demo_quote demo_world = (Ok (), w1)" by simp
  obtain r2 w2 where get: "GetLastQuote demo_svc ctx_background ''USD/EUR'' w1 = (r2, w2)" by fastforce
  have "fst (GetLastQuote demo_svc ctx_background ''USD/EUR''
      (snd (pg_Upsert demo_env ctx_background demo_quote demo_world)))
    = Ok \<lparr>Q_Pair = ''USD/EUR'', Q_Price = Fin (5/4), Q_UpdatedAt = 7000000\<rparr>" by code_simp
  then obtain q' where r2: "r2 = Ok q'" using up get by (metis fst_conv snd_conv)
  have qp: "Q_Pair demo_quote = ''USD/EUR''" by (simp add: demo_quote_def)
  have dec: "f64 (env_decimal demo_env (5/4)) = Fin (5/4)" by code_simp
  have price: "Q_Price demo_quote = Fin (5/4)" by (simp add: demo_quote_def)
  have get: "GetLastQuote demo_svc ctx_background (Q_Pair demo_quote) w1 = (Ok q', w2)"
    using get r2 qp by simp
  from stored_price_close [OF demo_world_ok price dec up get] up get qp show ?thesis by metis
qed

end
