(* ===== verification/Config.thy ===== *)
theory Config
  imports Go_Strings "HOL-Library.Word"
begin

section \<open>Configuration\<close>

text \<open>
  \<^verbatim>\<open>internal/config/config.go\<close>: the settings of the service, read from the environment. The
  environment is a function from names to values, the empty string for an unset name. A number
  of milliseconds becomes a \<open>time.Duration\<close>, a 64-bit count of nanoseconds, by a multiplication
  that wraps around.
\<close>

type_synonym environ = "string \<Rightarrow> string"

record Config =
  cfg_Env :: string
  cfg_LogLevel :: string
  cfg_Port :: string
  cfg_DatabaseURL :: string
  cfg_ShutdownTimeout :: int
  cfg_Provider :: string
  cfg_ExchangeAPIBase :: string
  cfg_ExchangeAPIKey :: string
  cfg_HTTPBackoffInitial :: int
  cfg_HTTPBackoffMax :: int
  cfg_HTTPBackoffTotal :: int
  cfg_PGMaxConns :: int
  cfg_PGMinConns :: int
  cfg_WorkerType :: string
  cfg_WorkerPoll :: int
  cfg_WorkerBatchSize :: int
  cfg_GRPCAddr :: string
  cfg_GRPCTarget :: string
  cfg_RequestTimeout :: int
  cfg_RedisAddr :: string
  cfg_RedisPassword :: string
  cfg_RedisDB :: int
  cfg_RedisTTL :: int
  cfg_ChanQueueSize :: int
  cfg_ChanConcurrency :: int

definition getEnv :: "environ \<Rightarrow> string \<Rightarrow> string \<Rightarrow> string" where
  "getEnv env key d = (if env key \<noteq> [] then env key else d)"

definition atoiDef :: "string \<Rightarrow> int \<Rightarrow> int" where
  "atoiDef s d = (case go_atoi s of Some i \<Rightarrow> i | None \<Rightarrow> d)"

text \<open>\<open>time.Duration(i) * time.Millisecond\<close>\<close>

definition millis :: "int \<Rightarrow> int" where
  "millis i = sint (word_of_int i * word_of_int 1000000 :: 64 word)"

definition Load :: "environ \<Rightarrow> Config" where
  "Load env =
     \<lparr>cfg_Env = getEnv env ''ENV'' ''local'',
      cfg_LogLevel = getEnv env ''LOG_LEVEL'' ''info'',
      cfg_Port = getEnv env ''PORT'' ''8080'',
      cfg_DatabaseURL = getEnv env ''DATABASE_URL'' [],
      cfg_ShutdownTimeout = millis (atoiDef (getEnv env ''SHUTDOWN_TIMEOUT_MS'' ''10000'') 10000),
      cfg_Provider = getEnv env ''PROVIDER'' ''fake'',
      cfg_ExchangeAPIBase = getEnv env ''EXCHANGE_API_BASE'' ''https://api.exchangeratesapi.io'',
      cfg_ExchangeAPIKey = getEnv env ''EXCHANGE_API_KEY'' [],
      cfg_HTTPBackoffInitial = millis (atoiDef (getEnv env ''HTTP_BACKOFF_INITIAL_MS'' ''200'') 200),
      cfg_HTTPBackoffMax = millis (atoiDef (getEnv env ''HTTP_BACKOFF_MAX_MS'' ''1000'') 1000),
      cfg_HTTPBackoffTotal = millis (atoiDef (getEnv env ''HTTP_BACKOFF_TOTAL_MS'' ''3000'') 3000),
      cfg_PGMaxConns = atoiDef (getEnv env ''PG_MAX_CONNS'' ''5'') 5,
      cfg_PGMinConns = atoiDef (getEnv env ''PG_MIN_CONNS'' ''1'') 1,
      cfg_WorkerType = getEnv env ''WORKER_TYPE'' ''db'',
      cfg_WorkerPoll = millis (atoiDef (getEnv env ''WORKER_POLL_MS'' ''250'') 250),
      cfg_WorkerBatchSize = atoiDef (getEnv env ''WORKER_BATCH_LIMIT'' ''10'') 10,
      cfg_GRPCAddr = getEnv env ''GRPC_ADDR'' '':9090'',
      cfg_GRPCTarget = getEnv env ''GRPC_TARGET'' ''dns:///worker:9090'',
      cfg_RequestTimeout = millis (atoiDef (getEnv env ''REQUEST_TIMEOUT_MS'' ''3000'') 3000),
      cfg_RedisAddr = getEnv env ''REDIS_ADDR'' ''redis:6379'',
      cfg_RedisPassword = getEnv env ''REDIS_PASSWORD'' [],
      cfg_RedisDB = atoiDef (getEnv env ''REDIS_DB'' ''0'') 0,
      cfg_RedisTTL = millis (atoiDef (getEnv env ''IDEMPOTENCY_TTL_MS'' ''86400000'') 86400000),
      cfg_ChanQueueSize = atoiDef (getEnv env ''CHAN_QUEUE_SIZE'' ''100'') 100,
      cfg_ChanConcurrency = atoiDef (getEnv env ''CHAN_CONCURRENCY'' ''2'') 2\<rparr>"

text \<open>\<open>int32(x)\<close>\<close>

definition int32 :: "int \<Rightarrow> int" where
  "int32 x = sint (word_of_int x :: 32 word)"

lemma sint_word_of_int:
  "sint (word_of_int x :: 'a::len word) = (x + 2 ^ (LENGTH('a) - 1)) mod 2 ^ LENGTH('a) - 2 ^ (LENGTH('a) - 1)"
proof -
  obtain n where n: "LENGTH('a) = Suc n" by (cases "LENGTH('a)") auto
  then show ?thesis by (simp add: sint_sbintrunc' signed_take_bit_eq_take_bit_shift take_bit_eq_mod)
qed

lemma millis_eq: "millis i = (1000000 * i + 2 ^ 63) mod 2 ^ 64 - 2 ^ 63"
  unfolding millis_def wi_hom_mult sint_word_of_int by (simp add: mult.commute)

lemma int32_eq: "int32 x = (x + 2 ^ 31) mod 2 ^ 32 - 2 ^ 31"
  unfolding int32_def sint_word_of_int by simp

lemma millis_exact:
  assumes "\<bar>i\<bar> \<le> 9223372036854"
  shows "millis i = 1000000 * i"
proof -
  have "0 \<le> 1000000 * i + 2 ^ 63" and "1000000 * i + 2 ^ 63 < 2 ^ 64" using assms by simp_all
  then show ?thesis by (simp only: millis_eq mod_pos_pos_trivial)
qed

lemma int32_exact: "- (2 ^ 31) \<le> x \<Longrightarrow> x < 2 ^ 31 \<Longrightarrow> int32 x = x"
  by (simp add: int32_eq mod_pos_pos_trivial)

lemma atoiDef_show: "- (2 ^ 63) \<le> i \<Longrightarrow> i < 2 ^ 63 \<Longrightarrow> atoiDef (show_int i) d = i"
  by (simp add: atoiDef_def atoi_show_int)

subsection \<open>The duration settings\<close>

text \<open>
  Every setting of \<open>Config\<close> that is a \<open>time.Duration\<close>: its field, its variable, which counts
  milliseconds, and its default in milliseconds.
\<close>

definition duration_settings :: "((Config \<Rightarrow> int) \<times> string \<times> int) list" where
  "duration_settings =
     [(cfg_ShutdownTimeout, ''SHUTDOWN_TIMEOUT_MS'', 10000),
      (cfg_HTTPBackoffInitial, ''HTTP_BACKOFF_INITIAL_MS'', 200),
      (cfg_HTTPBackoffMax, ''HTTP_BACKOFF_MAX_MS'', 1000),
      (cfg_HTTPBackoffTotal, ''HTTP_BACKOFF_TOTAL_MS'', 3000),
      (cfg_WorkerPoll, ''WORKER_POLL_MS'', 250),
      (cfg_RequestTimeout, ''REQUEST_TIMEOUT_MS'', 3000),
      (cfg_RedisTTL, ''IDEMPOTENCY_TTL_MS'', 86400000)]"

text \<open>How one setting is read, given the text of its default.\<close>

lemma setting_read:
  assumes "atoiDef txt d = d"
  shows "atoiDef (getEnv env name txt) d = (case go_atoi (env name) of Some ms \<Rightarrow> ms | None \<Rightarrow> d)"
proof (cases "env name = []")
  case True
  moreover have "go_atoi [] = None" by (simp add: go_atoi_def)
  ultimately show ?thesis using assms by (simp add: getEnv_def)
qed (simp add: getEnv_def atoiDef_def)

lemma default_texts:
  "atoiDef ''10000'' 10000 = 10000" "atoiDef ''200'' 200 = 200" "atoiDef ''1000'' 1000 = 1000"
  "atoiDef ''3000'' 3000 = 3000" "atoiDef ''250'' 250 = 250" "atoiDef ''86400000'' 86400000 = 86400000"
  by (simp_all add: atoiDef_def go_atoi_def is_digit_def digit_val_def)

lemma duration_read:
  assumes "(field, name, d) \<in> set duration_settings"
  shows "field (Load env) = millis (case go_atoi (env name) of Some ms \<Rightarrow> ms | None \<Rightarrow> d)"
  using assms unfolding duration_settings_def
  by (auto simp: Load_def setting_read default_texts)

lemma duration_default: "(field, name, d) \<in> set duration_settings \<Longrightarrow> millis d = 1000000 * d"
  by (rule millis_exact) (auto simp: duration_settings_def)

lemma millis_exact_iff: "millis i = 1000000 * i \<longleftrightarrow> \<bar>i\<bar> \<le> 9223372036854"
proof
  assume e: "millis i = 1000000 * i"
  have "- (2 ^ 63) \<le> millis i" and "millis i < 2 ^ 63" by (simp_all add: millis_eq)
  then show "\<bar>i\<bar> \<le> 9223372036854" unfolding e by simp
qed (rule millis_exact)

text \<open>
  C38: Each of the seven duration settings is read from its own variable: a text that is not a
  64-bit decimal number, the empty one included, gives the default, and a number gives that many
  milliseconds, in nanoseconds that wrap around 64 bits; the duration is the one written exactly
  for numbers of at most 9223372036854 (292 years) either way, and a different one beyond.
\<close>

theorem duration_setting:
  assumes "(field, name, d) \<in> set duration_settings"
  shows "field (Load env) = (case go_atoi (env name) of
      None \<Rightarrow> 1000000 * d
    | Some ms \<Rightarrow> (1000000 * ms + 2 ^ 63) mod 2 ^ 64 - 2 ^ 63) \<and>
    (- (2 ^ 63) \<le> i \<and> i < 2 ^ 63 \<and> env name = show_int i \<longrightarrow>
      (field (Load env) = 1000000 * i \<longleftrightarrow> \<bar>i\<bar> \<le> 9223372036854))"
proof (intro conjI impI)
  note read = duration_read [OF assms, of env] and deflt = duration_default [OF assms]
  show "field (Load env) = (case go_atoi (env name) of None \<Rightarrow> 1000000 * d
    | Some ms \<Rightarrow> (1000000 * ms + 2 ^ 63) mod 2 ^ 64 - 2 ^ 63)"
    using read deflt by (simp add: millis_eq split: option.split)
  assume "- (2 ^ 63) \<le> i \<and> i < 2 ^ 63 \<and> env name = show_int i"
  then have "field (Load env) = millis i" using read by (simp add: atoi_show_int)
  then show "field (Load env) = 1000000 * i \<longleftrightarrow> \<bar>i\<bar> \<le> 9223372036854" by (simp add: millis_exact_iff)
qed

lemma duration_setting_witness:
  "cfg_WorkerPoll (Load (\<lambda>_. show_int 5)) = 5000000 \<and>
   cfg_RedisTTL (Load (\<lambda>_. [])) = 86400000000000 \<and>
   cfg_RedisTTL (Load (\<lambda>_. show_int 9223372036855)) \<noteq> 9223372036855000000"
proof -
  have w: "(cfg_WorkerPoll, ''WORKER_POLL_MS'', 250) \<in> set duration_settings"
    and r: "(cfg_RedisTTL, ''IDEMPOTENCY_TTL_MS'', 86400000) \<in> set duration_settings"
    by (simp_all add: duration_settings_def)
  have "go_atoi [] = None" by (simp add: go_atoi_def)
  then show ?thesis
    using duration_setting [OF w, of "\<lambda>_. show_int 5" 5] duration_setting [OF r, of "\<lambda>_. []"]
      duration_setting [OF r, of "\<lambda>_. show_int 9223372036855" 9223372036855]
    by simp
qed

end
