(* ===== verification/Workers.thy ===== *)
theory Workers
  imports Service Config
begin

section \<open>The background workers\<close>

text \<open>
  \<^verbatim>\<open>internal/infrastructure/worker\<close> and the channel of \<^verbatim>\<open>internal/bootstrap/providers.go\<close>
  between the API and its workers. The loop of a worker is a function of the events its
  \<open>select\<close> takes, in order: which ready case it takes and when is not determined by the code.
\<close>

subsection \<open>The channel\<close>

record UpdateMsg =
  um_ID :: string
  um_Pair :: string
  um_TraceID :: string

text \<open>
  A channel: the messages sent and not yet received, its capacity, the number of receivers that
  wait on it (each can take one message directly), and whether it is closed.
\<close>

record 'm chan =
  ch_queue :: "'m list"
  ch_cap :: nat
  ch_idle :: nat
  ch_closed :: bool

definition make_chan :: "int \<Rightarrow> 'm chan outcome" where
  "make_chan n = (if n < 0 then Panic ''makechan: size out of range''
     else Ok \<lparr>ch_queue = [], ch_cap = nat n, ch_idle = 0, ch_closed = False\<rparr>)"

datatype 'm send_try = Sent "'m chan" | Blocked | SendPanic

definition try_send :: "'m \<Rightarrow> 'm chan \<Rightarrow> 'm send_try" where
  "try_send m ch =
     (if ch_closed ch then SendPanic
      else if length (ch_queue ch) < ch_cap ch + ch_idle ch
      then Sent (ch\<lparr>ch_queue := ch_queue ch @ [m]\<rparr>) else Blocked)"

datatype 'm recv_try = Received 'm "'m chan" | ChanClosed | Waiting

definition try_recv :: "'m chan \<Rightarrow> 'm recv_try" where
  "try_recv ch = (case ch_queue ch of
     m # ms \<Rightarrow> Received m (ch\<lparr>ch_queue := ms, ch_idle := ch_idle ch - 1\<rparr>)
   | [] \<Rightarrow> if ch_closed ch then ChanClosed else Waiting)"

definition close_chan :: "'m chan \<Rightarrow> 'm chan outcome" where
  "close_chan ch = (if ch_closed ch then Panic ''close of closed channel'' else Ok (ch\<lparr>ch_closed := True\<rparr>))"

subsection \<open>ChanBus\<close>

text \<open>
  What ends the wait of 50 ms: room in the channel, the timer, or the end of the context. The
  other goroutines act on the channel meanwhile: \<open>wait\<close> is what they do to it and what comes
  first.
\<close>

datatype wait_end = RoomFreed | TimerFired | WaitCanceled go_error

type_synonym 'm waiting = "'m chan \<Rightarrow> wait_end \<times> 'm chan"

record 'm ChanBus =
  Bus_Ch :: "'m chan"

definition ProvideChanBus :: "Config \<Rightarrow> UpdateMsg ChanBus outcome" where
  "ProvideChanBus cfg = (case make_chan (cfg_ChanQueueSize cfg) of
     Ok ch \<Rightarrow> Ok \<lparr>Bus_Ch = ch\<rparr> | Err e \<Rightarrow> Err e | Panic p \<Rightarrow> Panic p)"

definition send_panic :: string where
  "send_panic = ''send on closed channel''"

definition bus_Enqueue ::
  "(ctx \<Rightarrow> UpdateMsg waiting) \<Rightarrow> ctx \<Rightarrow> string \<Rightarrow> string \<Rightarrow> string \<Rightarrow> (UpdateMsg chan, unit) io" where
  "bus_Enqueue wait c i pair trace ch =
     (let m = \<lparr>um_ID = i, um_Pair = pair, um_TraceID = trace\<rparr> in
      case try_send m ch of
        Sent ch' \<Rightarrow> (Ok (), ch')
      | SendPanic \<Rightarrow> (Panic send_panic, ch)
      | Blocked \<Rightarrow> (case wait c ch of
          (RoomFreed, ch1) \<Rightarrow> (case try_send m ch1 of
             Sent ch2 \<Rightarrow> (Ok (), ch2)
           | _ \<Rightarrow> (Panic send_panic, ch1))
        | (TimerFired, ch1) \<Rightarrow> (Err (ErrorString ''queue full''), ch1)
        | (WaitCanceled e, ch1) \<Rightarrow> (Err e, ch1)))"

definition bus_Shutdown :: "UpdateMsg chan \<Rightarrow> UpdateMsg chan outcome" where
  "bus_Shutdown ch = close_chan ch"

subsection \<open>ChanWorker\<close>

record 's ChanWorker =
  cw_svc :: "'s FXRatesService"
  cw_now :: "'s \<Rightarrow> int"

definition NewChanWorker :: "('s \<Rightarrow> int) \<Rightarrow> 's FXRatesService \<Rightarrow> 's ChanWorker" where
  "NewChanWorker now svc = \<lparr>cw_svc = svc, cw_now = now\<rparr>"

text \<open>
  The deferred function of \<open>processOne\<close>: on a panic the update is completed with a fetch that
  fails, on the worker's own context; the error is dropped, a second panic is not caught.
\<close>

definition processOne_recover :: "'s ChanWorker \<Rightarrow> ctx \<Rightarrow> UpdateMsg \<Rightarrow> string \<Rightarrow> ('s, unit) io" where
  "processOne_recover w c m r =
     io_bind (io_try (CompleteQuoteUpdate (cw_svc w) c (um_ID m)
        (\<lambda>_. io_fail (ErrorString (''panic: '' @ r))) ''chan'')) (\<lambda>_. io_return ())"

definition processOne :: "'s ChanWorker \<Rightarrow> ctx \<Rightarrow> UpdateMsg \<Rightarrow> ('s, unit) io" where
  "processOne w c m s =
     (let c1 = ctx_with_timeout c (cw_now w s) (5 * 10 ^ 9) in
      case CompleteQuoteUpdate (cw_svc w) c1 (um_ID m)
             (\<lambda>cx. FetchQuote (cw_svc w) cx (um_Pair m)) ''chan'' s of
        (Panic r, s1) \<Rightarrow> processOne_recover w c m r s1
      | (_, s1) \<Rightarrow> (Ok (), s1))"

text \<open>The state of a goroutine: it waits for an event, has returned, or its panic ended the process.\<close>

datatype run_state = Running | Returned | Crashed string

datatype chan_event = CtxDone | Message UpdateMsg | JobsClosed

fun chan_Start :: "'s ChanWorker \<Rightarrow> ctx \<Rightarrow> chan_event list \<Rightarrow> 's \<Rightarrow> run_state \<times> 's" where
  "chan_Start w c [] s = (Running, s)"
| "chan_Start w c (CtxDone # evs) s = (Returned, s)"
| "chan_Start w c (JobsClosed # evs) s = (Returned, s)"
| "chan_Start w c (Message m # evs) s = (case processOne w c m s of
     (Panic p, s1) \<Rightarrow> (Crashed p, s1)
   | (_, s1) \<Rightarrow> chan_Start w c evs s1)"

subsection \<open>DbWorker\<close>

record 's DbWorker =
  dw_svc :: "'s FXRatesService"
  PollEvery :: int
  BatchLimit :: int

definition NewDBWorker :: "'s FXRatesService \<Rightarrow> int \<Rightarrow> int \<Rightarrow> 's DbWorker" where
  "NewDBWorker svc pollEvery batchLimit = \<lparr>dw_svc = svc, PollEvery = pollEvery, BatchLimit = batchLimit\<rparr>"

definition db_tick :: "'s DbWorker \<Rightarrow> ctx \<Rightarrow> ('s, unit) io" where
  "db_tick w c = io_bind (io_try (ProcessQueueBatch (dw_svc w) c (BatchLimit w))) (\<lambda>_. io_return ())"

datatype db_event = DbDone | Tick

fun db_loop :: "'s DbWorker \<Rightarrow> ctx \<Rightarrow> db_event list \<Rightarrow> 's \<Rightarrow> run_state \<times> 's" where
  "db_loop w c [] s = (Running, s)"
| "db_loop w c (DbDone # evs) s = (Returned, s)"
| "db_loop w c (Tick # evs) s = (case db_tick w c s of
     (Panic p, s1) \<Rightarrow> (Crashed p, s1)
   | (_, s1) \<Rightarrow> db_loop w c evs s1)"

text \<open>Settings that are not positive are read from the configuration again.\<close>

definition db_settings :: "environ \<Rightarrow> 's DbWorker \<Rightarrow> 's DbWorker" where
  "db_settings env w =
     (let w1 = (if PollEvery w \<le> 0 then w\<lparr>PollEvery := cfg_WorkerPoll (Load env)\<rparr> else w)
      in if BatchLimit w1 \<le> 0 then w1\<lparr>BatchLimit := cfg_WorkerBatchSize (Load env)\<rparr> else w1)"

definition db_Start :: "environ \<Rightarrow> 's DbWorker \<Rightarrow> ctx \<Rightarrow> db_event list \<Rightarrow> 's \<Rightarrow> run_state \<times> 's" where
  "db_Start env w c evs s =
     (let w1 = db_settings env w in
      if PollEvery w1 \<le> 0 then (Crashed ''non-positive interval for NewTicker'', s)
      else db_loop w1 c evs s)"

subsection \<open>Messages are neither lost nor doubled\<close>

text \<open>
  The bus as a transition system whose steps are the code's \<open>Enqueue\<close> and \<open>Shutdown\<close> and the
  receives of the workers, over the channel, the calls of \<open>Enqueue\<close> that wait in their second
  \<open>select\<close>, and two histories: the messages of the calls that returned nil, and those the workers
  received. A call that finds room or a closed channel runs in one step (\<open>Direct\<close>). One that finds
  no room waits (\<open>Wait\<close>), while others act on the channel, and goes on when its \<open>select\<close> takes a
  case (\<open>Resume\<close>): the timer and the end of its context can always be taken, the send only when it
  does not block. What the call does is in both rules the value of \<open>bus_Enqueue\<close>. \<open>Idle\<close> is a
  worker that starts to wait, \<open>Leave\<close> one that gives up waiting.
\<close>

record bus_call =
  bc_ctx :: ctx
  bc_msg :: UpdateMsg
  bc_seen :: "UpdateMsg chan"

record bus_state =
  bs_chan :: "UpdateMsg chan"
  bs_waiting :: "bus_call list"
  bs_accepted :: "UpdateMsg list"
  bs_received :: "UpdateMsg list"

definition enqueue_call :: "(ctx \<Rightarrow> UpdateMsg waiting) \<Rightarrow> ctx \<Rightarrow> UpdateMsg \<Rightarrow> (UpdateMsg chan, unit) io" where
  "enqueue_call wait c m = bus_Enqueue wait c (um_ID m) (um_Pair m) (um_TraceID m)"

definition accepts :: "unit outcome \<Rightarrow> UpdateMsg \<Rightarrow> UpdateMsg list" where
  "accepts r m = (if r = Ok () then [m] else [])"

inductive bus_step :: "bus_state \<Rightarrow> bus_state \<Rightarrow> bool" where
  Direct: "try_send m (bs_chan b) \<noteq> Blocked \<Longrightarrow> enqueue_call wait c m (bs_chan b) = (r, ch) \<Longrightarrow>
     bus_step b (b\<lparr>bs_chan := ch, bs_accepted := bs_accepted b @ accepts r m\<rparr>)"
| Wait: "try_send m (bs_chan b) = Blocked \<Longrightarrow>
     bus_step b (b\<lparr>bs_waiting := bs_waiting b @ [\<lparr>bc_ctx = c, bc_msg = m, bc_seen = bs_chan b\<rparr>]\<rparr>)"
| Resume: "bs_waiting b = xs @ w # ys \<Longrightarrow>
     (e = RoomFreed \<longrightarrow> try_send (bc_msg w) (bs_chan b) \<noteq> Blocked) \<Longrightarrow>
     enqueue_call (\<lambda>_ _. (e, bs_chan b)) (bc_ctx w) (bc_msg w) (bc_seen w) = (r, ch) \<Longrightarrow>
     bus_step b (b\<lparr>bs_chan := ch, bs_waiting := xs @ ys,
       bs_accepted := bs_accepted b @ accepts r (bc_msg w)\<rparr>)"
| Idle: "try_recv (bs_chan b) = Waiting \<Longrightarrow>
     bus_step b (b\<lparr>bs_chan := (bs_chan b)\<lparr>ch_idle := ch_idle (bs_chan b) + 1\<rparr>\<rparr>)"
| Leave: "try_recv (bs_chan b) = Waiting \<Longrightarrow> 0 < ch_idle (bs_chan b) \<Longrightarrow>
     bus_step b (b\<lparr>bs_chan := (bs_chan b)\<lparr>ch_idle := ch_idle (bs_chan b) - 1\<rparr>\<rparr>)"
| Receive: "try_recv (bs_chan b) = Received m ch \<Longrightarrow>
     bus_step b (b\<lparr>bs_chan := ch, bs_received := bs_received b @ [m]\<rparr>)"
| Shut: "bus_Shutdown (bs_chan b) = Ok ch \<Longrightarrow> bus_step b (b\<lparr>bs_chan := ch\<rparr>)"

inductive_cases bus_stepE: "bus_step b b'"

definition bus_start :: "UpdateMsg ChanBus \<Rightarrow> bus_state" where
  "bus_start bus = \<lparr>bs_chan = Bus_Ch bus, bs_waiting = [], bs_accepted = [], bs_received = []\<rparr>"

text \<open>
  What the steps keep: the waiting calls found no room when they began, the histories agree, and
  the channel holds no more than it has room for.
\<close>

definition bus_inv :: "nat \<Rightarrow> bus_state \<Rightarrow> bool" where
  "bus_inv cap b \<longleftrightarrow> bs_accepted b = bs_received b @ ch_queue (bs_chan b) \<and>
     length (ch_queue (bs_chan b)) \<le> cap + ch_idle (bs_chan b) \<and> ch_cap (bs_chan b) = cap \<and>
     (\<forall>w\<in>set (bs_waiting b). try_send (bc_msg w) (bc_seen w) = Blocked)"

lemma msg_collapse [simp]: "\<lparr>um_ID = um_ID m, um_Pair = um_Pair m, um_TraceID = um_TraceID m\<rparr> = m"
  by simp

text \<open>A call that need not wait: its message is sent, and then only, if it returns nil.\<close>

lemma enqueue_direct:
  assumes "enqueue_call wait c m ch = (r, ch')" and "try_send m ch \<noteq> Blocked"
  shows "r = Ok () \<and> try_send m ch = Sent ch' \<or> r \<noteq> Ok () \<and> ch' = ch"
  using assms by (auto simp: enqueue_call_def bus_Enqueue_def Let_def split: send_try.splits)

text \<open>A call that waited acts once, on the channel it finds at the end of the wait.\<close>

lemma enqueue_resume:
  assumes "enqueue_call (\<lambda>_ _. (e, ch)) c m ch0 = (r, ch')" and "try_send m ch0 = Blocked"
  shows "r = Ok () \<and> try_send m ch = Sent ch' \<or> r \<noteq> Ok () \<and> ch' = ch"
  using assms by (auto simp: enqueue_call_def bus_Enqueue_def Let_def split: send_try.splits wait_end.splits)

lemma sent_keeps:
  assumes "try_send m (bs_chan b) = Sent ch" and "bus_inv cap b"
  shows "bus_inv cap (b\<lparr>bs_chan := ch, bs_accepted := bs_accepted b @ [m]\<rparr>)"
  using assms by (auto simp: bus_inv_def try_send_def split: if_splits)

lemma bus_inv_waiting:
  "bus_inv cap b \<Longrightarrow> set ws \<subseteq> set (bs_waiting b) \<Longrightarrow> bus_inv cap (b\<lparr>bs_waiting := ws\<rparr>)"
  by (auto simp: bus_inv_def)

lemma bus_step_inv: "bus_step b b' \<Longrightarrow> bus_inv cap b \<Longrightarrow> bus_inv cap b'"
proof (erule bus_stepE)
  fix m wait c r ch
  assume inv: "bus_inv cap b" and b': "b' = b\<lparr>bs_chan := ch, bs_accepted := bs_accepted b @ accepts r m\<rparr>"
    and "enqueue_call wait c m (bs_chan b) = (r, ch)" and "try_send m (bs_chan b) \<noteq> Blocked"
  from enqueue_direct [OF this(3,4)] inv show "bus_inv cap b'"
    by (auto simp: b' accepts_def dest: sent_keeps)
next
  fix xs w ys e r ch
  assume inv: "bus_inv cap b" and ws: "bs_waiting b = xs @ w # ys"
    and b': "b' = b\<lparr>bs_chan := ch, bs_waiting := xs @ ys, bs_accepted := bs_accepted b @ accepts r (bc_msg w)\<rparr>"
    and call: "enqueue_call (\<lambda>_ _. (e, bs_chan b)) (bc_ctx w) (bc_msg w) (bc_seen w) = (r, ch)"
  from inv ws have "try_send (bc_msg w) (bc_seen w) = Blocked" by (simp add: bus_inv_def)
  from enqueue_resume [OF call this]
  have "bus_inv cap (b\<lparr>bs_chan := ch, bs_accepted := bs_accepted b @ accepts r (bc_msg w)\<rparr>)" (is "bus_inv cap ?b")
    using inv by (auto simp: accepts_def dest: sent_keeps)
  then have "bus_inv cap (?b\<lparr>bs_waiting := xs @ ys\<rparr>)" by (rule bus_inv_waiting) (auto simp: ws)
  then show "bus_inv cap b'" by (simp add: b' bus_inv_def)
qed (auto simp: bus_inv_def try_recv_def close_chan_def bus_Shutdown_def split: if_splits list.splits)

lemma closed_accepts_nothing:
  assumes "ch_closed ch"
  shows "try_send m ch = SendPanic"
  using assms by (simp add: try_send_def)

lemma bus_step_closed:
  assumes "bus_step b b'" and "bus_inv cap b" and "ch_closed (bs_chan b)"
  shows "ch_closed (bs_chan b') \<and> bs_accepted b' = bs_accepted b"
  using assms(1)
proof (cases rule: bus_step.cases)
  case (Direct m wait c r ch)
  with enqueue_direct [OF Direct(3,2)] closed_accepts_nothing [OF assms(3)] assms(3) show ?thesis
    by (auto simp: accepts_def)
next
  case (Resume xs w ys e r ch)
  with assms(2) have "try_send (bc_msg w) (bc_seen w) = Blocked" by (simp add: bus_inv_def)
  from enqueue_resume [OF Resume(4) this] closed_accepts_nothing [OF assms(3)] assms(3) show ?thesis
    by (auto simp: accepts_def Resume(1))
qed (use assms(3) in \<open>auto simp: try_recv_def bus_Shutdown_def close_chan_def split: if_splits list.splits\<close>)

lemma bus_reach_inv: "bus_step\<^sup>*\<^sup>* b b' \<Longrightarrow> bus_inv cap b \<Longrightarrow> bus_inv cap b'"
  by (induction rule: rtranclp_induct) (auto intro: bus_step_inv)

lemma bus_reach_closed:
  "bus_step\<^sup>*\<^sup>* b b' \<Longrightarrow> bus_inv cap b \<Longrightarrow> ch_closed (bs_chan b) \<Longrightarrow>
     ch_closed (bs_chan b') \<and> bs_accepted b' = bs_accepted b"
proof (induction rule: rtranclp_induct)
  case (step b1 b2)
  then show ?case using bus_step_closed [OF step.hyps(2) bus_reach_inv [OF step.hyps(1)]] by auto
qed simp

text \<open>
  C20: In every interleaving of calls of \<open>Enqueue\<close>, of their waits, of the workers and of
  \<open>Shutdown\<close>, the messages received so far and those still in the channel are, in order, exactly
  the messages of the calls of \<open>Enqueue\<close> that returned nil, one for each: nothing accepted is lost,
  doubled or reordered, and nothing a call refused is delivered. The channel never holds more than
  its configured size beyond the messages on their way to waiting workers, and once it is closed,
  as \<open>Shutdown\<close> leaves it, no call returns nil any more, those that waited included.
\<close>

theorem bus_fifo:
  assumes "ProvideChanBus cfg = Ok bus" and "bus_step\<^sup>*\<^sup>* (bus_start bus) b"
  shows "bs_accepted b = bs_received b @ ch_queue (bs_chan b) \<and>
    int (length (ch_queue (bs_chan b))) \<le> cfg_ChanQueueSize cfg + int (ch_idle (bs_chan b)) \<and>
    (ch_closed (bs_chan b) \<longrightarrow> (\<forall>b'. bus_step\<^sup>*\<^sup>* b b' \<longrightarrow> bs_accepted b' = bs_accepted b)) \<and>
    (\<forall>ch b'. bus_Shutdown (bs_chan b) = Ok ch \<longrightarrow> bus_step\<^sup>*\<^sup>* (b\<lparr>bs_chan := ch\<rparr>) b' \<longrightarrow>
      ch_closed (bs_chan b') \<and> bs_accepted b' = bs_accepted b)"
proof -
  let ?n = "nat (cfg_ChanQueueSize cfg)"
  from assms(1) have n: "0 \<le> cfg_ChanQueueSize cfg"
    and bus: "Bus_Ch bus = \<lparr>ch_queue = [], ch_cap = ?n, ch_idle = 0, ch_closed = False\<rparr>"
    by (auto simp: ProvideChanBus_def make_chan_def split: if_splits)
  have "bus_inv ?n (bus_start bus)" by (simp add: bus_inv_def bus_start_def bus)
  from bus_reach_inv [OF assms(2) this] have inv: "bus_inv ?n b" .
  have "ch_closed (bs_chan b') \<and> bs_accepted b' = bs_accepted b"
    if shut: "bus_Shutdown (bs_chan b) = Ok ch" and run: "bus_step\<^sup>*\<^sup>* (b\<lparr>bs_chan := ch\<rparr>) b'" for ch b'
  proof -
    have "ch_closed ch" using shut by (auto simp: bus_Shutdown_def close_chan_def split: if_splits)
    with bus_reach_closed [OF run bus_step_inv [OF bus_step.Shut [OF shut] inv]] show ?thesis by simp
  qed
  then show ?thesis using n inv bus_reach_closed [OF _ inv] by (auto simp: bus_inv_def)
qed

text \<open>
  A run over a channel of one place: a message is accepted, two calls find no room and wait, the
  first message is received, the first waiting call sends, the other one ends by its timer.
\<close>

lemma bus_fifo_witness:
  "let cfg = (Load (\<lambda>_. []))\<lparr>cfg_ChanQueueSize := 1\<rparr>;
       bus = \<lparr>Bus_Ch = \<lparr>ch_queue = [], ch_cap = 1, ch_idle = 0, ch_closed = False\<rparr>\<rparr>;
       m = (\<lambda>i. \<lparr>um_ID = i, um_Pair = ''EUR/USD'', um_TraceID = ''t''\<rparr>)
   in ProvideChanBus cfg = Ok bus \<and>
     (\<exists>b. bus_step\<^sup>*\<^sup>* (bus_start bus) b \<and> bs_accepted b = [m ''u1'', m ''u2''] \<and>
        bs_received b = [m ''u1''] \<and> bs_waiting b = [] \<and>
        bs_accepted b = bs_received b @ ch_queue (bs_chan b))"
proof -
  let ?cfg = "(Load (\<lambda>_. []))\<lparr>cfg_ChanQueueSize := 1\<rparr>"
  let ?ch = "\<lambda>q. \<lparr>ch_queue = q, ch_cap = 1, ch_idle = 0, ch_closed = False\<rparr> :: UpdateMsg chan"
  let ?m = "\<lambda>i. \<lparr>um_ID = i, um_Pair = ''EUR/USD'', um_TraceID = ''t''\<rparr>"
  let ?w = "\<lambda>i. \<lparr>bc_ctx = ctx_background, bc_msg = ?m i, bc_seen = ?ch [?m ''u1'']\<rparr>"
  let ?b = "\<lambda>q ws acc rec. \<lparr>bs_chan = ?ch q, bs_waiting = ws, bs_accepted = acc, bs_received = rec\<rparr>"
  have p: "ProvideChanBus ?cfg = Ok \<lparr>Bus_Ch = ?ch []\<rparr>"
    by (simp add: ProvideChanBus_def make_chan_def)
  note defs = enqueue_call_def bus_Enqueue_def try_send_def try_recv_def accepts_def
  have "bus_step (?b [] [] [] []) (?b [?m ''u1''] [] [?m ''u1''] [])"
    using bus_step.Direct [of "?m ''u1''" "?b [] [] [] []" "\<lambda>_ ch. (TimerFired, ch)" ctx_background
      "Ok ()" "?ch [?m ''u1'']"] by (simp add: defs)
  moreover have "bus_step (?b [?m ''u1''] [] [?m ''u1''] []) (?b [?m ''u1''] [?w ''u2''] [?m ''u1''] [])"
    using bus_step.Wait [of "?m ''u2''" "?b [?m ''u1''] [] [?m ''u1''] []" ctx_background] by (simp add: defs)
  moreover have "bus_step (?b [?m ''u1''] [?w ''u2''] [?m ''u1''] [])
      (?b [?m ''u1''] [?w ''u2'', ?w ''u3''] [?m ''u1''] [])"
    using bus_step.Wait [of "?m ''u3''" "?b [?m ''u1''] [?w ''u2''] [?m ''u1''] []" ctx_background]
    by (simp add: defs)
  moreover have "bus_step (?b [?m ''u1''] [?w ''u2'', ?w ''u3''] [?m ''u1''] [])
      (?b [] [?w ''u2'', ?w ''u3''] [?m ''u1''] [?m ''u1''])"
    using bus_step.Receive [of "?b [?m ''u1''] [?w ''u2'', ?w ''u3''] [?m ''u1''] []" "?m ''u1''" "?ch []"]
    by (simp add: defs)
  moreover have "bus_step (?b [] [?w ''u2'', ?w ''u3''] [?m ''u1''] [?m ''u1''])
      (?b [?m ''u2''] [?w ''u3''] [?m ''u1'', ?m ''u2''] [?m ''u1''])"
    using bus_step.Resume [of "?b [] [?w ''u2'', ?w ''u3''] [?m ''u1''] [?m ''u1'']" "[]" "?w ''u2''"
      "[?w ''u3'']" RoomFreed "Ok ()" "?ch [?m ''u2'']"] by (simp add: defs)
  moreover have "bus_step (?b [?m ''u2''] [?w ''u3''] [?m ''u1'', ?m ''u2''] [?m ''u1''])
      (?b [?m ''u2''] [] [?m ''u1'', ?m ''u2''] [?m ''u1''])"
    using bus_step.Resume [of "?b [?m ''u2''] [?w ''u3''] [?m ''u1'', ?m ''u2''] [?m ''u1'']" "[]"
      "?w ''u3''" "[]" TimerFired "Err (ErrorString ''queue full'')" "?ch [?m ''u2'']"] by (simp add: defs)
  ultimately have "bus_step\<^sup>*\<^sup>* (?b [] [] [] []) (?b [?m ''u2''] [] [?m ''u1'', ?m ''u2''] [?m ''u1''])"
    by (meson converse_rtranclp_into_rtranclp rtranclp.rtrancl_refl)
  then have run: "bus_step\<^sup>*\<^sup>* (bus_start \<lparr>Bus_Ch = ?ch []\<rparr>)
      (?b [?m ''u2''] [] [?m ''u1'', ?m ''u2''] [?m ''u1''])" by (simp add: bus_start_def)
  show ?thesis
    unfolding Let_def using p run bus_fifo [OF p run] by fastforce
qed

text \<open>
  \<open>Enqueue\<close> never waits beyond its timer: with room it accepts at once without looking at its
  context, and without room it reports what ended the wait; only a closed channel makes it panic.
\<close>

theorem Enqueue_outcome:
  "bus_Enqueue wait c i pair trace ch =
    (let m = \<lparr>um_ID = i, um_Pair = pair, um_TraceID = trace\<rparr>; full = ch_cap ch + ch_idle ch \<le> length (ch_queue ch) in
     if ch_closed ch then (Panic send_panic, ch)
     else if \<not> full then (Ok (), ch\<lparr>ch_queue := ch_queue ch @ [m]\<rparr>)
     else case wait c ch of
       (TimerFired, ch1) \<Rightarrow> (Err (ErrorString ''queue full''), ch1)
     | (WaitCanceled e, ch1) \<Rightarrow> (Err e, ch1)
     | (RoomFreed, ch1) \<Rightarrow>
         if \<not> ch_closed ch1 \<and> length (ch_queue ch1) < ch_cap ch1 + ch_idle ch1
         then (Ok (), ch1\<lparr>ch_queue := ch_queue ch1 @ [m]\<rparr>) else (Panic send_panic, ch1))"
  by (auto simp: bus_Enqueue_def try_send_def Let_def split: prod.splits wait_end.splits)

end
