(* ===== verification/Pg_Workers.thy ===== *)
theory Pg_Workers
  imports Pg_Service Workers
begin

section \<open>The workers over PostgreSQL\<close>

text \<open>
  The loops of the workers, run on the service over PostgreSQL: what a message does to its job in
  every environment, that the database worker empties the queue when its services answer, and
  what a provider that panics does to each of them.
\<close>

lemma timeout_tx [simp]: "ctx_tx (ctx_with_timeout c t d) = ctx_tx c"
  by (simp add: ctx_with_timeout_def)

lemma timeout_sees [simp]:
  "pg_jobs (ctx_with_timeout c t d) w = pg_jobs c w" "world_ok (ctx_with_timeout c t d) w = world_ok c w"
  by (simp_all add: pg_jobs_def pg_view_def world_ok_def)

subsection \<open>One message of the channel\<close>

lemma fetch_steady:
  "io_keeps (world_ok c) (FetchQuote (ProvideFXRatesService E rp st) c' p)"
  "pg_view c (snd (FetchQuote (ProvideFXRatesService E rp st) c' p w)) = pg_view c w"
  by (simp_all add: io_keeps_def FetchQuote_def io_simps pg_rate.get_inv outside_rate_def)

lemma complete_effect:
  assumes "world_ok c w" and top: "ctx_tx c = None"
    and run: "CompleteQuoteUpdate (ProvideFXRatesService E rp st) c i
      (\<lambda>cx. FetchQuote (ProvideFXRatesService E rp st) cx p) src w = (r, w')"
  shows "world_ok c w' \<and> settles (uuid_key E i) (pg_jobs c w) (pg_jobs c w')"
  by (rule pg_fx.complete_moves [where fetch = "\<lambda>cx. FetchQuote (ProvideFXRatesService E rp st) cx p",
      OF _ _ assms]) (simp_all add: fetch_steady pg_jobs_def)

lemma process_effect:
  assumes w: "world_ok c w" and top: "ctx_tx c = None"
  shows "\<exists>w'. processOne (NewChanWorker now (ProvideFXRatesService E rp st)) c m w = (Ok (), w') \<and>
    world_ok c w' \<and> settles (uuid_key E (um_ID m)) (pg_jobs c w) (pg_jobs c w')"
proof -
  let ?svc = "ProvideFXRatesService E rp st"
  let ?c = "ctx_with_timeout c (now w) (5 * 10 ^ 9)"
  let ?fetch = "\<lambda>cx. FetchQuote ?svc cx (um_Pair m)"
  obtain r w1 where run: "CompleteQuoteUpdate ?svc ?c (um_ID m) ?fetch ''chan'' w = (r, w1)" by fastforce
  have eff: "world_ok c w1 \<and> settles (uuid_key E (um_ID m)) (pg_jobs c w) (pg_jobs c w1)"
    using complete_effect [OF _ _ run] w top by simp
  show ?thesis
  proof (cases r)
    case (Panic x)
    obtain f w2 where fetch: "?fetch ?c w = (f, w2)" by fastforce
    have w2: "world_ok ?c w2" "pg_jobs ?c w2 = pg_jobs ?c w"
      using pg_fx.fetch_sees [OF _ fetch] w by auto
    have w12: "w1 = w2"
    proof (cases f)
      case (Ok q)
      with pg_fx.complete_no_panic [where fetch = ?fetch, OF _ w2(1)] fetch run Panic top show ?thesis by auto
    next
      case (Err e)
      with pg_fx.complete_fetch_failed(1) [where fetch = ?fetch and s = w and e = e and i = "um_ID m" and src = "''chan''"
          and E = E and rp = rp and st = st, OF _ w2(1)]
        fetch run Panic show ?thesis by simp
    qed (use fetch run in \<open>simp add: CompleteQuoteUpdate_def io_simps\<close>)
    let ?e = "ErrorString (''panic: '' @ x)"
    let ?bad = "\<lambda>_. io_fail ?e :: ('a world, Quote) io"
    note ff = pg_fx.complete_fetch_failed [where fetch = ?bad and c = c and i = "um_ID m" and src = "''chan''" and E = E
        and rp = rp and st = st, OF io_fail_eq]
    obtain r3 w3 where rec: "CompleteQuoteUpdate ?svc c (um_ID m) ?bad ''chan'' w1 = (r3, w3)" by fastforce
    have w1: "world_ok c w1" "pg_jobs c w1 = pg_jobs c w" using w2 w12 by simp_all
    from ff(1) [OF w1(1)] rec have "r3 = Err ?e" by simp
    then have "processOne (NewChanWorker now ?svc) c m w = (Ok (), w3)"
      using run Panic rec by (simp add: processOne_def processOne_recover_def NewChanWorker_def Let_def io_simps)
    moreover have "world_ok c w3" using ff(5) [OF w1(1)] rec by simp
    moreover have "settles (uuid_key E (um_ID m)) (pg_jobs c w) (pg_jobs c w3)"
      using ff(4) [OF w1(1)] rec w1 by (auto simp: settles_def)
    ultimately show ?thesis by blast
  qed (use run eff in \<open>simp_all add: processOne_def NewChanWorker_def Let_def\<close>)
qed

text \<open>
  C21: In every environment, handling one message of the channel returns (a panic of the provider
  is caught), keeps the tables within the schema, and changes at most the message's own job, which
  is then done, or failed with a message.
\<close>

theorem message_handled:
  assumes "world_ok c w" and "ctx_tx c = None"
  shows "\<exists>w'. processOne (NewChanWorker now (ProvideFXRatesService E rp st)) c m w = (Ok (), w') \<and>
    world_ok c w' \<and>
    (pg_jobs c w' = pg_jobs c w \<or> pg_jobs c w' = set_job (uuid_key E (um_ID m)) Done None (pg_jobs c w) \<or>
     (\<exists>t. pg_jobs c w' = set_job (uuid_key E (um_ID m)) Failed (Some t) (pg_jobs c w)))"
  using process_effect [OF assms] unfolding settles_def .

lemma message_handled_witness:
  "\<exists>w'. processOne (NewChanWorker (\<lambda>_. 0) demo_svc) ctx_background
      \<lparr>um_ID = demo_id, um_Pair = ''USD/EUR'', um_TraceID = []\<rparr> demo_world = (Ok (), w')"
  using message_handled [OF demo_world_ok demo_ctx, of "\<lambda>_. 0" demo_env demo_rate NoopIdempotency
      "\<lparr>um_ID = demo_id, um_Pair = ''USD/EUR'', um_TraceID = []\<rparr>"] by blast


subsection \<open>The database worker empties the queue\<close>

lemma finite_queued: "finite (queued_ids (pg_jobs c w))"
proof -
  have "queued_ids (pg_jobs c w) \<subseteq> dom (pg_jobs c w)" by (auto simp: queued_ids_def)
  moreover have "dom (pg_jobs c w) \<subseteq> ju_id ` set (t_jobs (pg_view c w))"
    using jobs_of_present by (auto simp: pg_jobs_def)
  ultimately show ?thesis by (rule finite_subset [OF _ finite_subset]) simp
qed

lemma queued_done:
  "queued_ids (\<lambda>k. if k \<in> ids then map_option done_view (m k) else m k) = queued_ids m - ids"
  by (auto simp: queued_ids_def done_view_def split: if_splits)

lemma ticks_complete:
  assumes ans: "answering E c" and top: "ctx_tx c = None" and rp: "rate_answers E rp"
    and free: "\<forall>n. env_locked E n = []" and lmt: "0 < BatchLimit wk"
    and svc: "dw_svc wk = ProvideFXRatesService E rp st"
  shows "world_ok c w \<Longrightarrow> \<exists>w' ids. db_loop wk c (replicate k Tick @ evs) w = db_loop wk c evs w' \<and> world_ok c w' \<and>
    ids \<subseteq> queued_ids (pg_jobs c w) \<and>
    card ids = min (k * nat (BatchLimit wk)) (card (queued_ids (pg_jobs c w))) \<and>
    pg_jobs c w' = (\<lambda>k. if k \<in> ids then map_option done_view (pg_jobs c w k) else pg_jobs c w k)"
proof (induction k arbitrary: w)
  case 0
  then show ?case by (intro exI [of _ w] exI [of _ "{}"]) (simp add: fun_eq_iff)
next
  case (Suc k)
  let ?b = "nat (BatchLimit wk)" and ?q = "queued_ids (pg_jobs c w)"
  obtain w1 ids1 where run: "ProcessQueueBatch (ProvideFXRatesService E rp st) c (BatchLimit wk) w = (Ok (), w1)"
    and w1: "world_ok c w1" and i1: "ids1 \<subseteq> ?q" and c1: "card ids1 = min ?b (card ?q)"
    and j1: "pg_jobs c w1 = (\<lambda>k. if k \<in> ids1 then map_option done_view (pg_jobs c w k) else pg_jobs c w k)"
    using batch_answers [OF ans top rp Suc.prems free, of "BatchLimit wk" st] lmt by auto
  have q1: "queued_ids (pg_jobs c w1) = ?q - ids1" unfolding j1 by (rule queued_done)
  have card1: "card (?q - ids1) = card ?q - card ids1"
    using i1 finite_queued by (intro card_Diff_subset) (auto intro: finite_subset)
  obtain w' ids2 where loop: "db_loop wk c (replicate k Tick @ evs) w1 = db_loop wk c evs w'" and w': "world_ok c w'"
    and i2: "ids2 \<subseteq> ?q - ids1" and c2: "card ids2 = min (k * ?b) (card ?q - card ids1)"
    and j2: "pg_jobs c w' = (\<lambda>k. if k \<in> ids2 then map_option done_view (pg_jobs c w1 k) else pg_jobs c w1 k)"
    using Suc.IH [OF w1] by (auto simp: q1 card1)
  have "db_loop wk c (replicate (Suc k) Tick @ evs) w = db_loop wk c evs w'"
    using run loop by (simp add: db_tick_def svc io_simps)
  moreover have "card (ids1 \<union> ids2) = min (Suc k * ?b) (card ?q)"
  proof -
    have "finite ids1" and "finite ids2" and "ids1 \<inter> ids2 = {}"
      using i1 i2 finite_queued [of c w] by (auto intro: rev_finite_subset)
    then have "card (ids1 \<union> ids2) = card ids1 + card ids2" by (rule card_Un_disjoint)
    moreover have "min b q + min m (q - min b q) = min (b + m) q" for b m q :: nat by simp
    ultimately show ?thesis by (simp only: c1 c2 mult_Suc)
  qed
  moreover have "pg_jobs c w' = (\<lambda>k. if k \<in> ids1 \<union> ids2 then map_option done_view (pg_jobs c w k) else pg_jobs c w k)"
    using i2 by (auto simp: j2 j1 fun_eq_iff)
  ultimately show ?case using w' i1 i2 by (intro exI [of _ w'] exI [of _ "ids1 \<union> ids2"]) auto
qed

text \<open>
  C22: When the server and the provider answer, the database worker empties the queue: started
  with a positive interval and limit, after as many ticks as the limit goes into the number of
  queued jobs, rounded up, every job that was queued is done, every other job is as it was, and
  the worker is still running.
\<close>

theorem worker_drains:
  assumes ans: "answering E c" and top: "ctx_tx c = None" and rp: "rate_answers E rp"
    and free: "\<forall>n. env_locked E n = []" and w: "world_ok c w"
    and pos: "0 < poll" "0 < lmt" and k: "card (queued_ids (pg_jobs c w)) \<le> k * nat lmt"
  shows "\<exists>w'. db_Start env (NewDBWorker (ProvideFXRatesService E rp st) poll lmt) c (replicate k Tick) w
      = (Running, w') \<and>
    pg_jobs c w' = (\<lambda>i. if i \<in> queued_ids (pg_jobs c w) then map_option done_view (pg_jobs c w i)
      else pg_jobs c w i)"
proof -
  let ?wk = "NewDBWorker (ProvideFXRatesService E rp st) poll lmt" and ?q = "queued_ids (pg_jobs c w)"
  have wk: "BatchLimit ?wk = lmt" "dw_svc ?wk = ProvideFXRatesService E rp st" "PollEvery ?wk = poll"
    by (simp_all add: NewDBWorker_def)
  obtain w' ids where loop: "db_loop ?wk c (replicate k Tick @ []) w = db_loop ?wk c [] w'"
    and ids: "ids \<subseteq> ?q" "card ids = min (k * nat lmt) (card ?q)"
    and j: "pg_jobs c w' = (\<lambda>k. if k \<in> ids then map_option done_view (pg_jobs c w k) else pg_jobs c w k)"
    using ticks_complete [OF ans top rp free _ wk(2) w, of k "[]"] pos(2) unfolding wk(1) by blast
  from ids k have "ids = ?q" by (intro card_subset_eq finite_queued) simp_all
  moreover have "db_settings env ?wk = ?wk" using pos wk by (simp add: db_settings_def)
  ultimately show ?thesis using loop j pos wk by (auto simp: db_Start_def Let_def)
qed

lemma worker_drains_witness:
  "\<exists>w'. db_Start (\<lambda>_. []) (NewDBWorker demo_svc 250000000 2) ctx_background (replicate 1 Tick) demo_world
      = (Running, w') \<and>
    map_option jv_status (pg_jobs ctx_background w' demo_id) = Some Done"
proof -
  have free: "\<forall>n. env_locked demo_env n = []" by (simp add: demo_env_def)
  have "queued_ids (pg_jobs ctx_background demo_world) \<subseteq> ju_id ` set (t_jobs demo_tables)"
    by (auto simp: queued_ids_def pg_jobs_def pg_view_def demo_world_def simp flip: jobs_of_present)
  then have "card (queued_ids (pg_jobs ctx_background demo_world)) \<le> card (ju_id ` set (t_jobs demo_tables))"
    by (intro card_mono) simp_all
  also have "\<dots> \<le> 2" by (simp add: demo_tables_def card_insert_if)
  finally have k: "card (queued_ids (pg_jobs ctx_background demo_world)) \<le> 1 * nat 2" by simp
  have q: "demo_id \<in> queued_ids (pg_jobs ctx_background demo_world)" by (simp add: queued_ids_def demo_present)
  from worker_drains [OF demo_answering demo_ctx demo_rate_answers free demo_world_ok _ _ k,
      of 250000000 "\<lambda>_. []" NoopIdempotency] q
  show ?thesis by (fastforce simp: demo_present done_view_def)
qed


subsection \<open>A provider that panics\<close>

text \<open>
  C39: The database worker has no recovery: with a provider that panics (as the API provider does
  on a malformed base URL), its first tick with a queued job ends the process and leaves that
  job in processing, a status from which no later batch takes it.
\<close>

theorem panic_ends_worker:
  assumes ans: "answering E c" and top: "ctx_tx c = None" and bad: "\<forall>c p z. \<exists>z'. Get rp c p z = (Panic msg, z')"
    and free: "\<forall>n. env_locked E n = []" and w: "world_ok c w" and lmt: "0 < BatchLimit wk"
    and svc: "dw_svc wk = ProvideFXRatesService E rp st" and some: "queued_ids (pg_jobs c w) \<noteq> {}"
  shows "\<exists>w' i j. db_loop wk c (Tick # evs) w = (Crashed msg, w') \<and> i \<in> queued_ids (pg_jobs c w) \<and>
    pg_jobs c w' i = Some j \<and> jv_status j = Processing"
proof -
  let ?svc = "ProvideFXRatesService E rp st" and ?n = "BatchLimit wk"
  have n: "0 \<le> ?n" using lmt by simp
  obtain xs w1 where run: "pg_ClaimQueued E c ?n w = (Ok xs, w1)"
    and here: "\<forall>(i, p) \<in> set xs. is_canonical_uuid i \<and> i \<in> dom (pg_jobs c w1)"
    and ids: "fst ` set xs \<subseteq> queued_ids (pg_jobs c w)"
    and card: "card (fst ` set xs) = min (nat ?n) (card (queued_ids (pg_jobs c w)))"
    by (rule claim_answers [OF ans top w free n])
  have "0 < card (queued_ids (pg_jobs c w))" using some finite_queued by (simp add: card_gt_0_iff)
  with card lmt obtain i p js where xs: "xs = (i, p) # js" by (cases xs) auto
  then have i: "i \<in> queued_ids (pg_jobs c w)" and can: "is_canonical_uuid i" and d: "i \<in> dom (pg_jobs c w1)"
    using ids here by auto
  have up: "uuid_param E i = Some i" using can by (simp add: uuid_param_def)
  obtain w2 where st: "pg_UpdateStatus E c i Processing None w1 = (Ok (), w2)"
    using pg_update_answers [OF ans _ up d, where st = Processing and err = None]
    by (auto simp: tx_open_def top)
  have j2: "pg_jobs c w2 = set_job i Processing None (pg_jobs c w1)"
    by (rule pg_update_effect [OF st]) (use can in auto)
  obtain z' where g: "Get rp c p (rest w2) = (Panic msg, z')" using bad by blast
  define w3 where "w3 = tick w2\<lparr>rest := z'\<rparr>"
  have f: "FetchQuote ?svc c p w2 = (Panic msg, w3)"
    by (simp add: FetchQuote_def io_simps outside_rate_def outside_def g w3_def)
  have "ProcessQueueBatch ?svc c ?n w = (Panic msg, w3)"
    by (simp add: ProcessQueueBatch_def io_simps run xs st CompleteQuoteUpdate_def f)
  then have "db_loop wk c (Tick # evs) w = (Crashed msg, w3)" by (simp add: db_tick_def svc io_simps)
  moreover have "pg_jobs c w3 = pg_jobs c w2" using top by (simp add: w3_def pg_jobs_def pg_view_def)
  then obtain j where "pg_jobs c w3 i = Some j" "jv_status j = Processing"
    using d j2 by (auto simp: set_job_def)
  ultimately show ?thesis using i by blast
qed

definition panic_rate :: "'z RateProvider" where
  "panic_rate = \<lparr>Get = (\<lambda>c p. io_panic ''nil map'')\<rparr>"

lemma panic_ends_worker_witness:
  "\<exists>w'. db_loop (NewDBWorker (demo_fx demo_env panic_rate) 1 1) ctx_background [Tick] demo_world
     = (Crashed ''nil map'', w')"
proof -
  have q: "queued_ids (pg_jobs ctx_background demo_world) \<noteq> {}"
    using demo_present unfolding queued_ids_def by force
  have "\<forall>c p z. \<exists>z'. Get (panic_rate :: unit RateProvider) c p z = (Panic ''nil map'', z')"
    by (simp add: panic_rate_def io_panic_eq)
  moreover have "\<forall>n. env_locked demo_env n = []" by (simp add: demo_env_def)
  ultimately show ?thesis
    using panic_ends_worker [OF demo_answering demo_ctx _ _ demo_world_ok _ _ q,
        of panic_rate "''nil map''" "NewDBWorker (demo_fx demo_env panic_rate) 1 1" NoopIdempotency "[]"]
    by (auto simp: NewDBWorker_def)
qed

end
