(* ===== verification/System.thy ===== *)
theory System
  imports Job_Life Http_Effects Pg_Workers
begin

section \<open>The processes over one database\<close>

text \<open>
  The database mode of the service as a whole: an API process that serves requests and any number
  of database workers, over one database, in any interleaving. One step is one request (which
  makes at most one statement), one statement of a worker, one fetch, one transaction, a worker
  that dies, or anything that happens outside the database. A worker is somewhere in the loop of
  \<open>ProcessQueueBatch\<close>; what it holds are the jobs it claimed and has not settled.
\<close>

datatype worker_pc =
    Idle
  | Loop "(string \<times> string) list"
  | Marked string string "(string \<times> string) list"
  | Fetched string string "go_error + Quote" "(string \<times> string) list"

fun in_hand :: "worker_pc \<Rightarrow> (string \<times> string) list" where
  "in_hand Idle = []"
| "in_hand (Loop js) = js"
| "in_hand (Marked i p js) = (i, p) # js"
| "in_hand (Fetched i p res js) = (i, p) # js"

record 'z sys =
  sy_world :: "'z world"
  sy_pc :: "nat \<Rightarrow> worker_pc"

abbreviation jobs_at :: "'z world \<Rightarrow> job_map" where
  "jobs_at w \<equiv> pg_jobs ctx_background w"

definition goto :: "nat \<Rightarrow> worker_pc \<Rightarrow> 'z world \<Rightarrow> 'z sys \<Rightarrow> 'z sys" where
  "goto n pc w S = \<lparr>sy_world = w, sy_pc = (sy_pc S)(n := pc)\<rparr>"

text \<open>Where a worker goes after its claim, its fetch and its completion.\<close>

definition after_claim :: "(string \<times> string) list outcome \<Rightarrow> worker_pc" where
  "after_claim x = (case x of Ok js \<Rightarrow> Loop js | _ \<Rightarrow> Idle)"

definition after_fetch :: "string \<Rightarrow> string \<Rightarrow> (string \<times> string) list \<Rightarrow> Quote outcome \<Rightarrow> worker_pc" where
  "after_fetch i p js x = (case x of
     Ok q \<Rightarrow> Fetched i p (Inr q) js | Err e \<Rightarrow> Fetched i p (Inl e) js | Panic _ \<Rightarrow> Idle)"

definition after_settle :: "(string \<times> string) list \<Rightarrow> unit outcome \<Rightarrow> worker_pc" where
  "after_settle js x = (case x of Panic _ \<Rightarrow> Idle | _ \<Rightarrow> Loop js)"

text \<open>What is left of a completion once its fetch is done.\<close>

definition known :: "go_error + Quote \<Rightarrow> ctx \<Rightarrow> ('s, Quote) io" where
  "known res c = (case res of Inl e \<Rightarrow> io_fail e | Inr q \<Rightarrow> io_return q)"

inductive sys_step ::
  "pg_env \<Rightarrow> 'z world router_env \<Rightarrow> 'z RateProvider \<Rightarrow> 'z IdempotencyStore \<Rightarrow> 'z sys \<Rightarrow> 'z sys \<Rightarrow> bool"
  for E env rp st where
  api: "ctx_tx (ReqCtx r) = None \<Longrightarrow>
    serve env (NewRouter env (NewServer (ProvideFXRatesService E rp st))) r (sy_world S, new_writer) =
      (x, (w, wr)) \<Longrightarrow>
    sys_step E env rp st S (S\<lparr>sy_world := w\<rparr>)"
| claim: "ctx_tx c = None \<Longrightarrow> sy_pc S n = Idle \<Longrightarrow>
    pg_ClaimQueued E c lmt (sy_world S) = (x, w) \<Longrightarrow>
    sys_step E env rp st S (goto n (after_claim x) w S)"
| mark: "ctx_tx c = None \<Longrightarrow> sy_pc S n = Loop ((i, p) # js) \<Longrightarrow>
    pg_UpdateStatus E c i Processing None (sy_world S) = (x, w) \<Longrightarrow>
    sys_step E env rp st S (goto n (Marked i p js) w S)"
| fetch: "sy_pc S n = Marked i p js \<Longrightarrow>
    FetchQuote (ProvideFXRatesService E rp st) c p (sy_world S) = (x, w) \<Longrightarrow>
    sys_step E env rp st S (goto n (after_fetch i p js x) w S)"
| settle: "ctx_tx c = None \<Longrightarrow> sy_pc S n = Fetched i p res js \<Longrightarrow>
    CompleteQuoteUpdate (ProvideFXRatesService E rp st) c i (known res) ''db'' (sy_world S) = (x, w) \<Longrightarrow>
    sys_step E env rp st S (goto n (after_settle js x) w S)"
| finish: "sy_pc S n = Loop [] \<Longrightarrow> sys_step E env rp st S (goto n Idle (sy_world S) S)"
| crash: "sys_step E env rp st S (goto n Idle (sy_world S) S)"
| elsewhere: "sys_step E env rp st S (S\<lparr>sy_world := (sy_world S)\<lparr>ticks := t, rest := z\<rparr>\<rparr>)"

inductive_cases sys_step_cases: "sys_step E env rp st S S'"

subsection \<open>The views of contexts outside transactions\<close>

lemma jobs_top: "ctx_tx c = None \<Longrightarrow> pg_jobs c w = jobs_at w"
  by (simp add: pg_jobs_def pg_view_def ctx_background_def)

lemma ok_top: "world_ok c w = world_ok ctx_background w"
  by (simp add: world_ok_def)

definition same_db :: "'z world \<Rightarrow> 'z world \<Rightarrow> bool" where
  "same_db w w' \<longleftrightarrow> committed w' = committed w \<and> txs w' = txs w"

lemma same_dbD: "same_db w w' \<Longrightarrow> jobs_at w' = jobs_at w \<and> (world_ok c w' = world_ok c w)"
  by (simp add: same_db_def pg_jobs_def pg_view_def ctx_background_def world_ok_def)

text \<open>
  The router's parameters (ids, clock, files, chi's own handlers) are outside the database.
\<close>

definition router_outside :: "'z world router_env \<Rightarrow> bool" where
  "router_outside env \<longleftrightarrow> (\<forall>w. same_db w (snd (re_uuid env w)) \<and> same_db w (snd (re_now env w))) \<and>
     (\<forall>p w. same_db w (snd (re_read_file env p w))) \<and>
     (\<forall>r w wr. same_db w (fst (snd (re_not_found env r (w, wr)))) \<and>
        same_db w (fst (snd (re_no_method env r (w, wr)))))"

subsection \<open>A request creates at most queued jobs\<close>

definition only_created :: "job_map \<Rightarrow> 'z world \<Rightarrow> bool" where
  "only_created m w \<longleftrightarrow> world_ok ctx_background w \<and> created\<^sup>*\<^sup>* m (jobs_at w)"

lemma only_created_same: "same_db w w' \<Longrightarrow> only_created m w \<Longrightarrow> only_created m w'"
  by (auto simp: only_created_def dest!: same_dbD)

lemma same_db_outside [simp]: "same_db w (snd (outside m w))"
  by (simp add: same_db_def outside_def)

lemma only_created_new:
  assumes "only_created m w" and "jobs_at w i = None" and "ValidatePair p" and "world_ok ctx_background w'"
    and "jobs_at w' = (jobs_at w)(i \<mapsto> \<lparr>jv_pair = p, jv_status = Queued, jv_error = None\<rparr>)"
  shows "only_created m w'"
  using assms created.intros [of "jobs_at w" i p]
  by (auto simp: only_created_def intro: rtranclp.rtrancl_into_rtrancl)

lemma create_only:
  assumes "ctx_tx c = None" and "ValidatePair p"
  shows "io_keeps (only_created m) (pg_CreateQueued E c p k)"
proof (rule io_keepsI)
  fix w :: "'z world" assume w: "only_created m w"
  obtain x w' where run: "pg_CreateQueued E c p k w = (x, w')" by fastforce
  have wok: "world_ok ctx_background w'"
    using io_keepsD [OF pg_create_inv [of ctx_background E c p k]] w run
    by (metis only_created_def snd_conv)
  from run have "only_created m w'"
  proof (cases rule: pg_create_effect)
    case (ok i)
    show ?thesis
      by (rule only_created_new [OF w _ assms(2) wok]) (use ok(3,5) in \<open>simp_all add: jobs_top [OF assms(1)]\<close>)
  next
    case (lost msg i)
    show ?thesis
      by (rule only_created_new [OF w _ assms(2) wok]) (use lost(2,4) in \<open>simp_all add: jobs_top [OF assms(1)]\<close>)
  next
    case (err e)
    with w wok show ?thesis by (simp add: only_created_def jobs_top [OF assms(1)])
  qed
  with run show "only_created m (snd (pg_CreateQueued E c p k w))" by simp
qed

lemma request_only:
  assumes "ctx_tx c = None" and "ValidatePair p"
  shows "io_keeps (only_created m) (RequestQuoteUpdate (ProvideFXRatesService E rp st) c p k)"
proof -
  have "io_keeps (only_created m) (TryReserve (outside_idem st) c x)" for x
    by (simp add: io_keeps_def outside_idem_def only_created_same [OF same_db_outside])
  then show ?thesis
    unfolding RequestQuoteUpdate_def
    by (auto intro!: keeps_intros create_only assms split: option.splits)
qed

lemma view_only:
  assumes "ctx_tx c = None" and "\<And>w. pg_view c (snd (f w)) = pg_view c w"
    and "io_keeps (world_ok ctx_background) f"
  shows "io_keeps (only_created m) f"
proof -
  have "jobs_at (snd (f w)) = jobs_at w" for w
    using jobs_top [OF assms(1), of w] jobs_top [OF assms(1), of "snd (f w)"] assms(2) [of w]
    by (simp add: pg_jobs_def)
  then show ?thesis using assms(3) by (simp add: io_keeps_def only_created_def)
qed

lemma pg_get_view: "pg_view c (snd (pg_GetByID E c i w)) = pg_view c w"
proof -
  obtain x w' where run: "pg_GetByID E c i w = (x, w')" by fastforce
  then show ?thesis by (cases rule: pg_get_effect) (simp_all add: run)
qed

lemma pg_last_view: "pg_view c (snd (pg_GetLast E c p w)) = pg_view c w"
proof -
  obtain x w' where run: "pg_GetLast E c p w = (x, w')" by fastforce
  then show ?thesis by (cases rule: pg_last_effect) (simp_all add: run)
qed

lemma get_only [keeps_intros]:
  "ctx_tx c = None \<Longrightarrow> io_keeps (only_created m) (pg_GetByID E c i)"
  "ctx_tx c = None \<Longrightarrow> io_keeps (only_created m) (pg_GetLast E c p)"
  using view_only [of c "pg_GetByID E c i"] view_only [of c "pg_GetLast E c p"]
  by (simp_all add: pg_get_view pg_last_view pg_keeps)

lemma reads_only:
  assumes "ctx_tx c = None"
  shows "io_keeps (only_created m) (GetQuoteUpdate (ProvideFXRatesService E rp st) c i)"
    and "io_keeps (only_created m) (GetLastQuote (ProvideFXRatesService E rp st) c p)"
  using assms unfolding GetQuoteUpdate_def GetLastQuote_def
  by (auto intro!: keeps_intros split: sum.splits)

lemma api_only:
  assumes out: "router_outside env" and top: "ctx_tx (ReqCtx r) = None"
    and run: "serve env (NewRouter env (NewServer (ProvideFXRatesService E rp st))) r (w, wr) = (x, (w', wr'))"
    and w: "only_created m w"
  shows "only_created m w'"
proof -
  have "env_keeps (only_created m) env"
    using out unfolding env_keeps_def router_outside_def svc_keeps_def io_keeps_def
    by (auto intro: only_created_same [rotated])
  moreover have "service_keeps (only_created m) (NewServer (ProvideFXRatesService E rp st))"
    by (simp add: service_keeps_def NewServer_def request_only reads_only)
  ultimately have "svc_keeps (only_created m)
      (serve env (NewRouter env (NewServer (ProvideFXRatesService E rp st))) r)"
    using top by (rule serve_keeps)
  from svc_keepsD [where P = "only_created m", OF this w run] show ?thesis .
qed

subsection \<open>Who holds which job\<close>

definition owned :: "pg_env \<Rightarrow> job_map \<Rightarrow> (nat \<Rightarrow> worker_pc) \<Rightarrow> bool" where
  "owned E m pcs \<longleftrightarrow>
     (\<forall>n. distinct (map fst (in_hand (pcs n)))) \<and>
     (\<forall>n i p. (i, p) \<in> set (in_hand (pcs n)) \<longrightarrow>
        uuid_key E i = i \<and> m i = Some \<lparr>jv_pair = p, jv_status = Processing, jv_error = None\<rparr>) \<and>
     (\<forall>n k i. n \<noteq> k \<longrightarrow> i \<in> fst ` set (in_hand (pcs n)) \<longrightarrow> i \<notin> fst ` set (in_hand (pcs k)))"

lemma ownedD:
  assumes "owned E m pcs" and "(i, p) \<in> set (in_hand (pcs n))"
  shows "uuid_key E i = i" and "m i = Some \<lparr>jv_pair = p, jv_status = Processing, jv_error = None\<rparr>"
  using assms unfolding owned_def by blast+

lemma owned_alone:
  "owned E m pcs \<Longrightarrow> (i, p) \<in> set (in_hand (pcs n)) \<Longrightarrow> k \<noteq> n \<Longrightarrow> (i, q) \<notin> set (in_hand (pcs k))"
  unfolding owned_def by (metis fst_conv image_eqI)

text \<open>A worker drops jobs, and no job that is still in some hand changes.\<close>

lemma owned_update:
  assumes own: "owned E m pcs" and d: "distinct (map fst (in_hand pc))"
    and sub: "set (in_hand pc) \<subseteq> set (in_hand (pcs n))"
    and same: "\<And>k i p. (i, p) \<in> set (in_hand ((pcs(n := pc)) k)) \<Longrightarrow> m' i = m i"
  shows "owned E m' (pcs(n := pc))"
proof -
  have hand: "set (in_hand ((pcs(n := pc)) k)) \<subseteq> set (in_hand (pcs k))" for k using sub by simp
  show ?thesis unfolding owned_def
  proof (intro conjI allI impI)
    show "distinct (map fst (in_hand ((pcs(n := pc)) k)))" for k
      using own d by (auto simp: owned_def)
  next
    fix k i p assume i: "(i, p) \<in> set (in_hand ((pcs(n := pc)) k))"
    then have "(i, p) \<in> set (in_hand (pcs k))" using hand by blast
    with ownedD [OF own this] same [OF i]
    show "uuid_key E i = i" and "m' i = Some \<lparr>jv_pair = p, jv_status = Processing, jv_error = None\<rparr>"
      by simp_all
  next
    fix k l i assume kl: "k \<noteq> l" and "i \<in> fst ` set (in_hand ((pcs(n := pc)) k))"
    then have "i \<in> fst ` set (in_hand (pcs k))" using hand by blast
    with own kl have "i \<notin> fst ` set (in_hand (pcs l))" unfolding owned_def by blast
    then show "i \<notin> fst ` set (in_hand ((pcs(n := pc)) l))" using hand by blast
  qed
qed

lemma owned_frame:
  "owned E m pcs \<Longrightarrow> (\<And>k i p. (i, p) \<in> set (in_hand (pcs k)) \<Longrightarrow> m' i = m i) \<Longrightarrow> owned E m' pcs"
  unfolding owned_def by metis

text \<open>A worker with nothing in hand claims queued jobs.\<close>

lemma owned_claim:
  assumes own: "owned E m pcs" and ok: "jobs_ok m" and idle: "pcs n = Idle" and d: "distinct (map fst js)"
    and q: "\<forall>(i, p) \<in> set js. uuid_key E i = i \<and> (\<exists>j. m i = Some j \<and> jv_status j = Queued \<and> jv_pair j = p)"
  shows "owned E (claim_jobs (fst ` set js) m) (pcs(n := Loop js))"
proof -
  let ?m = "claim_jobs (fst ` set js) m"
  have new: "uuid_key E i = i" "?m i = Some \<lparr>jv_pair = p, jv_status = Processing, jv_error = None\<rparr>"
    if "(i, p) \<in> set js" for i p
  proof -
    from q that obtain j where j: "uuid_key E i = i" "m i = Some j" "jv_status j = Queued" "jv_pair j = p" by auto
    then have "jv_error j = None" using jobs_okD [OF ok j(2)] by (simp add: job_ok_def)
    with j that show "?m i = Some \<lparr>jv_pair = p, jv_status = Processing, jv_error = None\<rparr>"
      by (cases j) (force simp: claim_jobs_def)
    show "uuid_key E i = i" by (rule j(1))
  qed
  have apart: "i \<notin> fst ` set js" if "(i, p) \<in> set (in_hand (pcs k))" for k i p
    using ownedD(2) [OF own that] q by fastforce
  have old: "?m i = m i" if "(i, p) \<in> set (in_hand (pcs k))" for k i p
    using apart [OF that] by simp
  show ?thesis unfolding owned_def
  proof (intro conjI allI impI)
    show "distinct (map fst (in_hand ((pcs(n := Loop js)) k)))" for k
      using own d by (auto simp: owned_def)
  next
    fix k i p assume "(i, p) \<in> set (in_hand ((pcs(n := Loop js)) k))"
    then show "uuid_key E i = i" and "?m i = Some \<lparr>jv_pair = p, jv_status = Processing, jv_error = None\<rparr>"
      using new ownedD [OF own] old by (auto split: if_splits)
  next
    fix k l i assume kl: "k \<noteq> l" and i: "i \<in> fst ` set (in_hand ((pcs(n := Loop js)) k))"
    have "i \<notin> fst ` set (in_hand (pcs l))" if "i \<in> fst ` set (in_hand (pcs k))"
      using own kl that unfolding owned_def by blast
    with i kl show "i \<notin> fst ` set (in_hand ((pcs(n := Loop js)) l))"
      using apart by (auto split: if_splits) (force, force)
  qed
qed

subsection \<open>Every step is within the life of the jobs\<close>

definition sys_inv :: "pg_env \<Rightarrow> 'z sys \<Rightarrow> bool" where
  "sys_inv E S \<longleftrightarrow> world_ok ctx_background (sy_world S) \<and> jobs_ok (jobs_at (sy_world S)) \<and>
     owned E (jobs_at (sy_world S)) (sy_pc S)"

text \<open>
  A start: the workers have nothing in hand, and the tables are as earlier runs left them; an
  empty schema is one.
\<close>

definition sys_start :: "'z sys \<Rightarrow> bool" where
  "sys_start S \<longleftrightarrow> world_ok ctx_background (sy_world S) \<and> jobs_ok (jobs_at (sy_world S)) \<and>
     sy_pc S = (\<lambda>_. Idle)"

lemma sys_start_empty: "sys_start \<lparr>sy_world = world_init z, sy_pc = (\<lambda>_. Idle)\<rparr>"
proof -
  have "jobs_at (world_init z) = Map.empty"
    by (simp add: pg_jobs_def pg_view_def ctx_background_def world_init_def jobs_of_def empty_tables_def)
  then show ?thesis by (simp add: sys_start_def jobs_ok_def)
qed

lemma sys_inv_start: "sys_start S \<Longrightarrow> sys_inv E S"
  by (simp add: sys_start_def sys_inv_def owned_def)

lemma settle_effect:
  assumes w: "world_ok c w" and top: "ctx_tx c = None"
    and run: "CompleteQuoteUpdate (ProvideFXRatesService E rp st) c i (known res) src w = (x, w')"
  shows "world_ok c w' \<and> settles (uuid_key E i) (pg_jobs c w) (pg_jobs c w')"
proof -
  have "io_keeps (world_ok c) (known res c)" "snd (known res c w) = w"
    by (cases res; simp add: known_def io_keeps_return io_keeps_fail io_simps)+
  then show ?thesis using pg_fx.complete_moves [where fetch = "known res", OF _ _ w top run] by simp
qed

lemma drop_hand: "distinct (map fst ((i, p) # js)) \<Longrightarrow> (i', q) \<in> set js \<Longrightarrow> i' \<noteq> i"
  by force

text \<open>A change of one job in a worker's hand, which the worker then drops.\<close>

lemma owned_settle:
  assumes own: "owned E m (sy_pc S)" and pc: "sy_pc S n = Fetched i p res js"
    and m': "m' = m \<or> (\<exists>st err. m' = set_job i st err m)" and new: "pc \<in> {Idle, Loop js}"
  shows "owned E m' ((sy_pc S)(n := pc))"
proof (rule owned_update [OF own])
  have d: "distinct (map fst ((i, p) # js))" using own pc unfolding owned_def by (metis in_hand.simps(4))
  with new show "distinct (map fst (in_hand pc))" by auto
  from new pc show "set (in_hand pc) \<subseteq> set (in_hand (sy_pc S n))" by auto
  fix k i' q assume h: "(i', q) \<in> set (in_hand (((sy_pc S)(n := pc)) k))"
  have "i' \<noteq> i"
  proof (cases "k = n")
    case True
    with h new have "(i', q) \<in> set js" by auto
    with d show ?thesis by (rule drop_hand)
  next
    case False
    with h have "(i', q) \<in> set (in_hand (sy_pc S k))" by simp
    moreover have "(i, p) \<in> set (in_hand (sy_pc S n))" using pc by simp
    ultimately show ?thesis using owned_alone [OF own] False by metis
  qed
  with m' show "m' i' = m i'" by auto
qed

lemma owned_same_hand:
  "owned E m (sy_pc S) \<Longrightarrow> set (in_hand pc) \<subseteq> set (in_hand (sy_pc S n)) \<Longrightarrow> distinct (map fst (in_hand pc)) \<Longrightarrow>
   owned E m ((sy_pc S)(n := pc))"
  by (rule owned_update) auto

lemma hand_distinct: "owned E m pcs \<Longrightarrow> distinct (map fst (in_hand (pcs n)))"
  by (simp add: owned_def)

lemma finite_jobs: "finite (dom (jobs_at w))"
  by (simp add: pg_jobs_def jobs_of_def finite_dom_map_of)

text \<open>One step: the invariant is kept and the jobs move within their life.\<close>

abbreviation sim :: "pg_env \<Rightarrow> 'z sys \<Rightarrow> 'z sys \<Rightarrow> bool" where
  "sim E S S' \<equiv> world_ok ctx_background (sy_world S') \<and> owned E (jobs_at (sy_world S')) (sy_pc S') \<and>
     job_life\<^sup>*\<^sup>* (jobs_at (sy_world S)) (jobs_at (sy_world S'))"

lemma claim_sim:
  assumes inv: "sys_inv E S" and top: "ctx_tx c = None" and idle: "sy_pc S n = Idle"
    and run: "pg_ClaimQueued E c lmt (sy_world S) = (x, w)"
  shows "sim E S (goto n (after_claim x) w S)"
proof -
  from inv have wok: "world_ok c (sy_world S)" and jok: "jobs_ok (jobs_at (sy_world S))"
    and own: "owned E (jobs_at (sy_world S)) (sy_pc S)"
    by (simp_all add: sys_inv_def ok_top [of c])
  have wok': "world_ok ctx_background w" using pg_job.claim_inv [OF wok, of E lmt] run by (simp add: ok_top [of c])
  have run': "ClaimQueued (pg_job_repo E) c lmt (sy_world S) = (x, w)" using run by simp
  have life: "job_life\<^sup>*\<^sup>* (jobs_at (sy_world S)) (claim_jobs ids (jobs_at (sy_world S)))"
    if "\<forall>i \<in> ids. \<exists>j. jobs_at (sy_world S) i = Some j \<and> jv_status j = Queued" for ids
  proof (rule claim_jobs_life [OF _ that])
    from that have "ids \<subseteq> dom (jobs_at (sy_world S))" by auto
    then show "finite ids" by (rule finite_subset [OF _ finite_jobs])
  qed
  show ?thesis
  proof (cases x)
    case (Ok js)
    note ok = pg_job.claim_ok [OF wok run' [unfolded Ok], unfolded jobs_top [OF top]]
    have q: "\<forall>i \<in> fst ` set js. \<exists>j. jobs_at (sy_world S) i = Some j \<and> jv_status j = Queued" using ok by force
    have "owned E (jobs_at w) ((sy_pc S)(n := Loop js))"
      using owned_claim [OF own jok idle, of js] ok by simp
    with life [OF q] ok wok' show ?thesis by (simp add: goto_def after_claim_def Ok)
  next
    case (Err e)
    from pg_job.claim_err [OF wok run' [unfolded Err], unfolded jobs_top [OF top]] obtain ids where
      q: "\<forall>i \<in> ids. \<exists>j. jobs_at (sy_world S) i = Some j \<and> jv_status j = Queued"
      and m: "jobs_at w = claim_jobs ids (jobs_at (sy_world S))" by blast
    have same: "claim_jobs ids (jobs_at (sy_world S)) i = jobs_at (sy_world S) i"
      if "(i, p) \<in> set (in_hand (sy_pc S k))" for k i p
    proof -
      have "i \<notin> ids"
      proof
        assume "i \<in> ids"
        with q ownedD(2) [OF own that] show False by (metis QuoteUpdateStatus.distinct(1) job_view.select_convs(2) option.inject)
      qed
      then show ?thesis by simp
    qed
    have "owned E (jobs_at w) ((sy_pc S)(n := Idle))" unfolding m
      by (rule owned_update [OF own]) (use same idle in \<open>auto split: if_splits\<close>)
    with life [OF q] m wok' show ?thesis by (simp add: goto_def after_claim_def Err)
  next
    case (Panic y)
    with pg_job.claim_no_panic [OF wok, of E lmt y w] run' show ?thesis by simp
  qed
qed

lemma mark_sim:
  assumes inv: "sys_inv E S" and top: "ctx_tx c = None" and pc: "sy_pc S n = Loop ((i, p) # js)"
    and run: "pg_UpdateStatus E c i Processing None (sy_world S) = (x, w)"
  shows "sim E S (goto n (Marked i p js) w S)"
proof -
  from inv have wok: "world_ok c (sy_world S)" and own: "owned E (jobs_at (sy_world S)) (sy_pc S)"
    by (simp_all add: sys_inv_def ok_top [of c])
  have i: "(i, p) \<in> set (in_hand (sy_pc S n))" by (simp add: pc)
  have run': "UpdateStatus (pg_job_repo E) c i Processing None (sy_world S) = (x, w)" using run by simp
  have "world_ok ctx_background w"
    using pg_job.status_inv [OF wok, of E i Processing None] run by (simp add: ok_top [of c])
  moreover have "set_job (uuid_key E i) Processing None (jobs_at (sy_world S)) = jobs_at (sy_world S)"
    using ownedD [OF own i] by (simp add: set_job_def fun_upd_idem)
  then have "jobs_at w = jobs_at (sy_world S)"
    using pg_job.status_any [OF wok _ run', unfolded jobs_top [OF top]] by auto
  moreover have "owned E (jobs_at (sy_world S)) ((sy_pc S)(n := Marked i p js))"
    by (rule owned_same_hand [OF own]) (use pc hand_distinct [OF own, of n] in simp_all)
  ultimately show ?thesis by (simp add: goto_def)
qed

lemma fetch_sim:
  assumes inv: "sys_inv E S" and pc: "sy_pc S n = Marked i p js"
    and run: "FetchQuote (ProvideFXRatesService E rp st) c p (sy_world S) = (x, w)"
  shows "sim E S (goto n (after_fetch i p js x) w S)"
proof -
  from inv have wok: "world_ok ctx_background (sy_world S)" and own: "owned E (jobs_at (sy_world S)) (sy_pc S)"
    by (simp_all add: sys_inv_def)
  have "owned E (jobs_at (sy_world S)) ((sy_pc S)(n := after_fetch i p js x))"
    by (rule owned_same_hand [OF own])
      (use pc hand_distinct [OF own, of n] in \<open>auto simp: after_fetch_def split: outcome.split\<close>)
  with pg_fx.fetch_sees [OF wok run] show ?thesis by (simp add: goto_def)
qed

lemma settle_sim:
  assumes inv: "sys_inv E S" and top: "ctx_tx c = None" and pc: "sy_pc S n = Fetched i p res js"
    and run: "CompleteQuoteUpdate (ProvideFXRatesService E rp st) c i (known res) ''db'' (sy_world S) = (x, w)"
  shows "sim E S (goto n (after_settle js x) w S)"
proof -
  from inv have wok: "world_ok c (sy_world S)" and own: "owned E (jobs_at (sy_world S)) (sy_pc S)"
    by (simp_all add: sys_inv_def ok_top [of c])
  have i: "(i, p) \<in> set (in_hand (sy_pc S n))" by (simp add: pc)
  note own_i = ownedD [OF own i]
  note eff = settle_effect [OF wok top run, unfolded own_i jobs_top [OF top] settles_def]
  have "owned E (jobs_at w) ((sy_pc S)(n := after_settle js x))"
    by (rule owned_settle [OF own pc])
      (use eff in \<open>auto simp: after_settle_def split: outcome.split\<close>)
  moreover have "job_life\<^sup>*\<^sup>* (jobs_at (sy_world S)) (jobs_at w)"
    using eff set_job_life [where m = "jobs_at (sy_world S)" and i = i, OF own_i(2)] by auto
  ultimately show ?thesis using eff by (simp add: goto_def ok_top [of c])
qed

lemma api_sim:
  assumes inv: "sys_inv E S" and out: "router_outside env" and top: "ctx_tx (ReqCtx r) = None"
    and run: "serve env (NewRouter env (NewServer (ProvideFXRatesService E rp st))) r (sy_world S, new_writer) =
      (x, (w, wr))"
  shows "sim E S (S\<lparr>sy_world := w\<rparr>)"
proof -
  from inv have wok: "world_ok ctx_background (sy_world S)" and own: "owned E (jobs_at (sy_world S)) (sy_pc S)"
    by (simp_all add: sys_inv_def)
  have "only_created (jobs_at (sy_world S)) w"
    by (rule api_only [OF out top run]) (simp add: only_created_def wok)
  then have w: "world_ok ctx_background w" "created\<^sup>*\<^sup>* (jobs_at (sy_world S)) (jobs_at w)"
    by (simp_all add: only_created_def)
  have "owned E (jobs_at w) (sy_pc S)"
    by (rule owned_frame [OF own]) (metis ownedD(2) [OF own] created_run_keeps [OF w(2)])
  with w created_run_life show ?thesis by auto
qed

lemma sys_step_sim:
  assumes "sys_step E env rp st S S'" and inv: "sys_inv E S" and out: "router_outside env"
  shows "sim E S S'"
  using assms(1)
proof (cases rule: sys_step.cases)
  case api
  then show ?thesis using api_sim [OF inv out] by simp
next
  case claim
  then show ?thesis using claim_sim [OF inv] by simp
next
  case mark
  then show ?thesis using mark_sim [OF inv] by simp
next
  case fetch
  then show ?thesis using fetch_sim [OF inv] by simp
next
  case settle
  then show ?thesis using settle_sim [OF inv] by simp
next
  case elsewhere
  then obtain t z where S': "S' = S\<lparr>sy_world := (sy_world S)\<lparr>ticks := t, rest := z\<rparr>\<rparr>" by blast
  have "same_db (sy_world S) ((sy_world S)\<lparr>ticks := t, rest := z\<rparr>)" by (simp add: same_db_def)
  from same_dbD [OF this] show ?thesis using inv by (simp add: sys_inv_def S')
qed (use inv owned_same_hand [of E "jobs_at (sy_world S)" S Idle] in \<open>auto simp: goto_def sys_inv_def\<close>)

lemma sys_run_sim:
  assumes "(sys_step E env rp st)\<^sup>*\<^sup>* S S'" and "sys_inv E S" and "router_outside env"
  shows "sys_inv E S' \<and> job_life\<^sup>*\<^sup>* (jobs_at (sy_world S)) (jobs_at (sy_world S'))"
  using assms(1)
proof (induction rule: rtranclp_induct)
  case base
  show ?case using assms(2) by simp
next
  case (step S1 S2)
  from sys_step_sim [OF step.hyps(2) _ assms(3)] step.IH
  have "sim E S1 S2" and one: "sys_inv E S1" by auto
  then have "sys_inv E S2" using job_life_run_ok unfolding sys_inv_def by blast
  with \<open>sim E S1 S2\<close> step.IH show ?case by (meson rtranclp_trans)
qed

subsection \<open>A batch is a run of one worker\<close>

lemma goto_simps [simp]:
  "sy_world (goto n pc w S) = w" "sy_pc (goto n pc w S) n = pc" "goto n pc w (goto n pc' w' S) = goto n pc w S"
  by (simp_all add: goto_def)

text \<open>A completion is its fetch, then a completion with what was fetched.\<close>

lemma complete_known:
  "CompleteQuoteUpdate svc c i fetch src w = (case fetch c w of
     (Ok q, w1) \<Rightarrow> CompleteQuoteUpdate svc c i (known (Inr q)) src w1
   | (Err e, w1) \<Rightarrow> CompleteQuoteUpdate svc c i (known (Inl e)) src w1
   | (Panic p, w1) \<Rightarrow> (Panic p, w1))"
  by (simp add: CompleteQuoteUpdate_def known_def io_simps split: prod.split outcome.split)

lemma pg_update_no_panic: "pg_UpdateStatus E c i st err w \<noteq> (Panic p, w')"
  by (auto simp: pg_UpdateStatus_def io_simps split: outcome.splits prod.splits if_splits)

lemma job_steps:
  assumes pc: "sy_pc S n = Loop ((i, p) # js)" and top: "ctx_tx c = None"
    and mark: "pg_UpdateStatus E c i Processing None (sy_world S) = (y, w1)"
    and run: "CompleteQuoteUpdate (ProvideFXRatesService E rp st) c i
      (\<lambda>c'. FetchQuote (ProvideFXRatesService E rp st) c' p) ''db'' w1 = (x, w2)"
  shows "(sys_step E env rp st)\<^sup>*\<^sup>* S (goto n (after_settle js x) w2 S)"
proof -
  let ?step = "sys_step E env rp st"
  let ?svc = "ProvideFXRatesService E rp st"
  have 1: "?step S (goto n (Marked i p js) w1 S)" by (rule sys_step.mark [OF top pc mark])
  obtain f w' where fetch: "FetchQuote ?svc c p w1 = (f, w')" by fastforce
  have 2: "?step (goto n (Marked i p js) w1 S) (goto n (after_fetch i p js f) w' S)"
    using sys_step.fetch [of "goto n (Marked i p js) w1 S" n i p js E rp st c f w' env] fetch by simp
  show ?thesis
  proof (cases "\<exists>m. f = Panic m")
    case True
    then have "w' = w2" "after_fetch i p js f = after_settle js x"
      using run fetch by (auto simp: complete_known [of ?svc] after_fetch_def after_settle_def)
    with 1 2 show ?thesis by (metis converse_rtranclp_into_rtranclp rtranclp.rtrancl_refl)
  next
    case False
    then obtain res where res: "after_fetch i p js f = Fetched i p res js"
      and settle: "CompleteQuoteUpdate ?svc c i (known res) ''db'' w' = (x, w2)"
      using run fetch by (cases f) (auto simp: complete_known [of ?svc] after_fetch_def)
    have "?step (goto n (Fetched i p res js) w' S) (goto n (after_settle js x) w2 S)"
      using sys_step.settle [of c "goto n (Fetched i p res js) w' S" n i p res js E rp st x w2 env] top settle by simp
    with 1 2 res show ?thesis by (metis converse_rtranclp_into_rtranclp rtranclp.rtrancl_refl)
  qed
qed

lemma loop_steps:
  assumes "sy_pc S n = Loop js" and "ctx_tx c = None"
    and "process_jobs (ProvideFXRatesService E rp st) c js e (sy_world S) = (x, w)"
  shows "(sys_step E env rp st)\<^sup>*\<^sup>* S (goto n Idle w S)"
  using assms(1,3)
proof (induction js arbitrary: S e)
  case Nil
  then have "sys_step E env rp st S (goto n Idle w S)"
    using sys_step.finish [of S n E env rp st] by (simp add: io_simps)
  then show ?case by simp
next
  case (Cons jp js)
  let ?svc = "ProvideFXRatesService E rp st"
  obtain i p where jp: "jp = (i, p)" by fastforce
  obtain y w1 where mark: "pg_UpdateStatus E c i Processing None (sy_world S) = (y, w1)" by fastforce
  obtain z w2 where comp: "CompleteQuoteUpdate ?svc c i (\<lambda>c'. FetchQuote ?svc c' p) ''db'' w1 = (z, w2)"
    by fastforce
  have steps: "(sys_step E env rp st)\<^sup>*\<^sup>* S (goto n (after_settle js z) w2 S)"
    by (rule job_steps [OF _ assms(2) mark comp]) (simp add: Cons.prems(1) jp)
  have y: "\<nexists>m. y = Panic m" using pg_update_no_panic mark by blast
  show ?case
  proof (cases "\<exists>m. z = Panic m")
    case True
    then have "w = w2" using Cons.prems(2) y mark comp
      by (cases y) (auto simp: jp io_simps)
    with True steps show ?thesis by (auto simp: after_settle_def)
  next
    case False
    then obtain e' where "process_jobs ?svc c js e' w2 = (x, w)"
      using Cons.prems(2) y mark comp by (cases y; cases z) (auto simp: jp io_simps)
    moreover have "after_settle js z = Loop js" using False by (cases z) (auto simp: after_settle_def)
    ultimately have "(sys_step E env rp st)\<^sup>*\<^sup>* (goto n (after_settle js z) w2 S) (goto n Idle w S)"
      using Cons.IH [of "goto n (Loop js) w2 S" e'] by simp
    with steps show ?thesis by (rule rtranclp_trans)
  qed
qed

lemma batch_steps:
  assumes idle: "sy_pc S n = Idle" and top: "ctx_tx c = None"
    and run: "ProcessQueueBatch (ProvideFXRatesService E rp st) c lmt (sy_world S) = (x, w)"
  shows "(sys_step E env rp st)\<^sup>*\<^sup>* S (goto n Idle w S)"
proof -
  obtain y w1 where claim: "pg_ClaimQueued E c lmt (sy_world S) = (y, w1)" by fastforce
  have 1: "sys_step E env rp st S (goto n (after_claim y) w1 S)"
    by (rule sys_step.claim [OF top idle claim])
  show ?thesis
  proof (cases y)
    case (Ok js)
    obtain z w2 where loop: "process_jobs (ProvideFXRatesService E rp st) c js None w1 = (z, w2)" by fastforce
    have "w2 = w" using run claim Ok loop
      by (cases z) (auto simp: ProcessQueueBatch_def io_simps split: option.splits)
    then have "(sys_step E env rp st)\<^sup>*\<^sup>* (goto n (Loop js) w1 S) (goto n Idle w S)"
      using loop_steps [of "goto n (Loop js) w1 S" n js c E rp st None z w env] top loop by simp
    with 1 Ok show ?thesis by (simp add: after_claim_def converse_rtranclp_into_rtranclp)
  qed (use 1 run claim in \<open>auto simp: ProcessQueueBatch_def io_simps after_claim_def\<close>)
qed

text \<open>
  C12: The steps of a worker are the steps of \<open>ProcessQueueBatch\<close>: whatever a batch does, a worker
  with nothing in hand does it by steps of the system and has nothing in hand after, with the
  same database and surroundings as the batch leaves.
\<close>

theorem batch_is_steps:
  assumes "sy_pc S n = Idle" and "ctx_tx c = None"
    and "ProcessQueueBatch (ProvideFXRatesService E rp st) c lmt (sy_world S) = (x, w)"
  shows "(sys_step E env rp st)\<^sup>*\<^sup>* S (goto n Idle w S)"
  using assms by (rule batch_steps)

subsection \<open>A demonstration\<close>

definition quiet_router :: "'z world router_env" where
  "quiet_router = \<lparr>re_uuid = (\<lambda>s. (''id-1'', s)), re_now = (\<lambda>s. (0, s)),
     re_read_file = (\<lambda>_. io_fail (Foreign ''no such file'')), re_json_err = (\<lambda>_. Foreign ''invalid''),
     re_bind = \<lparr>BindQuery = (\<lambda>k vs. Inr (values_get vs k)), BindStyled = (\<lambda>_ v. Inr v)\<rparr>,
     re_find = (\<lambda>_ _. NoRoute),
     re_not_found = (\<lambda>_. on_writer (http_Error_on sr_WriteHeader sr_Write ''404 page not found'' 404)),
     re_no_method = (\<lambda>_. on_writer (sr_WriteHeader 405))\<rparr>"

lemma quiet_outside: "router_outside quiet_router"
  by (auto simp: router_outside_def quiet_router_def same_db_def io_simps)

text \<open>A database with a queued job and one that is done.\<close>

definition shop_tables :: tables where
  "shop_tables = \<lparr>t_quotes = [], t_jobs = [demo_job 1 7, (demo_job 2 5)\<lparr>ju_status := ''done''\<rparr>], t_hist = []\<rparr>"

definition shop :: "unit sys" where
  "shop = \<lparr>sy_world = demo_world\<lparr>committed := shop_tables\<rparr>, sy_pc = (\<lambda>_. Idle)\<rparr>"

definition done_id :: string where
  "done_id = uuid_text (\<lambda>i. 2)"

lemma shop_jobs: "jobs_at (sy_world shop) =
  [demo_id \<mapsto> \<lparr>jv_pair = ''USD/EUR'', jv_status = Queued, jv_error = None\<rparr>,
   done_id \<mapsto> \<lparr>jv_pair = ''USD/EUR'', jv_status = Done, jv_error = None\<rparr>]"
proof -
  have "demo_id \<noteq> done_id" by code_simp
  then show ?thesis
    by (auto simp: shop_def pg_jobs_def pg_view_def demo_world_def jobs_of_def shop_tables_def demo_job_def
        demo_id_def done_id_def job_of_row_def fun_eq_iff)
qed

lemma shop_start: "sys_start shop"
proof -
  have "tables_ok shop_tables" by code_simp
  then have "world_ok ctx_background (sy_world shop)"
    by (simp add: world_ok_def shop_def demo_world_def)
  moreover have "ValidatePair ''USD/EUR''" by code_simp
  then have "jobs_ok (jobs_at (sy_world shop))"
    unfolding shop_jobs by (auto simp: jobs_ok_def job_ok_def split: if_splits)
  ultimately show ?thesis by (simp add: sys_start_def) (simp add: shop_def)
qed

text \<open>Worker 0 claims up to five jobs.\<close>

definition shop_open :: "unit sys" where
  "shop_open = (case pg_ClaimQueued demo_env ctx_background 5 (sy_world shop) of
     (x, w) \<Rightarrow> goto 0 (after_claim x) w shop)"

lemma shop_step: "(sys_step demo_env quiet_router demo_rate NoopIdempotency)\<^sup>*\<^sup>* shop shop_open"
proof -
  obtain x w where run: "pg_ClaimQueued demo_env ctx_background 5 (sy_world shop) = (x, w)" by fastforce
  have "sy_pc shop 0 = Idle" by (simp add: shop_def)
  then have "sys_step demo_env quiet_router demo_rate NoopIdempotency shop shop_open"
    unfolding shop_open_def run prod.case by (rule sys_step.claim [OF demo_ctx _ run])
  then show ?thesis ..
qed

lemma shop_claimed: "fst (pg_ClaimQueued demo_env ctx_background 5 (sy_world shop)) = Ok [(demo_id, ''USD/EUR'')]"
proof -
  have "fst (run_pool demo_env ctx_background (sql_claim demo_env 5) (sy_world shop)) = Ok [(demo_id, ''USD/EUR'')]"
    by code_simp
  then show ?thesis by (simp add: pg_ClaimQueued_def pg_run_def)
qed

lemma shop_hand: "in_hand (sy_pc shop_open 0) = [(demo_id, ''USD/EUR'')]"
  using shop_claimed
  by (cases "pg_ClaimQueued demo_env ctx_background 5 (sy_world shop)")
    (simp add: shop_open_def after_claim_def)

subsection \<open>Properties\<close>

text \<open>
  C1: The processes refine the life of the jobs: between any two points of any run of the database
  mode (requests, workers, transactions, crashes and failures of the database interleaved in any
  way) the jobs in the database have moved by steps of their abstract machine only.
\<close>

theorem db_mode_refines:
  assumes "sys_start S" and "router_outside env"
    and "(sys_step E env rp st)\<^sup>*\<^sup>* S S1" and "(sys_step E env rp st)\<^sup>*\<^sup>* S1 S2"
  shows "job_life\<^sup>*\<^sup>* (jobs_at (sy_world S1)) (jobs_at (sy_world S2))"
  using sys_run_sim [OF assms(3) sys_inv_start [OF assms(1)] assms(2)]
    sys_run_sim [OF assms(4) _ assms(2)] by blast

lemma db_mode_refines_witness:
  "job_life\<^sup>*\<^sup>* (jobs_at (sy_world shop)) (jobs_at (sy_world shop_open))"
  by (rule db_mode_refines [OF shop_start quiet_outside rtranclp.rtrancl_refl shop_step])

text \<open>
  C11: Every job the database ever holds is well formed: its pair is one the service supports, its
  status one of the four, and it has an error text exactly if it has failed.
\<close>

theorem db_mode_jobs_typed:
  assumes "sys_start S" and "router_outside env" and "(sys_step E env rp st)\<^sup>*\<^sup>* S S1"
    and "jobs_at (sy_world S1) i = Some j"
  shows "ValidatePair (jv_pair j) \<and> known_status (jv_status j) \<and> (jv_error j \<noteq> None) = (jv_status j = Failed)"
  using sys_run_sim [OF assms(3) sys_inv_start [OF assms(1)] assms(2)] assms(4)
  by (simp add: sys_inv_def jobs_ok_def job_ok_def)

lemma db_mode_jobs_typed_witness:
  "\<exists>j. jobs_at (sy_world shop) done_id = Some j \<and> ValidatePair (jv_pair j) \<and> known_status (jv_status j) \<and>
     (jv_error j \<noteq> None) = (jv_status j = Failed)"
proof -
  have "jobs_at (sy_world shop) done_id = Some \<lparr>jv_pair = ''USD/EUR'', jv_status = Done, jv_error = None\<rparr>"
    by (simp add: shop_jobs)
  from db_mode_jobs_typed [OF shop_start quiet_outside rtranclp.rtrancl_refl this] this show ?thesis by blast
qed

text \<open>
  C5: A claimed job is in the hands of one worker only, once, and while it is there the database
  shows it as in progress for the very pair the worker was given, whatever the other workers and
  the requests do.
\<close>

theorem db_mode_one_worker:
  assumes "sys_start S" and "router_outside env" and "(sys_step E env rp st)\<^sup>*\<^sup>* S S1"
    and "(i, p) \<in> set (in_hand (sy_pc S1 n))" and "(i, q) \<in> set (in_hand (sy_pc S1 k))"
  shows "n = k \<and> p = q \<and> distinct (map fst (in_hand (sy_pc S1 n))) \<and>
    jobs_at (sy_world S1) i = Some \<lparr>jv_pair = p, jv_status = Processing, jv_error = None\<rparr>"
proof -
  have own: "owned E (jobs_at (sy_world S1)) (sy_pc S1)"
    using sys_run_sim [OF assms(3) sys_inv_start [OF assms(1)] assms(2)] by (simp add: sys_inv_def)
  have "n = k" using owned_alone [OF own assms(4), of k q] assms(5) by metis
  with ownedD(2) [OF own assms(4)] ownedD(2) [OF own assms(5)] hand_distinct [OF own] show ?thesis by simp
qed

lemma db_mode_one_worker_witness:
  "jobs_at (sy_world shop_open) demo_id = Some \<lparr>jv_pair = ''USD/EUR'', jv_status = Processing, jv_error = None\<rparr>"
  using db_mode_one_worker [OF shop_start quiet_outside shop_step, of demo_id "''USD/EUR''" 0 "''USD/EUR''" 0]
  by (simp add: shop_hand)

text \<open>
  C6: A settled job is final: once the database shows a job as done or failed, no later step of any
  process, in any interleaving, changes its status, its error or its pair, or removes it.
\<close>

theorem db_mode_settled_final:
  assumes "sys_start S" and "router_outside env" and "(sys_step E env rp st)\<^sup>*\<^sup>* S S1"
    and "jobs_at (sy_world S1) i = Some j" and "jv_status j \<in> {Done, Failed}"
    and "(sys_step E env rp st)\<^sup>*\<^sup>* S1 S2"
  shows "jobs_at (sy_world S2) i = Some j"
proof -
  have "job_life\<^sup>*\<^sup>* (jobs_at (sy_world S1)) (jobs_at (sy_world S2))"
    using sys_run_sim [OF assms(3) sys_inv_start [OF assms(1)] assms(2)] sys_run_sim [OF assms(6) _ assms(2)]
    by blast
  from job_life_run_later [OF this assms(4)] assms(5) show ?thesis by (auto simp: later_def)
qed

lemma db_mode_settled_final_witness:
  "jobs_at (sy_world shop_open) done_id = Some \<lparr>jv_pair = ''USD/EUR'', jv_status = Done, jv_error = None\<rparr>"
  by (rule db_mode_settled_final [OF shop_start quiet_outside rtranclp.rtrancl_refl _ _ shop_step])
    (simp_all add: shop_jobs)

lemma batch_is_steps_witness:
  "\<exists>w. (sys_step demo_env quiet_router demo_rate NoopIdempotency)\<^sup>*\<^sup>* shop (goto 0 Idle w shop) \<and>
     w = snd (ProcessQueueBatch demo_svc ctx_background 5 (sy_world shop))"
proof -
  obtain x w where run: "ProcessQueueBatch demo_svc ctx_background 5 (sy_world shop) = (x, w)" by fastforce
  have "sy_pc shop 0 = Idle" by (simp add: shop_def)
  from batch_is_steps [OF this demo_ctx run] run show ?thesis by auto
qed

end
