(* ===== verification/Grpc.thy ===== *)
theory Grpc
  imports Service Workers Go_Time
begin

section \<open>Fetching a rate over gRPC\<close>

text \<open>
  \<^verbatim>\<open>internal/infrastructure/grpc/rateserver\<close> and \<^verbatim>\<open>rateclient\<close>, and the dispatcher of
  \<^verbatim>\<open>internal/bootstrap/providers.go\<close> that completes an update with a rate fetched this way. The
  gRPC library is not code of the repository: a call over its connection is an argument, and so
  is the error of a time that cannot be parsed.
\<close>

record FetchRequest =
  fq_Pair :: string
  fq_TraceId :: string

record FetchResponse =
  fr_Pair :: string
  fr_Price :: go_float
  fr_UpdatedAt :: string

subsection \<open>The server\<close>

text \<open>\<open>QuoteFetcher\<close>, the one method the server needs of the service.\<close>

type_synonym 's quote_fetcher = "ctx \<Rightarrow> string \<Rightarrow> ('s, Quote) io"

record 's RateServer =
  rsv_svc :: "'s quote_fetcher"

definition NewRateServer :: "'s quote_fetcher \<Rightarrow> 's RateServer" where
  "NewRateServer svc = \<lparr>rsv_svc = svc\<rparr>"

definition server_Fetch :: "'s RateServer \<Rightarrow> ctx \<Rightarrow> FetchRequest \<Rightarrow> ('s, FetchResponse) io" where
  "server_Fetch srv c req =
     io_bind (io_try (rsv_svc srv c (fq_Pair req))) (\<lambda>res. case res of
       Inl e \<Rightarrow> io_fail e
     | Inr q \<Rightarrow> io_return \<lparr>fr_Pair = Q_Pair q, fr_Price = Q_Price q,
         fr_UpdatedAt = format_rfc3339 (Q_UpdatedAt q)\<rparr>)"

text \<open>
  \<open>RunServer\<close>: listen, serve in the background, and wait for the first of two events. The calls
  on the listener and the library's server are listed in their order.
\<close>

datatype grpc_call = NetListen string | RegisterRate | Serve | GracefulStop

datatype grpc_event = GCtxDone | ServeEnded "go_error option"

definition RunServer :: "go_error option \<Rightarrow> grpc_event \<Rightarrow> string \<Rightarrow> unit outcome \<times> grpc_call list" where
  "RunServer listen_err ev addr = (case listen_err of
     Some e \<Rightarrow> (Err e, [NetListen addr])
   | None \<Rightarrow>
       let start = [NetListen addr, RegisterRate, Serve] in
       case ev of
         GCtxDone \<Rightarrow> (Ok (), start @ [GracefulStop])
       | ServeEnded None \<Rightarrow> (Ok (), start)
       | ServeEnded (Some e) \<Rightarrow> (Err e, start))"

subsection \<open>The client\<close>

record 's RateClient =
  rc_invoke :: "ctx \<Rightarrow> FetchRequest \<Rightarrow> ('s, FetchResponse) io"
  rc_now :: "'s \<Rightarrow> int"

definition client_Fetch ::
  "'s RateClient \<Rightarrow> ctx \<Rightarrow> string \<Rightarrow> string \<Rightarrow> int \<Rightarrow> ('s, FetchResponse) io" where
  "client_Fetch cl c pair traceID timeout s =
     (let c1 = (if 0 < timeout then ctx_with_timeout c (rc_now cl s) timeout else c)
      in rc_invoke cl c1 \<lparr>fq_Pair = pair, fq_TraceId = traceID\<rparr> s)"

subsection \<open>The dispatcher\<close>

text \<open>The fetch the dispatcher hands to \<open>CompleteQuoteUpdate\<close>.\<close>

definition grpc_fetch ::
  "(string \<Rightarrow> go_error) \<Rightarrow> 's RateClient \<Rightarrow> int \<Rightarrow> string \<Rightarrow> string \<Rightarrow> ctx \<Rightarrow> ('s, Quote) io" where
  "grpc_fetch time_err cl timeout pair traceID cctx =
     io_bind (io_try (client_Fetch cl cctx pair traceID timeout)) (\<lambda>res. case res of
       Inl e \<Rightarrow> io_fail e
     | Inr r \<Rightarrow> (case parse_rfc3339 (fr_UpdatedAt r) of
         None \<Rightarrow> io_fail (time_err (fr_UpdatedAt r))
       | Some t \<Rightarrow> io_return \<lparr>Q_Pair = fr_Pair r, Q_Price = fr_Price r, Q_UpdatedAt = t\<rparr>))"

text \<open>
  The goroutine of one dispatched update. Its result is only logged; a panic is not recovered.
\<close>

definition grpc_task ::
  "(string \<Rightarrow> go_error) \<Rightarrow> 's FXRatesService \<Rightarrow> 's RateClient \<Rightarrow> int \<Rightarrow> UpdateMsg \<Rightarrow> ('s, unit) io" where
  "grpc_task time_err svc cl timeout m =
     io_bind (io_try (CompleteQuoteUpdate svc ctx_background (um_ID m)
        (grpc_fetch time_err cl timeout (um_Pair m) (um_TraceID m)) ''grpc'')) (\<lambda>_. io_return ())"

text \<open>The dispatcher starts the goroutine (\<open>spawn\<close>) and reports success.\<close>

definition grpc_dispatch ::
  "(UpdateMsg \<Rightarrow> 's \<Rightarrow> 's) \<Rightarrow> ctx \<Rightarrow> string \<Rightarrow> string \<Rightarrow> string \<Rightarrow> ('s, unit) io" where
  "grpc_dispatch spawn c i pair traceID s =
     (Ok (), spawn \<lparr>um_ID = i, um_Pair = pair, um_TraceID = traceID\<rparr> s)"

subsection \<open>What the client gets is what the provider gave\<close>

text \<open>
  A call in the state \<open>s\<close> that reaches the server over a connection and whose end reaches the
  client: the call runs the server's method, its answer arrives as it was sent, and its error
  arrives as a status of the library. \<^verbatim>\<open>run.go\<close> installs no recovery, so a panic of the method ends
  the process of the server and the client sees the connection break: the library's status
  \<^verbatim>\<open>Unavailable\<close>, never a panic of the client.
\<close>

definition connected ::
  "(go_error \<Rightarrow> go_error) \<Rightarrow> go_error \<Rightarrow> 's RateServer \<Rightarrow> 's RateClient \<Rightarrow> 's \<Rightarrow> bool" where
  "connected status unavailable srv cl s \<longleftrightarrow> (\<forall>c req. rc_invoke cl c req s =
     (case server_Fetch srv c req s of
        (Ok r, s') \<Rightarrow> (Ok r, s')
      | (Err e, s') \<Rightarrow> (Err (status e), s')
      | (Panic p, s') \<Rightarrow> (Err unavailable, s')))"

text \<open>
  C23: Fetching over gRPC is fetching: for a call that reaches the rate server and is answered,
  the dispatcher's fetch returns the very quote the server's provider returned, pair, price and
  instant (in the years 0 to 9999), an error where it returned an error, and an error where the
  server's process ended by a panic, so that the dispatcher itself goes on; the provider is asked
  once, for the same pair, under a context whose deadline is at most the request timeout away.
\<close>

theorem grpc_fetch_is_fetch:
  assumes conn: "connected status unavailable (NewRateServer (\<lambda>c p. FetchQuote svc c p)) cl s"
    and t: "0 < timeout"
    and run: "FetchQuote svc (ctx_with_timeout c (rc_now cl s) timeout) pair s = (x, s')"
    and years: "\<forall>q. x = Ok q \<longrightarrow> - 62167219200000000000 \<le> Q_UpdatedAt q \<and> Q_UpdatedAt q < 253402300800000000000"
  shows "grpc_fetch time_err cl timeout pair trace c s = (case x of
     Ok q \<Rightarrow> (Ok q, s') | Err e \<Rightarrow> (Err (status e), s') | Panic p \<Rightarrow> (Err unavailable, s'))"
proof -
  have "rc_invoke cl (ctx_with_timeout c (rc_now cl s) timeout) \<lparr>fq_Pair = pair, fq_TraceId = trace\<rparr> s =
    (case x of Ok q \<Rightarrow> (Ok \<lparr>fr_Pair = Q_Pair q, fr_Price = Q_Price q,
        fr_UpdatedAt = format_rfc3339 (Q_UpdatedAt q)\<rparr>, s')
     | Err e \<Rightarrow> (Err (status e), s') | Panic p \<Rightarrow> (Err unavailable, s'))"
    using conn run by (simp add: connected_def server_Fetch_def NewRateServer_def io_simps split: outcome.split)
  then show ?thesis
    using t years parse_format_rfc3339
    by (auto simp: grpc_fetch_def client_Fetch_def io_simps Let_def split: outcome.splits)
qed

text \<open>
  A client of a server whose provider quotes one pair and panics on every other: the connection
  is the one of \<open>connected\<close>.
\<close>

definition demo_fetch :: "unit quote_fetcher" where
  "demo_fetch c p s = (if p = ''EUR/USD''
     then (Ok \<lparr>Q_Pair = p, Q_Price = Fin 2, Q_UpdatedAt = 1735689600123456789\<rparr>, s)
     else (Panic ''boom'', s))"

definition demo_client :: "unit RateClient" where
  "demo_client = \<lparr>rc_invoke = (\<lambda>c req s. case server_Fetch (NewRateServer demo_fetch) c req s of
       (Panic p, s') \<Rightarrow> (Err (Foreign ''Unavailable''), s') | r \<Rightarrow> r), rc_now = (\<lambda>_. 0)\<rparr>"

lemma grpc_fetch_is_fetch_witness:
  "grpc_fetch (\<lambda>t. Foreign t) demo_client 3000000000 ''EUR/USD'' ''t1'' ctx_background () =
     (Ok \<lparr>Q_Pair = ''EUR/USD'', Q_Price = Fin 2, Q_UpdatedAt = 1735689600123456789\<rparr>, ()) \<and>
   grpc_fetch (\<lambda>t. Foreign t) demo_client 3000000000 ''USD/MXN'' ''t2'' ctx_background () =
     (Err (Foreign ''Unavailable''), ())"
proof -
  let ?rp = "\<lparr>Get = demo_fetch\<rparr> :: unit RateProvider"
  let ?svc = "NewService (io_return 0) (io_return []) None None (Some ?rp) None []"
  have f: "FetchQuote ?svc c p s = demo_fetch c p s" for c p s
    by (simp add: FetchQuote_def NewService_def io_call_def)
  have conn: "connected (\<lambda>e. e) (Foreign ''Unavailable'') (NewRateServer (\<lambda>c p. FetchQuote ?svc c p)) demo_client ()"
    by (simp add: connected_def demo_client_def NewRateServer_def server_Fetch_def f io_simps
      split: prod.split outcome.split)
  have "grpc_fetch (\<lambda>t. Foreign t) demo_client 3000000000 ''EUR/USD'' ''t1'' ctx_background () =
      (case Ok \<lparr>Q_Pair = ''EUR/USD'', Q_Price = Fin 2, Q_UpdatedAt = 1735689600123456789\<rparr> of
        Ok q \<Rightarrow> (Ok q, ()) | Err e \<Rightarrow> (Err e, ()) | Panic p \<Rightarrow> (Err (Foreign ''Unavailable''), ()))"
    by (rule grpc_fetch_is_fetch [OF conn]) (simp_all add: f demo_fetch_def)
  moreover have "grpc_fetch (\<lambda>t. Foreign t) demo_client 3000000000 ''USD/MXN'' ''t2'' ctx_background () =
      (case Panic ''boom'' of
        Ok q \<Rightarrow> (Ok q, ()) | Err e \<Rightarrow> (Err e, ()) | Panic p \<Rightarrow> (Err (Foreign ''Unavailable''), ()))"
    by (rule grpc_fetch_is_fetch [OF conn]) (simp_all add: f demo_fetch_def)
  ultimately show ?thesis by simp
qed

end
