(* ===== verification/Httpx.thy ===== *)
theory Httpx
  imports Go_Strings
begin

section \<open>The JSON-over-HTTP client with retries\<close>

text \<open>
  \<^verbatim>\<open>internal/infrastructure/httpx/httpx.go\<close>. The HTTP transport (\<open>http.Client.Do\<close>) and
  \<open>backoff.Retry\<close> are not code of the repository: they are arguments of \<open>DoJSON\<close>. What
  the code relies on of the retry library is \<open>retry_contract\<close>.
\<close>

record BackoffConfig =
  Initial :: int
  Max :: int
  Total :: int

record http_request =
  rq_base :: string
  rq_path :: string
  rq_query :: "(string \<times> string) list"
  rq_auth :: "string option"

record http_response =
  StatusCode :: int
  Body :: string

record 's http_client =
  Token :: string
  HTTP :: "(ctx \<Rightarrow> http_request \<Rightarrow> ('s, http_response) io) option"

text \<open>The result of one attempt, as the retry library reads it.\<close>

datatype 'a attempt = Succeeded 'a | Transient go_error | Permanent go_error

type_synonym ('s, 'a) retry = "ctx \<Rightarrow> BackoffConfig \<Rightarrow> ('s, 'a attempt) io \<Rightarrow> ('s, 'a) io"

text \<open>
  The documented behaviour of \<open>backoff.Retry\<close>: it runs the operation; a success ends it with
  the value, a permanent error ends it with that error, and after any other error it either
  gives up with an error or waits and starts again. \<open>waits\<close> says which states a wait can
  lead to.
\<close>

inductive retry_runs ::
  "('s \<Rightarrow> 's \<Rightarrow> bool) \<Rightarrow> ('s, 'a attempt) io \<Rightarrow> 's \<Rightarrow> 'a outcome \<Rightarrow> 's \<Rightarrow> nat \<Rightarrow> bool"
  for waits :: "'s \<Rightarrow> 's \<Rightarrow> bool" and op :: "('s, 'a attempt) io" where
  success: "op s = (Ok (Succeeded a), s') \<Longrightarrow> retry_runs waits op s (Ok a) s' (Suc 0)"
| permanent: "op s = (Ok (Permanent e), s') \<Longrightarrow> retry_runs waits op s (Err e) s' (Suc 0)"
| panic: "op s = (Panic p, s') \<Longrightarrow> retry_runs waits op s (Panic p) s' (Suc 0)"
| give_up: "op s = (Ok (Transient e), s1) \<Longrightarrow> waits s1 s' \<Longrightarrow> retry_runs waits op s (Err e') s' (Suc 0)"
| again: "op s = (Ok (Transient e), s1) \<Longrightarrow> waits s1 s2 \<Longrightarrow> retry_runs waits op s2 r s' k \<Longrightarrow>
    retry_runs waits op s r s' (Suc k)"

definition retry_contract :: "('s \<Rightarrow> 's \<Rightarrow> bool) \<Rightarrow> ('s, 'a) retry \<Rightarrow> bool" where
  "retry_contract waits retry \<longleftrightarrow>
     (\<forall>c cfg op s. (\<forall>s. \<forall>e s'. op s \<noteq> (Err e, s')) \<longrightarrow>
        (\<exists>k. retry_runs waits op s (fst (retry c cfg op s)) (snd (retry c cfg op s)) k))"

definition default_backoff :: BackoffConfig where
  "default_backoff = \<lparr>Initial = 200000000, Max = 1000000000, Total = 3000000000\<rparr>"

subsection \<open>The client\<close>

text \<open>The error of a response whose status is not 200; statuses from 500 up are retried.\<close>

definition status_error :: "http_response \<Rightarrow> 'a attempt" where
  "status_error resp =
     (let snippet = trim_space (take 2048 (Body resp)); code = show_int (StatusCode resp) in
      if 500 \<le> StatusCode resp
      then if snippet \<noteq> []
           then Transient (ErrorString (''server error '' @ code @ '': '' @ snippet))
           else Transient (ErrorString (''server error '' @ code))
      else if snippet \<noteq> []
           then Permanent (ErrorString (''status '' @ code @ '': '' @ snippet))
           else Permanent (ErrorString (''status '' @ code)))"

definition handle_response :: "(string \<Rightarrow> go_error + 'a) \<Rightarrow> http_response \<Rightarrow> 'a attempt" where
  "handle_response decode resp =
     (if 500 \<le> StatusCode resp \<or> StatusCode resp \<noteq> 200 then status_error resp
      else case decode (Body resp) of
        Inl e \<Rightarrow> Permanent (Wrapped ''decode: '' e)
      | Inr a \<Rightarrow> Succeeded a)"

definition http_op ::
  "(ctx \<Rightarrow> http_request \<Rightarrow> ('s, http_response) io) \<Rightarrow> (string \<Rightarrow> go_error + 'a) \<Rightarrow> ctx \<Rightarrow> http_request \<Rightarrow>
   ('s, 'a attempt) io" where
  "http_op send decode c req =
     io_bind (io_try (send c req)) (\<lambda>res. case res of
       Inl e \<Rightarrow> io_return (Transient e)
     | Inr resp \<Rightarrow> io_return (handle_response decode resp))"

definition DoJSON ::
  "('s, 'a) retry \<Rightarrow> (ctx \<Rightarrow> http_request \<Rightarrow> ('s, http_response) io) \<Rightarrow> (string \<Rightarrow> go_error + 'a) \<Rightarrow>
   's http_client \<Rightarrow> ctx \<Rightarrow> http_request \<Rightarrow> BackoffConfig option \<Rightarrow> ('s, 'a) io" where
  "DoJSON retry default_client decode client c req cfg =
     (let req' = (if Token client \<noteq> [] then req\<lparr>rq_auth := Some (''Bearer '' @ Token client)\<rparr> else req);
          send = (case HTTP client of Some f \<Rightarrow> f | None \<Rightarrow> default_client);
          cfg' = (case cfg of Some x \<Rightarrow> x | None \<Rightarrow> default_backoff)
      in retry c cfg' (http_op send decode c req'))"

subsection \<open>What a run of the client is\<close>

lemma http_op_no_err: "http_op send decode c req s \<noteq> (Err e, s')"
  by (auto simp: http_op_def io_simps split: outcome.splits sum.splits prod.splits)

definition sender ::
  "(ctx \<Rightarrow> http_request \<Rightarrow> ('s, http_response) io) \<Rightarrow> 's http_client \<Rightarrow>
   ctx \<Rightarrow> http_request \<Rightarrow> ('s, http_response) io" where
  "sender default_client client = (case HTTP client of Some f \<Rightarrow> f | None \<Rightarrow> default_client)"

definition authorised :: "'s http_client \<Rightarrow> http_request \<Rightarrow> http_request" where
  "authorised client req =
     (if Token client \<noteq> [] then req\<lparr>rq_auth := Some (''Bearer '' @ Token client)\<rparr> else req)"

lemma DoJSON_eq:
  "DoJSON retry dflt decode client c req cfg =
     retry c (case cfg of Some x \<Rightarrow> x | None \<Rightarrow> default_backoff)
       (http_op (sender dflt client) decode c (authorised client req))"
  by (simp add: DoJSON_def Let_def sender_def authorised_def)

lemma DoJSON_runs:
  assumes "retry_contract waits retry"
  shows "\<exists>k. retry_runs waits (http_op (sender dflt client) decode c (authorised client req)) s
      (fst (DoJSON retry dflt decode client c req cfg s)) (snd (DoJSON retry dflt decode client c req cfg s)) k"
  using assms http_op_no_err unfolding retry_contract_def DoJSON_eq by metis

lemma status_error_settled: "StatusCode resp < 500 \<Longrightarrow> \<exists>e. status_error resp = Permanent e"
  by (simp add: status_error_def Let_def)

lemma status_error_not_succeeded: "status_error resp \<noteq> Succeeded a"
  by (simp add: status_error_def Let_def)

lemma handle_response_settled:
  "StatusCode resp < 500 \<Longrightarrow> handle_response decode resp \<noteq> Transient e"
  by (auto simp: handle_response_def status_error_def Let_def split: sum.splits)

lemma handle_response_ok:
  "handle_response decode resp = Succeeded a \<Longrightarrow> StatusCode resp = 200 \<and> decode (Body resp) = Inr a"
  by (auto simp: handle_response_def status_error_not_succeeded split: if_splits sum.splits)

text \<open>A response that is not a server error ends the run: the request is not sent again.\<close>

lemma retry_runs_settled:
  assumes "retry_runs waits (http_op send decode c req) s r s' k"
    and "send c req s = (Ok resp, s1)" and "StatusCode resp < 500"
  shows "k = 1 \<and> s' = s1 \<and> (case handle_response decode resp of
      Succeeded a \<Rightarrow> r = Ok a | Permanent e \<Rightarrow> r = Err e | Transient e \<Rightarrow> False)"
proof -
  have op: "http_op send decode c req s = (Ok (handle_response decode resp), s1)"
    using assms(2) by (simp add: http_op_def io_simps)
  from assms(1) show ?thesis
  proof (cases rule: retry_runs.cases)
    case (give_up e s1)
    then show ?thesis using op by (simp add: handle_response_settled [OF assms(3)])
  next
    case (again e s1 s2 k)
    then show ?thesis using op by (simp add: handle_response_settled [OF assms(3)])
  qed (use op in simp_all)
qed

text \<open>A run that answers decoded the body of a response with status 200.\<close>

lemma retry_runs_ok:
  assumes "retry_runs waits (http_op send decode c req) s r s' k" and "r = Ok a"
  shows "\<exists>s1 resp. send c req s1 = (Ok resp, s') \<and> StatusCode resp = 200 \<and> decode (Body resp) = Inr a"
  using assms
proof (induction rule: retry_runs.induct)
  case (success s b s')
  then have op: "http_op send decode c req s = (Ok (Succeeded a), s')" by simp
  then obtain resp where "send c req s = (Ok resp, s')" and "handle_response decode resp = Succeeded a"
    by (auto simp: http_op_def io_simps split: outcome.splits sum.splits prod.splits)
  then have "send c req s = (Ok resp, s') \<and> StatusCode resp = 200 \<and> decode (Body resp) = Inr a"
    by (simp add: handle_response_ok)
  then show ?case by blast
qed auto

end
