(* ===== verification/Provider.thy ===== *)
theory Provider
  imports Httpx Ports
begin

section \<open>The rate providers\<close>

text \<open>
  \<^verbatim>\<open>internal/infrastructure/provider\<close>: the exchangeratesapi client and the fake. The answer
  of the API gives, for its own base currency, the price of other currencies; the price of a
  pair is read off directly, by inversion, or as a cross rate. \<open>url_query\<close> stands for the URL
  parser of the standard library: \<^verbatim>\<open>None\<close> for a base URL that \<open>url.Parse\<close> refuses, else the values
  of its query, which \<open>Get\<close> keeps. \<open>decode\<close> is the JSON decoding of the answer.
\<close>

record api_response =
  Success :: bool
  Timestamp :: int
  Base :: string
  Rates :: "string \<rightharpoonup> go_float"
  ApiError :: "(int \<times> string) option"

record 's ExchangeRatesAPIProvider =
  BaseURL :: string
  APIKey :: string
  Client :: "'s http_client"
  BackoffCfg :: "BackoffConfig option"

text \<open>The rate of a pair in an answer, or the reason there is none.\<close>

definition api_rate :: "string \<Rightarrow> api_response \<Rightarrow> go_error + go_float" where
  "api_rate pair res =
     (let base = pair_base pair; qt = pair_quote pair in
      case Rates res pair of
        Some r \<Rightarrow> Inr r
      | None \<Rightarrow>
          if Base res = base then
            (case Rates res qt of
               None \<Rightarrow> Inl (ErrorString (''provider: missing rate for '' @ qt))
             | Some r \<Rightarrow> Inr r)
          else if Base res = qt then
            (case Rates res base of
               None \<Rightarrow> Inl (ErrorString (''provider: missing or zero rate for '' @ base))
             | Some bv \<Rightarrow>
                 if bv = Fin 0 then Inl (ErrorString (''provider: missing or zero rate for '' @ base))
                 else Inr (go_div (Fin 1) bv))
          else
            (case (Rates res qt, Rates res base) of
               (Some qv, Some bv) \<Rightarrow>
                 if bv = Fin 0
                 then Inl (ErrorString (''provider: missing rates for '' @ base @ '' or '' @ qt))
                 else Inr (go_div qv bv)
             | _ \<Rightarrow> Inl (ErrorString (''provider: missing rates for '' @ base @ '' or '' @ qt))))"

definition quote_of_response :: "string \<Rightarrow> api_response \<Rightarrow> go_error + Quote" where
  "quote_of_response pair res =
     (if \<not> Success res \<or> ApiError res \<noteq> None then
        (case ApiError res of
           Some (code, info) \<Rightarrow>
             Inl (ErrorString (''provider: api_error code='' @ show_int code @ '' info='' @ info))
         | None \<Rightarrow> Inl (ErrorString ''provider: api_error''))
      else case api_rate pair res of
        Inl e \<Rightarrow> Inl e
      | Inr rate \<Rightarrow>
          Inr \<lparr>Q_Pair = pair, Q_Price = rate, Q_UpdatedAt = Timestamp res * 10 ^ 9\<rparr>)"

text \<open>
  \<open>Values.Set\<close> replaces all values of a key. \<open>Encode\<close> orders the keys; the order of different
  keys carries no meaning and the model leaves it open.
\<close>

definition values_set :: "string \<Rightarrow> string \<Rightarrow> (string \<times> string) list \<Rightarrow> (string \<times> string) list" where
  "values_set k v qs = filter (\<lambda>(k', _). k' \<noteq> k) qs @ [(k, v)]"

definition api_request ::
  "'s ExchangeRatesAPIProvider \<Rightarrow> string \<Rightarrow> (string \<times> string) list \<Rightarrow> http_request" where
  "api_request p pair qs =
     \<lparr>rq_base = BaseURL p, rq_path = ''/v1/latest'',
      rq_query = values_set ''symbols'' (pair_base pair @ '','' @ pair_quote pair)
        (values_set ''access_key'' (APIKey p) qs),
      rq_auth = None\<rparr>"

definition api_Get ::
  "('s, api_response) retry \<Rightarrow> (ctx \<Rightarrow> http_request \<Rightarrow> ('s, http_response) io) \<Rightarrow>
   (string \<Rightarrow> go_error + api_response) \<Rightarrow> (string \<Rightarrow> (string \<times> string) list option) \<Rightarrow>
   's ExchangeRatesAPIProvider \<Rightarrow> ctx \<Rightarrow> string \<Rightarrow> ('s, Quote) io" where
  "api_Get retry default_client decode url_query p c pair =
     (if \<not> ValidatePair pair then io_fail (ErrorString (''provider: invalid pair '' @ go_quote pair))
      else case url_query (BaseURL p) of
        None \<Rightarrow> io_panic ''invalid memory address or nil pointer dereference''
      | Some qs \<Rightarrow> io_bind
        (io_try (DoJSON retry default_client decode (Client p) c (api_request p pair qs) (BackoffCfg p)))
        (\<lambda>r. case r of
           Inl e \<Rightarrow> io_fail (Wrapped ''provider: '' e)
         | Inr res \<Rightarrow> (case quote_of_response pair res of
             Inl e \<Rightarrow> io_fail e
           | Inr q \<Rightarrow> io_return q)))"

record Fake =
  fake_price :: go_float

definition NewFake :: "go_float \<Rightarrow> Fake" where
  "NewFake p = \<lparr>fake_price = p\<rparr>"

definition fake_Get :: "('s, int) io \<Rightarrow> Fake \<Rightarrow> ctx \<Rightarrow> string \<Rightarrow> ('s, Quote) io" where
  "fake_Get time_now f c pair =
     io_bind time_now (\<lambda>t. io_return \<lparr>Q_Pair = pair, Q_Price = fake_price f, Q_UpdatedAt = t\<rparr>)"

subsection \<open>The price that is reported\<close>

text \<open>
  C28: An answer of the API that lists its own base currency's prices (\<open>Rates res x\<close> is the
  price of one unit of the base in \<open>x\<close>, and the base itself is worth one) yields for a
  supported pair the quotient of the two prices, rounded to float64, whichever of the three
  cases the code takes; a zero price of the pair's base currency is refused.
\<close>

theorem api_rate_cross:
  assumes "ValidatePair pair" and "Rates res pair = None"
    and "price (Base res) = 1" and "\<forall>x. x \<noteq> Base res \<longrightarrow> Rates res x = map_option Fin (listed x)"
    and "listed (pair_base pair) = Some (price (pair_base pair)) \<or> Base res = pair_base pair"
    and "listed (pair_quote pair) = Some (price (pair_quote pair)) \<or> Base res = pair_quote pair"
    and "f64 (price (pair_quote pair)) = Fin (price (pair_quote pair))"
  shows "api_rate pair res =
    (if price (pair_base pair) = 0
     then Inl (ErrorString
       (if Base res = pair_quote pair then ''provider: missing or zero rate for '' @ pair_base pair
        else ''provider: missing rates for '' @ pair_base pair @ '' or '' @ pair_quote pair))
     else Inr (f64 (price (pair_quote pair) / price (pair_base pair))))"
proof -
  have ne: "pair_base pair \<noteq> pair_quote pair"
    using assms(1) by (auto simp: ValidatePair_def split: if_splits)
  consider "Base res = pair_base pair" | "Base res = pair_quote pair"
    | "Base res \<noteq> pair_base pair" "Base res \<noteq> pair_quote pair" by blast
  then show ?thesis
  proof cases
    case 1
    then have "Rates res (pair_quote pair) = Some (Fin (price (pair_quote pair)))"
      using assms(4,6) ne by auto
    then show ?thesis using assms(2,3,7) 1 ne by (simp add: api_rate_def Let_def)
  next
    case 2
    then have "Rates res (pair_base pair) = Some (Fin (price (pair_base pair)))"
      using assms(4,5) ne by auto
    then show ?thesis using assms(2,3) 2 ne by (simp add: api_rate_def Let_def go_div_def)
  next
    case 3
    then have "Rates res (pair_base pair) = Some (Fin (price (pair_base pair)))"
      and "Rates res (pair_quote pair) = Some (Fin (price (pair_quote pair)))"
      using assms(4,5,6) by auto
    then show ?thesis using assms(2) 3 by (simp add: api_rate_def Let_def go_div_def)
  qed
qed

lemma api_rate_cross_witness:
  "api_rate ''USD/MXN'' \<lparr>Success = True, Timestamp = 0, Base = ''EUR'',
     Rates = (\<lambda>x. if x = ''USD'' then Some (Fin 2) else if x = ''MXN'' then Some (Fin 16) else None),
     ApiError = None\<rparr> = Inr (f64 (16 / 2))"
proof -
  let ?res = "\<lparr>Success = True, Timestamp = 0, Base = ''EUR'',
     Rates = (\<lambda>x. if x = ''USD'' then Some (Fin 2) else if x = ''MXN'' then Some (Fin 16) else None),
     ApiError = None\<rparr>"
  have v: "ValidatePair ''USD/MXN''" and bq: "pair_base ''USD/MXN'' = ''USD''" "pair_quote ''USD/MXN'' = ''MXN''"
    by code_simp+
  have f: "f64 16 = Fin 16" by code_simp
  show ?thesis
    using api_rate_cross [of "''USD/MXN''" ?res
        "\<lambda>x. if x = ''USD'' then 2 else if x = ''MXN'' then 16 else 1"
        "\<lambda>x. if x = ''USD'' then Some 2 else if x = ''MXN'' then Some 16 else None"]
      v bq f by simp
qed

subsection \<open>The requests that are sent\<close>

definition api_answer :: "string \<Rightarrow> api_response attempt \<Rightarrow> Quote outcome" where
  "api_answer pair a = (case a of
     Succeeded res \<Rightarrow> (case quote_of_response pair res of Inl e \<Rightarrow> Err e | Inr q \<Rightarrow> Ok q)
   | Permanent e \<Rightarrow> Err (Wrapped ''provider: '' e)
   | Transient e \<Rightarrow> Err (Wrapped ''provider: '' e))"

text \<open>
  When the API answers the first request with anything but a server error (a status below
  500), that request is the only one: the state is the one the request left, and the result is
  the decoded quote, or a permanent error for another status than 200 or a body that does not
  decode.
\<close>

theorem api_Get_no_retry:
  assumes "retry_contract waits retry" and "ValidatePair pair" and "url_query (BaseURL p) = Some qs"
    and "sender dflt (Client p) c (authorised (Client p) (api_request p pair qs)) s = (Ok resp, s1)"
    and "StatusCode resp < 500"
  shows "api_Get retry dflt decode url_query p c pair s = (api_answer pair (handle_response decode resp), s1)"
proof -
  let ?do = "DoJSON retry dflt decode (Client p) c (api_request p pair qs) (BackoffCfg p) s"
  obtain r s' where run: "?do = (r, s')" by fastforce
  obtain k where "retry_runs waits (http_op (sender dflt (Client p)) decode c
      (authorised (Client p) (api_request p pair qs))) s r s' k"
    using DoJSON_runs [OF assms(1), of dflt "Client p" decode c "api_request p pair qs" s "BackoffCfg p"]
    by (auto simp: run)
  from retry_runs_settled [OF this assms(4,5)]
  show ?thesis using assms(2,3)
    by (auto simp: api_Get_def io_simps run api_answer_def split: attempt.splits sum.splits)
qed

text \<open>A retry that never waits: it gives up on the first transient error.\<close>

definition retry_once :: "('s, 'a) retry" where
  "retry_once c cfg op s = (case op s of
     (Ok (Succeeded a), s') \<Rightarrow> (Ok a, s')
   | (Ok (Permanent e), s') \<Rightarrow> (Err e, s')
   | (Ok (Transient e), s') \<Rightarrow> (Err e, s')
   | (Err e, s') \<Rightarrow> (Err e, s')
   | (Panic p, s') \<Rightarrow> (Panic p, s'))"

lemma retry_once_contract: "retry_contract (=) retry_once"
  unfolding retry_contract_def
proof (intro allI impI)
  fix c cfg and op :: "('a, 'b attempt) io" and s
  assume ne: "\<forall>s e s'. op s \<noteq> (Err e, s')"
  obtain r s' where op: "op s = (r, s')" by fastforce
  have "retry_runs (=) op s (fst (retry_once c cfg op s)) (snd (retry_once c cfg op s)) (Suc 0)"
  proof (cases r)
    case (Ok a)
    then show ?thesis using op
      by (cases a) (auto simp: retry_once_def intro: retry_runs.intros)
  next
    case (Err e)
    then show ?thesis using op ne by blast
  next
    case (Panic p)
    then show ?thesis using op by (auto simp: retry_once_def intro: retry_runs.intros)
  qed
  then show "\<exists>k. retry_runs (=) op s (fst (retry_once c cfg op s)) (snd (retry_once c cfg op s)) k"
    by blast
qed

definition demo_provider :: "nat ExchangeRatesAPIProvider" where
  "demo_provider = \<lparr>BaseURL = ''https://api'', APIKey = ''k'',
     Client = \<lparr>Token = [], HTTP = Some (\<lambda>c req n. (Ok \<lparr>StatusCode = 404, Body = '' no ''\<rparr>, Suc n))\<rparr>,
     BackoffCfg = None\<rparr>"

lemma api_Get_no_retry_witness:
  "api_Get retry_once (\<lambda>c req. io_panic ''unused'') (\<lambda>b. Inl (ErrorString ''bad'')) (\<lambda>u. Some [])
     demo_provider ctx_background ''EUR/USD'' 0
   = (Err (Wrapped ''provider: '' (ErrorString ''status 404: no'')), 1)"
proof -
  have v: "ValidatePair ''EUR/USD''" by code_simp
  have h: "handle_response (\<lambda>b. Inl (ErrorString ''bad'')) \<lparr>StatusCode = 404, Body = '' no ''\<rparr>
    = (Permanent (ErrorString ''status 404: no'') :: api_response attempt)"
  proof -
    have "trim_space (take 2048 '' no '') = ''no''" and "show_int 404 = ''404''" by code_simp+
    then show ?thesis by (simp add: handle_response_def status_error_def Let_def)
  qed
  show ?thesis
    using api_Get_no_retry [OF retry_once_contract v, of "\<lambda>u. Some []" demo_provider "[]"
        "\<lambda>c req. io_panic ''unused''" ctx_background 0 "\<lparr>StatusCode = 404, Body = '' no ''\<rparr>" 1
        "\<lambda>b. Inl (ErrorString ''bad'')"]
    by (simp add: demo_provider_def sender_def h api_answer_def)
qed

text \<open>
  C29: A quote that the API client returns comes from the body of a response with status 200 to
  this request: it decodes to an answer marked successful and without an error object, the
  quote is for the pair asked for, its instant is the answer's timestamp (in seconds), and its
  price is the rate of the pair in that answer.
\<close>

theorem api_Get_sound:
  assumes "retry_contract waits retry" and "api_Get retry dflt decode url_query p c pair s = (Ok q, s')"
  shows "ValidatePair pair \<and> Q_Pair q = pair \<and>
    (\<exists>qs s1 resp res. url_query (BaseURL p) = Some qs \<and>
      sender dflt (Client p) c (authorised (Client p) (api_request p pair qs)) s1 = (Ok resp, s') \<and>
      StatusCode resp = 200 \<and> decode (Body resp) = Inr res \<and> Success res \<and> ApiError res = None \<and>
      api_rate pair res = Inr (Q_Price q) \<and> Q_UpdatedAt q = Timestamp res * 10 ^ 9)"
proof -
  from assms(2) obtain qs where qs: "url_query (BaseURL p) = Some qs" and v: "ValidatePair pair"
    by (auto simp: api_Get_def io_simps split: if_splits option.splits)
  let ?do = "DoJSON retry dflt decode (Client p) c (api_request p pair qs) (BackoffCfg p) s"
  obtain r s2 where run: "?do = (r, s2)" by fastforce
  with assms(2) obtain res where r: "r = Ok res" and s2: "s2 = s'"
    and q: "quote_of_response pair res = Inr q"
    by (auto simp: api_Get_def io_simps qs v split: outcome.splits sum.splits)
  obtain k where "retry_runs waits (http_op (sender dflt (Client p)) decode c
      (authorised (Client p) (api_request p pair qs))) s r s2 k"
    using DoJSON_runs [OF assms(1), of dflt "Client p" decode c "api_request p pair qs" s "BackoffCfg p"]
    by (auto simp: run)
  note ok = retry_runs_ok [OF this r]
  have "Success res" and "ApiError res = None"
    using q by (cases "ApiError res"; auto simp: quote_of_response_def split: if_splits)+
  then have "api_rate pair res = Inr (Q_Price q)" and "Q_Pair q = pair"
    and "Q_UpdatedAt q = Timestamp res * 10 ^ 9"
    using q by (auto simp: quote_of_response_def split: sum.splits)
  with ok s2 v qs \<open>Success res\<close> \<open>ApiError res = None\<close> show ?thesis by blast
qed

definition demo_answer :: api_response where
  "demo_answer = \<lparr>Success = True, Timestamp = 1700000000, Base = ''EUR'',
     Rates = (\<lambda>x. if x = ''USD'' then Some (Fin (5/4)) else None), ApiError = None\<rparr>"

definition up_provider :: "nat ExchangeRatesAPIProvider" where
  "up_provider = \<lparr>BaseURL = ''https://api'', APIKey = ''k'',
     Client = \<lparr>Token = [], HTTP = Some (\<lambda>c req n. (Ok \<lparr>StatusCode = 200, Body = ''body''\<rparr>, Suc n))\<rparr>,
     BackoffCfg = None\<rparr>"

lemma api_Get_sound_witness:
  "\<exists>q. api_Get retry_once (\<lambda>c req. io_panic ''unused'') (\<lambda>b. Inr demo_answer) (\<lambda>u. Some [(''v'', ''2''), (''symbols'', ''x'')]) up_provider
      ctx_background ''EUR/USD'' 0 = (Ok q, 1) \<and>
    Q_Pair q = ''EUR/USD'' \<and> Q_UpdatedAt q = 1700000000 * 10 ^ 9 \<and> api_rate ''EUR/USD'' demo_answer = Inr (Q_Price q)"
proof -
  let ?get = "api_Get retry_once (\<lambda>c req. io_panic ''unused'') (\<lambda>b. Inr demo_answer) (\<lambda>u. Some [(''v'', ''2''), (''symbols'', ''x'')]) up_provider
      ctx_background ''EUR/USD''"
  have v: "ValidatePair ''EUR/USD''" and b: "pair_base ''EUR/USD'' = ''EUR''" "pair_quote ''EUR/USD'' = ''USD''"
    by code_simp+
  have "quote_of_response ''EUR/USD'' demo_answer =
      Inr \<lparr>Q_Pair = ''EUR/USD'', Q_Price = Fin (5/4), Q_UpdatedAt = 1700000000 * 10 ^ 9\<rparr>"
    by (simp add: quote_of_response_def api_rate_def Let_def demo_answer_def b)
  then obtain q where run: "?get 0 = (Ok q, 1)"
    using v by (simp add: api_Get_def DoJSON_def Let_def up_provider_def retry_once_def http_op_def
        handle_response_def io_simps)
  from api_Get_sound [OF retry_once_contract run] run show ?thesis
    by (auto simp: demo_answer_def)
qed

end
