(* ===== verification/Api_Json.thy ===== *)
theory Api_Json
  imports Provider Openapi
begin

section \<open>Decoding the answer of the rate API\<close>

text \<open>
  What \<open>json.Decoder.Decode\<close> makes of an answer for the type \<open>apiResponse\<close> of
  \<^verbatim>\<open>internal/infrastructure/provider/exchangeratesapi.go\<close>: one member after the other is stored
  in the field its name matches in any case; a null leaves a field alone (and makes a map or a
  pointer nil); a value of another type, a timestamp that is not an integer of 64 bits and a rate
  beyond float64 are errors that the decoder reports at its end. The text of its error is a
  parameter.
\<close>

subsection \<open>Numbers\<close>

definition digits_value :: "string \<Rightarrow> rat" where
  "digits_value ds = fold (\<lambda>ch a. 10 * a + of_nat (code_of ch - 48)) ds 0"

text \<open>The exponent after its letter.\<close>

definition exponent_value :: "string \<Rightarrow> int" where
  "exponent_value s = (case s of
     [] \<Rightarrow> 0
   | ch # t \<Rightarrow>
       if t \<noteq> [] \<and> hd t = CHR ''-'' then - \<lfloor>digits_value (tl t)\<rfloor>
       else if t \<noteq> [] \<and> hd t = CHR ''+'' then \<lfloor>digits_value (tl t)\<rfloor>
       else \<lfloor>digits_value t\<rfloor>)"

text \<open>The number a JSON literal denotes.\<close>

definition number_value :: "string \<Rightarrow> rat" where
  "number_value l =
     (let neg = l \<noteq> [] \<and> hd l = CHR ''-''; u = (if neg then tl l else l);
          (ip, v) = span_digits u;
          (fp, w) = (case v of ch # t \<Rightarrow> if ch = CHR ''.'' then span_digits t else ([], v) | [] \<Rightarrow> ([], []));
          m = (digits_value ip + digits_value fp / 10 ^ length fp) * 10 powi exponent_value w
      in if neg then - m else m)"

subsection \<open>Fields\<close>

text \<open>The answer so far and whether an error has been saved.\<close>

type_synonym decoding = "api_response \<times> bool"

definition zero_answer :: api_response where
  "zero_answer = \<lparr>Success = False, Timestamp = 0, Base = [], Rates = Map.empty, ApiError = None\<rparr>"

definition set_success :: "json \<Rightarrow> decoding \<Rightarrow> decoding" where
  "set_success v d = (case (v, d) of
     (JNull, _) \<Rightarrow> d | (JBool b, (r, bad)) \<Rightarrow> (r\<lparr>Success := b\<rparr>, bad) | (_, (r, bad)) \<Rightarrow> (r, True))"

text \<open>An integer field of 64 bits.\<close>

definition json_int :: "json \<Rightarrow> int \<Rightarrow> int option" where
  "json_int v old = (case v of JNull \<Rightarrow> Some old | JNum l \<Rightarrow> go_atoi l | _ \<Rightarrow> None)"

definition set_timestamp :: "json \<Rightarrow> decoding \<Rightarrow> decoding" where
  "set_timestamp v d = (case d of (r, bad) \<Rightarrow> (case json_int v (Timestamp r) of
     Some i \<Rightarrow> (r\<lparr>Timestamp := i\<rparr>, bad) | None \<Rightarrow> (r, True)))"

definition set_base :: "json \<Rightarrow> decoding \<Rightarrow> decoding" where
  "set_base v d = (case (v, d) of
     (JNull, _) \<Rightarrow> d | (JStr s, (r, bad)) \<Rightarrow> (r\<lparr>Base := s\<rparr>, bad) | (_, (r, bad)) \<Rightarrow> (r, True))"

text \<open>One element of the map of rates: it starts as zero, and a null leaves it so.\<close>

definition rate_value :: "json \<Rightarrow> go_float option" where
  "rate_value v = (case v of
     JNull \<Rightarrow> Some (Fin 0)
   | JNum l \<Rightarrow> (case f64 (number_value l) of Fin x \<Rightarrow> Some (Fin x) | _ \<Rightarrow> None)
   | _ \<Rightarrow> None)"

fun set_rate :: "string \<times> json \<Rightarrow> decoding \<Rightarrow> decoding" where
  "set_rate (k, v) (r, bad) = (case rate_value v of
     Some x \<Rightarrow> (r\<lparr>Rates := (Rates r)(k \<mapsto> x)\<rparr>, bad)
   | None \<Rightarrow> (r\<lparr>Rates := (Rates r)(k \<mapsto> Fin 0)\<rparr>, True))"

definition set_rates :: "json \<Rightarrow> decoding \<Rightarrow> decoding" where
  "set_rates v d = (case (v, d) of
     (JNull, (r, bad)) \<Rightarrow> (r\<lparr>Rates := Map.empty\<rparr>, bad)
   | (JObj ms, _) \<Rightarrow> fold set_rate ms d
   | (_, (r, bad)) \<Rightarrow> (r, True))"

text \<open>The error object: its members are stored in the object there is, or in a new one.\<close>

fun set_info :: "string \<times> json \<Rightarrow> (int \<times> string) \<times> bool \<Rightarrow> (int \<times> string) \<times> bool" where
  "set_info (k, v) ((code, info), bad) =
     (if fold_key k = ''code'' then
        (case json_int v code of Some i \<Rightarrow> ((i, info), bad) | None \<Rightarrow> ((code, info), True))
      else if fold_key k = ''info'' then
        (case v of JNull \<Rightarrow> ((code, info), bad) | JStr s \<Rightarrow> ((code, s), bad) | _ \<Rightarrow> ((code, info), True))
      else ((code, info), bad))"

definition set_error :: "json \<Rightarrow> decoding \<Rightarrow> decoding" where
  "set_error v d = (case (v, d) of
     (JNull, (r, bad)) \<Rightarrow> (r\<lparr>ApiError := None\<rparr>, bad)
   | (JObj ms, (r, bad)) \<Rightarrow>
       (case fold set_info ms (case ApiError r of Some e \<Rightarrow> e | None \<Rightarrow> (0, []), bad) of
          (e, bad') \<Rightarrow> (r\<lparr>ApiError := Some e\<rparr>, bad'))
   | (_, (r, bad)) \<Rightarrow> (r, True))"

fun set_field :: "string \<times> json \<Rightarrow> decoding \<Rightarrow> decoding" where
  "set_field (k, v) d =
     (let f = fold_key k in
      if f = ''success'' then set_success v d
      else if f = ''timestamp'' then set_timestamp v d
      else if f = ''base'' then set_base v d
      else if f = ''rates'' then set_rates v d
      else if f = ''error'' then set_error v d
      else d)"

definition decode_api :: "(string \<Rightarrow> go_error) \<Rightarrow> string \<Rightarrow> go_error + api_response" where
  "decode_api json_err body = (case read_json body of
     Some (JObj ms) \<Rightarrow> (case fold set_field ms (zero_answer, False) of
       (r, bad) \<Rightarrow> if bad then Inl (json_err body) else Inr r)
   | Some JNull \<Rightarrow> Inr zero_answer
   | _ \<Rightarrow> Inl (json_err body))"

subsection \<open>What is decoded\<close>

lemma fold_field_names [simp]:
  "fold_key ''success'' = ''success''" "fold_key ''timestamp'' = ''timestamp''" "fold_key ''base'' = ''base''"
  "fold_key ''rates'' = ''rates''" "fold_key ''error'' = ''error''" "fold_key ''code'' = ''code''" "fold_key ''info'' = ''info''"
  by (rule fold_key_lower, simp)+

lemma fold_rates:
  "\<forall>(k, v) \<in> set rs. rate_value v = Some (x v) \<Longrightarrow>
   fold set_rate rs (r, bad) = (r\<lparr>Rates := Rates r ++ map_of (rev (map (\<lambda>(k, v). (k, x v)) rs))\<rparr>, bad)"
proof (induction rs arbitrary: r)
  case Nil
  then show ?case by simp
next
  case (Cons m rs)
  obtain k v where m: "m = (k, v)" by (cases m)
  with Cons.prems have "rate_value v = Some (x v)" by simp
  with Cons show ?case by (simp add: m map_add_def fun_eq_iff split: option.split)
qed

subsection \<open>The documented form\<close>

text \<open>
  What the answer's members say, wherever they stand: each of the five names of \<open>apiResponse\<close>, in
  any case, is looked up among the members, whatever other members there are. A member that is
  absent or null leaves the zero value; one of another type has no value.
\<close>

definition member :: "(string \<times> json) list \<Rightarrow> string \<Rightarrow> json option" where
  "member ms n = map_of (map (\<lambda>(k, v). (fold_key k, v)) ms) n"

definition once :: "string list \<Rightarrow> (string \<times> json) list \<Rightarrow> bool" where
  "once ns ms \<longleftrightarrow> distinct (filter (\<lambda>k. k \<in> set ns) (map (\<lambda>(k, v). fold_key k) ms))"

text \<open>The value of a member, or the zero value.\<close>

definition valued :: "'a \<Rightarrow> (json \<Rightarrow> 'a option) \<Rightarrow> json option \<Rightarrow> 'a option" where
  "valued d f m = (case m of None \<Rightarrow> Some d | Some v \<Rightarrow> if v = JNull then Some d else f v)"

definition bool_of :: "json \<Rightarrow> bool option" where
  "bool_of v = (case v of JBool b \<Rightarrow> Some b | _ \<Rightarrow> None)"

definition int64_of :: "json \<Rightarrow> int option" where
  "int64_of v = (case v of JNum l \<Rightarrow> go_atoi l | _ \<Rightarrow> None)"

definition text_of :: "json \<Rightarrow> string option" where
  "text_of v = (case v of JStr s \<Rightarrow> Some s | _ \<Rightarrow> None)"

text \<open>The rates: every one a number within float64, or null, which counts as zero.\<close>

definition good_rate :: "json \<Rightarrow> bool" where
  "good_rate v = (case v of JNull \<Rightarrow> True | JNum l \<Rightarrow> (case f64 (number_value l) of Fin q \<Rightarrow> True | _ \<Rightarrow> False)
     | _ \<Rightarrow> False)"

definition rate_number :: "json \<Rightarrow> go_float" where
  "rate_number v = (case v of JNum l \<Rightarrow> f64 (number_value l) | _ \<Rightarrow> Fin 0)"

definition rates_of :: "json \<Rightarrow> (string \<rightharpoonup> go_float) option" where
  "rates_of v = (case v of
     JObj rs \<Rightarrow> if list_all (\<lambda>(k, v). good_rate v) rs
       then Some (map_of (rev (map (\<lambda>(k, v). (k, rate_number v)) rs))) else None
   | _ \<Rightarrow> None)"

definition error_of :: "json \<Rightarrow> (int \<times> string) option option" where
  "error_of v = (case v of
     JObj es \<Rightarrow> (case (valued 0 int64_of (member es ''code''), valued [] text_of (member es ''info'')) of
       (Some code, Some info) \<Rightarrow> Some (Some (code, info)) | _ \<Rightarrow> None)
   | _ \<Rightarrow> None)"

definition answer_value :: "(string \<times> json) list \<Rightarrow> api_response option" where
  "answer_value ms =
     (case (valued False bool_of (member ms ''success''), valued 0 int64_of (member ms ''timestamp''),
            valued [] text_of (member ms ''base''), valued Map.empty rates_of (member ms ''rates''),
            valued None error_of (member ms ''error'')) of
        (Some ok, Some t, Some b, Some rs, Some e) \<Rightarrow>
          Some \<lparr>Success = ok, Timestamp = t, Base = b, Rates = rs, ApiError = e\<rparr>
      | _ \<Rightarrow> None)"

definition answer_names :: "string list" where
  "answer_names = [''success'', ''timestamp'', ''base'', ''rates'', ''error'']"

text \<open>No documented name is given twice, in the answer and in its error object.\<close>

definition names_once :: "(string \<times> json) list \<Rightarrow> bool" where
  "names_once ms \<longleftrightarrow> once answer_names ms \<and>
     (case member ms ''error'' of Some (JObj es) \<Rightarrow> once [''code'', ''info''] es | _ \<Rightarrow> True)"

lemma member_snoc:
  "member (ms @ [(k, v)]) n = (case member ms n of Some x \<Rightarrow> Some x | None \<Rightarrow> if fold_key k = n then Some v else None)"
  by (simp add: member_def map_add_def split: option.split)

lemma once_snoc:
  "once ns (ms @ [(k, v)]) \<longleftrightarrow> once ns ms \<and> (fold_key k \<in> set ns \<longrightarrow> member ms (fold_key k) = None)"
  by (auto simp: once_def member_def map_of_eq_None_iff image_iff split_beta)

text \<open>Stored one after the other, the members of an error object give the looked-up values.\<close>

definition error_parts :: "(string \<times> json) list \<Rightarrow> int option \<times> string option" where
  "error_parts es = (valued 0 int64_of (member es ''code''), valued [] text_of (member es ''info''))"

lemma fold_info:
  "once [''code'', ''info''] es \<Longrightarrow>
   (case error_parts es of
      (Some code, Some info) \<Rightarrow> fold set_info es ((0, []), bad) = ((code, info), bad)
    | _ \<Rightarrow> snd (fold set_info es ((0, []), bad)))"
proof (induction es rule: rev_induct)
  case Nil
  then show ?case by (simp add: error_parts_def member_def valued_def)
next
  case (snoc m es)
  obtain k v where m: "m = (k, v)" by (cases m)
  obtain code info b where f: "fold set_info es ((0, []), bad) = ((code, info), b)" by (metis prod.exhaust)
  from snoc.prems have o: "once [''code'', ''info''] es"
    and n: "fold_key k = ''code'' \<Longrightarrow> member es ''code'' = None"
      "fold_key k = ''info'' \<Longrightarrow> member es ''info'' = None"
    by (auto simp: m once_snoc)
  from snoc.IH [OF o] n show ?case
    by (cases v)
      (auto simp: m f error_parts_def member_snoc valued_def int64_of_def text_of_def json_int_def
        simp del: fold_key.simps split: option.splits if_splits)
qed

lemma rate_value_spec: "rate_value v = (if good_rate v then Some (rate_number v) else None)"
  by (auto simp: rate_value_def good_rate_def rate_number_def split: json.split go_float.split)

lemma fold_rates_bad: "snd (fold set_rate rs (r, True))"
proof (induction rs arbitrary: r)
  case (Cons m rs)
  then show ?case by (cases m) (auto split: option.split)
qed simp

lemma fold_rates_none: "\<not> list_all (\<lambda>(k, v). good_rate v) rs \<Longrightarrow> snd (fold set_rate rs (r, bad))"
proof (induction rs arbitrary: r bad)
  case (Cons m rs)
  then show ?case by (cases m) (auto simp: rate_value_spec fold_rates_bad split: option.split)
qed simp

lemma fold_rates_all:
  "list_all (\<lambda>(k, v). good_rate v) rs \<Longrightarrow> fold set_rate rs (r, bad) =
     (r\<lparr>Rates := Rates r ++ map_of (rev (map (\<lambda>(k, v). (k, rate_number v)) rs))\<rparr>, bad)"
  by (rule fold_rates) (auto simp: list_all_iff rate_value_spec)

text \<open>An error that has been saved stays.\<close>

lemma set_info_bad: "snd (set_info m (e, True))"
  by (cases m; cases e) (auto split: option.split json.split)

lemma fold_info_bad: "snd (fold set_info es (e, True))"
proof (induction es arbitrary: e)
  case (Cons m es)
  then show ?case using set_info_bad [of m e] by (cases "set_info m (e, True)") simp
qed simp

lemma set_field_bad: "snd (set_field m (r, True))"
proof -
  obtain k v where m: "m = (k, v)" by (cases m)
  show ?thesis
    by (cases v)
      (auto simp: m set_success_def set_timestamp_def set_base_def set_rates_def set_error_def json_int_def
        fold_rates_bad fold_info_bad prod.case_eq_if Let_def simp del: fold_key.simps split: option.split)
qed

text \<open>One more member, whose name has not been seen, given that the ones before it were good.\<close>

lemma set_error_value:
  assumes "case v of JObj es \<Rightarrow> once [''code'', ''info''] es | _ \<Rightarrow> True" and "ApiError r = None"
  shows "case valued None error_of (Some v) of
      Some e \<Rightarrow> set_error v (r, False) = (r\<lparr>ApiError := e\<rparr>, False)
    | None \<Rightarrow> snd (set_error v (r, False))"
proof (cases v)
  case (JObj es)
  then have "once [''code'', ''info''] es" using assms(1) by simp
  from fold_info [OF this, of False] show ?thesis
    by (auto simp: JObj assms(2) set_error_def error_of_def valued_def error_parts_def prod.case_eq_if
      split: option.splits)
qed (use assms(2) in \<open>auto simp: set_error_def error_of_def valued_def\<close>)

lemma set_rates_value:
  assumes "Rates r = Map.empty"
  shows "case valued Map.empty rates_of (Some v) of
      Some rs \<Rightarrow> set_rates v (r, False) = (r\<lparr>Rates := rs\<rparr>, False)
    | None \<Rightarrow> snd (set_rates v (r, False))"
  using assms
  by (cases v) (auto simp: set_rates_def rates_of_def valued_def fold_rates_all fold_rates_none)

lemma set_success_value:
  assumes "\<not> Success r"
  shows "case valued False bool_of (Some v) of
      Some b \<Rightarrow> set_success v (r, False) = (r\<lparr>Success := b\<rparr>, False)
    | None \<Rightarrow> snd (set_success v (r, False))"
  using assms by (cases v) (auto simp: set_success_def bool_of_def valued_def)

lemma set_timestamp_value:
  assumes "Timestamp r = 0"
  shows "case valued 0 int64_of (Some v) of
      Some t \<Rightarrow> set_timestamp v (r, False) = (r\<lparr>Timestamp := t\<rparr>, False)
    | None \<Rightarrow> snd (set_timestamp v (r, False))"
  using assms by (cases v) (auto simp: set_timestamp_def json_int_def int64_of_def valued_def split: option.split)

lemma set_base_value:
  assumes "Base r = []"
  shows "case valued [] text_of (Some v) of
      Some b \<Rightarrow> set_base v (r, False) = (r\<lparr>Base := b\<rparr>, False)
    | None \<Rightarrow> snd (set_base v (r, False))"
  using assms by (cases v) (auto simp: set_base_def text_of_def valued_def)

text \<open>A name that is absent so far has its zero value.\<close>

lemma answer_value_absent:
  assumes "answer_value ms = Some r"
  shows "member ms ''success'' = None \<Longrightarrow> \<not> Success r"
    and "member ms ''timestamp'' = None \<Longrightarrow> Timestamp r = 0"
    and "member ms ''base'' = None \<Longrightarrow> Base r = []"
    and "member ms ''rates'' = None \<Longrightarrow> Rates r = Map.empty"
    and "member ms ''error'' = None \<Longrightarrow> ApiError r = None"
  using assms by (auto simp: answer_value_def valued_def split: option.splits)

lemma set_field_value:
  assumes "answer_value ms = Some r" and "names_once (ms @ [m])"
  shows "case answer_value (ms @ [m]) of
      Some r' \<Rightarrow> set_field m (r, False) = (r', False) | None \<Rightarrow> snd (set_field m (r, False))"
proof -
  obtain k v where m: "m = (k, v)" by (cases m)
  let ?f = "fold_key k"
  have new: "member ms ?f = None" if "?f \<in> set answer_names"
    using assms(2) that by (simp add: names_once_def m once_snoc)
  note absent = answer_value_absent [OF assms(1)]
  from assms(1) have vals: "valued False bool_of (member ms ''success'') = Some (Success r)"
    "valued 0 int64_of (member ms ''timestamp'') = Some (Timestamp r)"
    "valued [] text_of (member ms ''base'') = Some (Base r)"
    "valued Map.empty rates_of (member ms ''rates'') = Some (Rates r)"
    "valued None error_of (member ms ''error'') = Some (ApiError r)"
    by (auto simp: answer_value_def split: option.splits)
  have same: "member (ms @ [m]) n = member ms n" if "?f \<noteq> n" for n
    using that by (simp add: m member_snoc split: option.split)
  have set_m: "set_field m d = (if ?f = ''success'' then set_success v d
      else if ?f = ''timestamp'' then set_timestamp v d
      else if ?f = ''base'' then set_base v d
      else if ?f = ''rates'' then set_rates v d
      else if ?f = ''error'' then set_error v d else d)" for d
    by (simp add: m Let_def)
  consider "?f = ''success''" | "?f = ''timestamp''" | "?f = ''base''" | "?f = ''rates''" | "?f = ''error''"
    | "?f \<notin> set answer_names" by (auto simp: answer_names_def)
  then show ?thesis
  proof cases
    case 1
    with new have n: "member ms ''success'' = None" by (simp add: answer_names_def)
    have v: "member (ms @ [m]) ''success'' = Some v" using n 1 by (simp add: m member_snoc del: fold_key.simps)
    from set_success_value [OF absent(1) [OF n], of v] show ?thesis
      by (simp add: answer_value_def v same [unfolded 1] 1 vals set_m split: option.splits)
  next
    case 2
    with new have n: "member ms ''timestamp'' = None" by (simp add: answer_names_def)
    have v: "member (ms @ [m]) ''timestamp'' = Some v" using n 2 by (simp add: m member_snoc del: fold_key.simps)
    from set_timestamp_value [OF absent(2) [OF n], of v] show ?thesis
      by (simp add: answer_value_def v same [unfolded 2] 2 vals set_m split: option.splits)
  next
    case 3
    with new have n: "member ms ''base'' = None" by (simp add: answer_names_def)
    have v: "member (ms @ [m]) ''base'' = Some v" using n 3 by (simp add: m member_snoc del: fold_key.simps)
    from set_base_value [OF absent(3) [OF n], of v] show ?thesis
      by (simp add: answer_value_def v same [unfolded 3] 3 vals set_m split: option.splits)
  next
    case 4
    with new have n: "member ms ''rates'' = None" by (simp add: answer_names_def)
    have v: "member (ms @ [m]) ''rates'' = Some v" using n 4 by (simp add: m member_snoc del: fold_key.simps)
    from set_rates_value [OF absent(4) [OF n], of v] show ?thesis
      by (simp add: answer_value_def v same [unfolded 4] 4 vals set_m split: option.splits)
  next
    case 5
    with new have n: "member ms ''error'' = None" by (simp add: answer_names_def)
    have v: "member (ms @ [m]) ''error'' = Some v" using n 5 by (simp add: m member_snoc del: fold_key.simps)
    have "case v of JObj es \<Rightarrow> once [''code'', ''info''] es | _ \<Rightarrow> True"
      using assms(2) v by (simp add: names_once_def)
    from set_error_value [OF this absent(5) [OF n]] show ?thesis
      by (simp add: answer_value_def v same [unfolded 5] 5 vals set_m split: option.splits)
  next
    case 6
    then have ne: "?f \<noteq> ''success''" "?f \<noteq> ''timestamp''" "?f \<noteq> ''base''" "?f \<noteq> ''rates''" "?f \<noteq> ''error''"
      by (auto simp: answer_names_def)
    with assms(1) have "answer_value (ms @ [m]) = Some r" by (simp add: answer_value_def same)
    then show ?thesis using ne by (simp add: set_m)
  qed
qed

text \<open>A member without a value is an error, whatever follows.\<close>

lemma answer_value_none:
  assumes "answer_value ms = None" and "once answer_names (ms @ [m])"
  shows "answer_value (ms @ [m]) = None"
proof -
  obtain k v where m: "m = (k, v)" by (cases m)
  have new: "member ms (fold_key k) = None" if "fold_key k \<in> set answer_names"
    using assms(2) that by (simp add: m once_snoc)
  have old: "valued d f (member (ms @ [m]) n) = None"
    if "valued d f (member ms n) = None" for d :: 'x and f n
    using that by (auto simp: m member_snoc valued_def split: option.splits)
  from assms(1) show ?thesis
    unfolding answer_value_def by (auto split: option.splits dest: old)
qed

lemma fold_fields:
  "names_once ms \<Longrightarrow> case answer_value ms of
      Some r \<Rightarrow> fold set_field ms (zero_answer, False) = (r, False)
    | None \<Rightarrow> snd (fold set_field ms (zero_answer, False))"
proof (induction ms rule: rev_induct)
  case Nil
  then show ?case by (simp add: answer_value_def member_def valued_def zero_answer_def)
next
  case (snoc m ms)
  from snoc.prems have o: "once answer_names (ms @ [m])" by (simp add: names_once_def)
  obtain k v where m: "m = (k, v)" by (cases m)
  have "names_once ms"
    using snoc.prems by (auto simp: names_once_def m once_snoc member_snoc split: option.splits json.splits)
  note IH = snoc.IH [OF this]
  show ?case
  proof (cases "answer_value ms")
    case None
    then obtain r where "fold set_field ms (zero_answer, False) = (r, True)"
      using IH by (cases "fold set_field ms (zero_answer, False)") auto
    then show ?thesis using answer_value_none [OF None o] set_field_bad [of m r] by simp
  next
    case (Some r)
    then show ?thesis using IH set_field_value [OF Some snoc.prems] by (simp split: option.splits)
  qed
qed

text \<open>
  C30: An answer of the API is decoded to what its members say, in whatever order they stand and
  whatever others there are: its flag, its 64-bit timestamp, its base currency, for each currency
  the float64 nearest to the number given last (a null rate is taken as a rate of zero), and its
  error object; an answer in which one of these is of another type or out of range is an error.
\<close>

theorem answer_decoded:
  assumes "read_json body = Some (JObj ms)" and "names_once ms"
  shows "decode_api json_err body =
    (case answer_value ms of Some r \<Rightarrow> Inr r | None \<Rightarrow> Inl (json_err body))"
  using fold_fields [OF assms(2)] assms(1)
  by (auto simp: decode_api_def split: option.splits prod.splits)

text \<open>
  An answer as the API writes them, with a historical flag and a date that are not decoded, a null
  rate, and its members in another order than the fields of the type.
\<close>

definition demo_body :: string where
  "demo_body = (let q = [byte 34] in ''{'' @ q @ ''rates'' @ q @ '':{'' @ q @ ''USD'' @ q @ '':1.25,'' @
     q @ ''MXN'' @ q @ '':null},'' @ q @ ''date'' @ q @ '':'' @ q @ ''2025-01-01'' @ q @ '','' @
     q @ ''base'' @ q @ '':'' @ q @ ''EUR'' @ q @ '','' @ q @ ''historical'' @ q @ '':false,'' @
     q @ ''Timestamp'' @ q @ '':17,'' @ q @ ''success'' @ q @ '':true}'')"

definition demo_error_body :: string where
  "demo_error_body = (let q = [byte 34] in ''{'' @ q @ ''success'' @ q @ '':false,'' @ q @ ''error'' @ q @ '':{'' @
     q @ ''code'' @ q @ '':104,'' @ q @ ''type'' @ q @ '':'' @ q @ ''limit'' @ q @ '','' @
     q @ ''info'' @ q @ '':'' @ q @ ''quota'' @ q @ ''}}'')"

definition demo_members :: "(string \<times> json) list" where
  "demo_members = [(''rates'', JObj [(''USD'', JNum ''1.25''), (''MXN'', JNull)]), (''date'', JStr ''2025-01-01''),
     (''base'', JStr ''EUR''), (''historical'', JBool False), (''Timestamp'', JNum ''17''), (''success'', JBool True)]"

definition demo_error_members :: "(string \<times> json) list" where
  "demo_error_members = [(''success'', JBool False),
     (''error'', JObj [(''code'', JNum ''104''), (''type'', JStr ''limit''), (''info'', JStr ''quota'')])]"

lemma demo_read:
  "read_json demo_body = Some (JObj demo_members)" "read_json demo_error_body = Some (JObj demo_error_members)"
  by code_simp+

lemma demo_keys [simp]:
  "fold_key ''date'' = ''date''" "fold_key ''historical'' = ''historical''" "fold_key ''type'' = ''type''"
  by (rule fold_key_lower, simp)+

lemma demo_key_upper [simp]: "fold_key ''Timestamp'' = ''timestamp''"
proof -
  have "fold_key ''imestamp'' = ''imestamp''" by (rule fold_key_lower, simp)
  moreover have "CHR ''T'' \<noteq> byte 226" "CHR ''T'' \<noteq> byte 197" "byte 116 = CHR ''t''" by code_simp+
  ultimately show ?thesis by (subst fold_key.simps(1)) (simp add: encode_rune_def del: fold_key.simps)
qed

lemmas demo_defs = demo_members_def demo_error_members_def member_def

lemma demo_once: "names_once demo_members" "names_once demo_error_members"
  by (simp_all add: names_once_def once_def answer_names_def demo_defs del: fold_key.simps)

lemma demo_value:
  "answer_value demo_members = Some \<lparr>Success = True, Timestamp = 17, Base = ''EUR'',
     Rates = [''USD'' \<mapsto> Fin (5 / 4), ''MXN'' \<mapsto> Fin 0], ApiError = None\<rparr>"
  "answer_value demo_error_members = Some \<lparr>Success = False, Timestamp = 0, Base = [], Rates = Map.empty,
     ApiError = Some (104, ''quota'')\<rparr>"
proof -
  have m: "member demo_members ''success'' = Some (JBool True)"
    "member demo_members ''timestamp'' = Some (JNum ''17'')" "member demo_members ''base'' = Some (JStr ''EUR'')"
    "member demo_members ''rates'' = Some (JObj [(''USD'', JNum ''1.25''), (''MXN'', JNull)])"
    "member demo_members ''error'' = None"
    by (simp_all add: demo_defs del: fold_key.simps)
  have f: "f64 (number_value ''1.25'') = Fin (5 / 4)" and t: "go_atoi ''17'' = Some 17"
    and c: "go_atoi ''104'' = Some 104" by code_simp+
  show "answer_value demo_members = Some \<lparr>Success = True, Timestamp = 17, Base = ''EUR'',
     Rates = [''USD'' \<mapsto> Fin (5 / 4), ''MXN'' \<mapsto> Fin 0], ApiError = None\<rparr>"
    by (simp add: answer_value_def m valued_def bool_of_def int64_of_def text_of_def rates_of_def
      good_rate_def rate_number_def f t fun_upd_twist)
  have n: "member demo_error_members ''success'' = Some (JBool False)"
    "member demo_error_members ''timestamp'' = None" "member demo_error_members ''base'' = None"
    "member demo_error_members ''rates'' = None"
    "valued None error_of (member demo_error_members ''error'') = Some (Some (104, ''quota''))"
    using c by (simp_all add: demo_defs valued_def error_of_def int64_of_def text_of_def del: fold_key.simps)
  show "answer_value demo_error_members = Some \<lparr>Success = False, Timestamp = 0, Base = [],
     Rates = Map.empty, ApiError = Some (104, ''quota'')\<rparr>"
    by (simp add: answer_value_def n(5)) (simp add: n valued_def bool_of_def)
qed

lemma answer_decoded_witness:
  "decode_api (\<lambda>_. ErrNotFound) demo_body = Inr \<lparr>Success = True, Timestamp = 17, Base = ''EUR'',
     Rates = [''USD'' \<mapsto> Fin (5 / 4), ''MXN'' \<mapsto> Fin 0], ApiError = None\<rparr> \<and>
   decode_api (\<lambda>_. ErrNotFound) demo_error_body = Inr \<lparr>Success = False, Timestamp = 0, Base = [],
     Rates = Map.empty, ApiError = Some (104, ''quota'')\<rparr>"
  using answer_decoded [OF demo_read(1) demo_once(1), of "\<lambda>_. ErrNotFound"]
    answer_decoded [OF demo_read(2) demo_once(2), of "\<lambda>_. ErrNotFound"]
  by (simp add: demo_value)

end
