(* ===== verification/Bootstrap.thy ===== *)
theory Bootstrap
  imports Pg_Store Grpc Http_Router Api_Json Idempotency
begin

section \<open>Starting and stopping the processes\<close>

text \<open>
  \<^verbatim>\<open>internal/bootstrap\<close>, \<^verbatim>\<open>internal/infrastructure/pg/pg.go\<close>, \<^verbatim>\<open>migrate.go\<close>,
  \<^verbatim>\<open>internal/infrastructure/logx\<close> and the two mains. What the providers do to the outside (opening
  and closing pools, clients and connections, starting goroutines, logging) is recorded as a
  trace of actions; the results of the libraries' calls are parameters, and a cleanup function is
  the list of the actions it performs.
\<close>

subsection \<open>Actions\<close>

datatype boot_act =
    PgParse string | PgOpen int int | PgClose
  | MigSource | SqlOpen | SqlClose | Ping | PingWait | MigDriver | MigInit | MigUp | MigClose
  | RedisOpen string string int | RedisClose
  | GrpcDial string | GrpcClose
  | MakeChan int | StartWorkers nat | CancelWorkers | CloseBus
  | BootLog log_level string

text \<open>An action that was done, or one that failed.\<close>

datatype boot_event = Did boot_act | FailedTo boot_act

type_synonym boot_trace = "boot_event list"

type_synonym 'a boot = "(boot_trace, 'a) io"

record boot_ext =
  bx_env :: environ
  bx_parse :: "string \<Rightarrow> go_error option"
  bx_pool :: "go_error option"
  bx_mig_src :: "go_error option"
  bx_sql_open :: "go_error option"
  bx_ping :: "nat \<Rightarrow> go_error option"
  bx_wait :: "nat \<Rightarrow> go_error option"
  bx_driver :: "go_error option"
  bx_mig_new :: "go_error option"
  bx_up :: "go_error option"
  bx_dial :: "string \<Rightarrow> go_error option"

definition emit :: "boot_act \<Rightarrow> unit boot" where
  "emit a t = (Ok (), t @ [Did a])"

definition attempt :: "boot_act \<Rightarrow> go_error option \<Rightarrow> unit boot" where
  "attempt a res t = (case res of None \<Rightarrow> (Ok (), t @ [Did a]) | Some e \<Rightarrow> (Err e, t @ [FailedTo a]))"

text \<open>\<open>fmt.Errorf\<close> with a prefix on the error of a call, a deferred call, and calls made only on an error.\<close>

definition wrap_err :: "string \<Rightarrow> ('s, 'a) io \<Rightarrow> ('s, 'a) io" where
  "wrap_err prefix m = (\<lambda>s. case m s of
     (Err e, s') \<Rightarrow> (Err (Wrapped prefix e), s') | (Ok a, s') \<Rightarrow> (Ok a, s') | (Panic p, s') \<Rightarrow> (Panic p, s'))"

definition with_defer :: "boot_act list \<Rightarrow> 'a boot \<Rightarrow> 'a boot" where
  "with_defer acts m = (\<lambda>t. case m t of (r, t') \<Rightarrow> (r, t' @ map Did acts))"

definition or_cleanup :: "boot_act list \<Rightarrow> 'a boot \<Rightarrow> 'a boot" where
  "or_cleanup acts m = (\<lambda>t. case m t of
     (Err e, t') \<Rightarrow> (Err e, t' @ map Did acts) | (Ok a, t') \<Rightarrow> (Ok a, t') | (Panic p, t') \<Rightarrow> (Panic p, t'))"

subsection \<open>The database\<close>

definition Connect :: "boot_ext \<Rightarrow> string \<Rightarrow> unit boot" where
  "Connect x url =
     io_then (attempt (PgParse url) (bx_parse x url))
       (let appCfg = Load (bx_env x)
        in attempt (PgOpen (int32 (cfg_PGMaxConns appCfg)) (int32 (cfg_PGMinConns appCfg))) (bx_pool x))"

text \<open>
  The loop over the pings: \<open>bx_ping\<close> is the result of each ping, \<open>bx_wait\<close> tells whether the
  context ended during the half second after it. The result is \<open>pingErr\<close>.
\<close>

fun ping_loop :: "boot_ext \<Rightarrow> nat \<Rightarrow> nat \<Rightarrow> go_error option \<Rightarrow> go_error option boot" where
  "ping_loop x 0 i pingErr = io_return pingErr"
| "ping_loop x (Suc n) i pingErr =
     io_then (emit Ping) (case bx_ping x i of
       None \<Rightarrow> io_return None
     | Some e \<Rightarrow> io_then (emit PingWait) (case bx_wait x i of
         Some c \<Rightarrow> io_fail (Wrapped ''ping db: '' c)
       | None \<Rightarrow> ping_loop x n (i + 1) (Some e)))"

definition ErrNoChange :: go_error where
  "ErrNoChange = Foreign ''no change''"

definition migrate_up :: "boot_ext \<Rightarrow> unit boot" where
  "migrate_up x = wrap_err ''migrate up: ''
     (attempt MigUp (if bx_up x = Some ErrNoChange then None else bx_up x))"

definition RunMigrations :: "boot_ext \<Rightarrow> unit boot" where
  "RunMigrations x =
     io_then (wrap_err ''migrate src: '' (attempt MigSource (bx_mig_src x)))
    (io_then (wrap_err ''open sql db: '' (attempt SqlOpen (bx_sql_open x)))
    (with_defer [SqlClose]
      (io_bind (ping_loop x 30 0 None) (\<lambda>pingErr. case pingErr of
         Some e \<Rightarrow> io_fail (Wrapped ''ping db: '' e)
       | None \<Rightarrow>
           io_then (wrap_err ''migrate driver: '' (attempt MigDriver (bx_driver x)))
          (io_then (wrap_err ''migrate init: '' (attempt MigInit (bx_mig_new x)))
          (with_defer [MigClose] (migrate_up x)))))))"

definition ProvideDB :: "boot_ext \<Rightarrow> Config \<Rightarrow> boot_act list boot" where
  "ProvideDB x cfg =
     (if cfg_DatabaseURL cfg = [] then io_fail ErrMissingDBURL
      else io_then (Connect x (cfg_DatabaseURL cfg))
        (io_then (or_cleanup [PgClose] (RunMigrations x))
          (io_return [BootLog InfoLevel ''closing pg'', PgClose])))"

record 's Repos =
  R_QuoteRepo :: "'s QuoteRepo"
  R_JobRepo :: "'s UpdateJobRepo"

definition ProvideRepos :: "pg_env \<Rightarrow> 'z world Repos" where
  "ProvideRepos E = \<lparr>R_QuoteRepo = pg_quote_repo E, R_JobRepo = pg_job_repo E\<rparr>"

definition ProvideUoW :: "pg_env \<Rightarrow> 'z world UnitOfWork" where
  "ProvideUoW E = pg_uow E"

subsection \<open>Redis, the rate provider, gRPC\<close>

definition ProvideRedisClient :: "Config \<Rightarrow> boot_act list boot" where
  "ProvideRedisClient cfg =
     io_then (emit (RedisOpen (cfg_RedisAddr cfg) (cfg_RedisPassword cfg) (cfg_RedisDB cfg)))
       (io_return [RedisClose])"

record 's Services =
  S_Idem :: "'s IdempotencyStore"

definition ProvideIdempotency :: "'s set_nx \<Rightarrow> Config \<Rightarrow> 's Services" where
  "ProvideIdempotency client cfg = \<lparr>S_Idem = redis_idem (redis_New client (cfg_RedisTTL cfg))\<rparr>"

text \<open>What the providers need of the libraries: the HTTP client of a timeout, retrying, the text of decoding errors, URLs, the clock.\<close>

record 's rate_ext =
  xr_http :: "int \<Rightarrow> ctx \<Rightarrow> http_request \<Rightarrow> ('s, http_response) io"
  xr_retry :: "('s, api_response) retry"
  xr_json_err :: "string \<Rightarrow> go_error"
  xr_url_query :: "string \<Rightarrow> (string \<times> string) list option"
  xr_now :: "('s, int) io"

definition ProvideRateProvider :: "'s rate_ext \<Rightarrow> Config \<Rightarrow> 's RateProvider" where
  "ProvideRateProvider x cfg =
     (if cfg_Provider cfg = ''exchangeratesapi'' then
        \<lparr>Get = api_Get (xr_retry x) (xr_http x 0) (decode_api (xr_json_err x)) (xr_url_query x)
           \<lparr>BaseURL = cfg_ExchangeAPIBase cfg, APIKey = cfg_ExchangeAPIKey cfg,
            Client = \<lparr>Token = [], HTTP = Some (xr_http x (4 * 10 ^ 9))\<rparr>,
            BackoffCfg = Some \<lparr>Initial = cfg_HTTPBackoffInitial cfg, Max = cfg_HTTPBackoffMax cfg,
              Total = cfg_HTTPBackoffTotal cfg\<rparr>\<rparr>\<rparr>
      else \<lparr>Get = fake_Get (xr_now x) (NewFake (f64 (12345 / 10000)))\<rparr>)"

definition rateclient_New :: "boot_ext \<Rightarrow> string \<Rightarrow> boot_act list boot" where
  "rateclient_New x target = io_then (attempt (GrpcDial target) (bx_dial x target)) (io_return [GrpcClose])"

text \<open>Whether there is a client, and its cleanup.\<close>

definition ProvideGRPCRateClient :: "boot_ext \<Rightarrow> Config \<Rightarrow> (bool \<times> boot_act list) boot" where
  "ProvideGRPCRateClient x cfg =
     (if cfg_WorkerType cfg \<noteq> ''grpc'' then io_return (False, [])
      else io_bind (rateclient_New x (cfg_GRPCTarget cfg)) (\<lambda>cleanup. io_return (True, cleanup)))"

subsection \<open>The API server and the workers\<close>

text \<open>
  What the running service uses of the outside: the database, the providers' libraries, Redis, and
  for the modes with a dispatcher the channel in the state of the process, the waits of its
  senders, and the starting of a goroutine for an update.
\<close>

record 'z runtime =
  rt_pg :: pg_env
  rt_rate :: "'z rate_ext"
  rt_redis :: "'z set_nx"
  rt_chan :: "'z \<Rightarrow> UpdateMsg chan"
  rt_set_chan :: "UpdateMsg chan \<Rightarrow> 'z \<Rightarrow> 'z"
  rt_wait :: "ctx \<Rightarrow> UpdateMsg waiting"
  rt_spawn :: "int \<Rightarrow> UpdateMsg \<Rightarrow> 'z world \<Rightarrow> 'z world"
  rt_now :: "('z, int) io"
  rt_uuid :: "('z, string) io"

text \<open>The service and the two dispatchers the server may be given.\<close>

type_synonym 's dispatcher = "ctx \<Rightarrow> string \<Rightarrow> string \<Rightarrow> string \<Rightarrow> ('s, unit) io"

record 's api_parts =
  ap_svc :: "'s FXRatesService"
  ap_enqueue :: "'s dispatcher"
  ap_grpc :: "int \<Rightarrow> 's dispatcher"

definition boot_chan :: "Config \<Rightarrow> unit boot" where
  "boot_chan cfg = (\<lambda>t. case ProvideChanBus cfg of
     Ok bus \<Rightarrow> (Ok (), t @ [Did (MakeChan (cfg_ChanQueueSize cfg))])
   | Err e \<Rightarrow> (Err e, t) | Panic p \<Rightarrow> (Panic p, t))"

definition ProvideAPIServer :: "'s api_parts \<Rightarrow> Config \<Rightarrow> bool \<Rightarrow> ('s Server \<times> boot_act list) boot" where
  "ProvideAPIServer parts cfg client =
     (let s = NewServer (ap_svc parts) in
      if cfg_WorkerType cfg = ''chan'' then
        (let workers = (if cfg_ChanConcurrency cfg < 1 then 1 else cfg_ChanConcurrency cfg) in
         io_then (emit (StartWorkers (nat workers)))
           (io_return (SetDispatcher (ap_enqueue parts) s,
              [BootLog InfoLevel ''stopping chan workers'', CancelWorkers, CloseBus])))
      else if cfg_WorkerType cfg = ''grpc'' then
        (if \<not> client then
           io_fail (ErrorString (''grpc client not configured; GRPC_TARGET='' @ cfg_GRPCTarget cfg))
         else io_return (SetDispatcher (ap_grpc parts (cfg_RequestTimeout cfg)) s, []))
      else io_return (s, []))"

text \<open>The service and the dispatchers of a process.\<close>

definition boot_service :: "'z runtime \<Rightarrow> Config \<Rightarrow> 'z world FXRatesService" where
  "boot_service rt cfg =
     ProvideFXRatesService (rt_pg rt) (ProvideRateProvider (rt_rate rt) cfg) (S_Idem (ProvideIdempotency (rt_redis rt) cfg))"

lemma boot_service_parts:
  "quoteRepo (boot_service rt cfg) = Some (R_QuoteRepo (ProvideRepos (rt_pg rt)))"
  "updateJobRepo (boot_service rt cfg) = Some (R_JobRepo (ProvideRepos (rt_pg rt)))"
  "uow (boot_service rt cfg) = ProvideUoW (rt_pg rt)"
  by (simp_all add: boot_service_def ProvideRepos_def ProvideUoW_def)

definition bus_dispatcher :: "'z runtime \<Rightarrow> 'z world dispatcher" where
  "bus_dispatcher rt c i pair trace = outside (\<lambda>z. case bus_Enqueue (rt_wait rt) c i pair trace (rt_chan rt z) of
     (r, ch) \<Rightarrow> (r, rt_set_chan rt ch z))"

definition boot_parts :: "'z runtime \<Rightarrow> Config \<Rightarrow> 'z world api_parts" where
  "boot_parts rt cfg = \<lparr>ap_svc = boot_service rt cfg, ap_enqueue = bus_dispatcher rt,
     ap_grpc = (\<lambda>timeout. grpc_dispatch (rt_spawn rt timeout))\<rparr>"

datatype 'z worker_app = GrpcRunner string "'z RateServer" | DbRunner "'z world DbWorker"

definition ProvideGRPCRateServerRunner ::
  "Config \<Rightarrow> ('s, int) io \<Rightarrow> ('s, string) io \<Rightarrow> 's RateProvider \<Rightarrow> 's worker_app" where
  "ProvideGRPCRateServerRunner cfg time_now uuid rp =
     GrpcRunner (cfg_GRPCAddr cfg)
       (NewRateServer (\<lambda>c p. FetchQuote (NewService time_now uuid None None (Some rp) None []) c p))"

definition ProvideWorker :: "'s FXRatesService \<Rightarrow> Config \<Rightarrow> 's DbWorker option boot" where
  "ProvideWorker svc cfg =
     (if cfg_WorkerType cfg = ''db''
      then io_return (Some (NewDBWorker svc (cfg_WorkerPoll cfg) (cfg_WorkerBatchSize cfg)))
      else io_then (emit (BootLog ErrorLevel ''unknown WORKER_TYPE; no worker launched'')) (io_return None))"

subsection \<open>The injectors\<close>

definition InitAPI :: "boot_ext \<Rightarrow> 'z runtime \<Rightarrow> ('z world Server \<times> boot_act list) boot" where
  "InitAPI x rt =
     (let config = Load (bx_env x) in
      io_bind (ProvideDB x config) (\<lambda>cleanup.
      io_bind (or_cleanup cleanup (ProvideRedisClient config)) (\<lambda>cleanup2.
      io_bind (or_cleanup (cleanup2 @ cleanup) (ProvideGRPCRateClient x config)) (\<lambda>(client, cleanup3).
      io_then (boot_chan config)
       (io_bind (or_cleanup (cleanup3 @ cleanup2 @ cleanup) (ProvideAPIServer (boot_parts rt config) config client))
         (\<lambda>(server, cleanup4). io_return (server, cleanup4 @ cleanup3 @ cleanup2 @ cleanup)))))))"

definition InitDBWorker :: "boot_ext \<Rightarrow> 'z runtime \<Rightarrow> ('z world DbWorker option \<times> boot_act list) boot" where
  "InitDBWorker x rt =
     (let config = Load (bx_env x) in
      io_bind (ProvideDB x config) (\<lambda>cleanup.
      io_bind (or_cleanup cleanup (ProvideRedisClient config)) (\<lambda>cleanup2.
      io_bind (ProvideWorker (boot_service rt config) config) (\<lambda>worker. io_return (worker, cleanup2 @ cleanup)))))"

definition InitGRPCRunner :: "boot_ext \<Rightarrow> 'z runtime \<Rightarrow> ('z worker_app \<times> boot_act list) boot" where
  "InitGRPCRunner x rt =
     (let config = Load (bx_env x) in
      io_return (ProvideGRPCRateServerRunner config (rt_now rt) (rt_uuid rt)
        (ProvideRateProvider (rt_rate rt) config), []))"

definition InitWorkerApp :: "boot_ext \<Rightarrow> 'z runtime \<Rightarrow> ('z worker_app \<times> boot_act list) boot" where
  "InitWorkerApp x rt =
     (let wt = cfg_WorkerType (Load (bx_env x)) in
      if wt = ''grpc'' then wrap_err ''init grpc runner: '' (InitGRPCRunner x rt)
      else if wt = [] \<or> wt = ''db'' then
        io_bind (wrap_err ''init db worker: '' (InitDBWorker x rt)) (\<lambda>(w, cleanup). case w of
          None \<Rightarrow> io_fail (ErrorString (''no worker configured for WORKER_TYPE='' @ go_quote wt))
        | Some wk \<Rightarrow> io_return (DbRunner wk, cleanup))
      else io_fail (ErrorString (''unsupported WORKER_TYPE='' @ go_quote wt)))"

subsection \<open>The mains and the logger\<close>

text \<open>
  \<open>log.Fatal\<close> ends the process at once: deferred functions do not run. The main function of the
  API runs the server on \<open>context.Background()\<close>, which never ends, so that only the end of
  listening ends it.
\<close>

datatype main_end = MainReturned | MainFatal string go_error | MainPanic string

definition api_main :: "boot_ext \<Rightarrow> 'z runtime \<Rightarrow> go_error \<Rightarrow> main_end \<times> boot_trace" where
  "api_main x rt listen_end =
     (case InitAPI x rt [] of
        (Err e, t) \<Rightarrow> (MainFatal ''init api'' e, t)
      | (Panic p, t) \<Rightarrow> (MainPanic p, t)
      | (Ok (srv, cleanup), t) \<Rightarrow>
          let cfg = Load (bx_env x) in
          (case fst (Server_Run (cfg_Port cfg) (cfg_ShutdownTimeout cfg) (ListenEnded listen_end)) of
             Err e \<Rightarrow> (MainFatal ''server run'' e, t)
           | _ \<Rightarrow> (MainReturned, t @ map Did cleanup)))"

text \<open>\<open>run\<close> is how the worker's run ended.\<close>

definition worker_main ::
  "boot_ext \<Rightarrow> 'z runtime \<Rightarrow> ('z worker_app \<Rightarrow> unit outcome) \<Rightarrow> main_end \<times> boot_trace" where
  "worker_main x rt run =
     (case InitWorkerApp x rt [] of
        (Err e, t) \<Rightarrow> (MainFatal ''init worker app'' e, t)
      | (Panic p, t) \<Rightarrow> (MainPanic p, t)
      | (Ok (app, cleanup), t) \<Rightarrow> (case run app of
          Err e \<Rightarrow> (MainFatal ''worker exited'' e, t)
        | Panic p \<Rightarrow> (MainPanic p, t @ map Did cleanup)
        | Ok _ \<Rightarrow> (MainReturned, t @ map Did cleanup)))"

text \<open>
  \<open>strings.ToLower\<close> as far as its result can be ASCII: the ASCII letters, U+0130 and U+212A. Other
  letters have a lower case outside ASCII, which no level has.
\<close>

fun go_lower :: "string \<Rightarrow> string" where
  "go_lower (a # b # c # s) =
     (if [a, b] = encode_rune 304 then CHR ''i'' # go_lower (c # s)
      else if [a, b, c] = encode_rune 8490 then CHR ''k'' # go_lower s
      else (if 65 \<le> code_of a \<and> code_of a \<le> 90 then byte (code_of a + 32) else a) # go_lower (b # c # s))"
| "go_lower [a, b] =
     (if [a, b] = encode_rune 304 then ''i''
      else (if 65 \<le> code_of a \<and> code_of a \<le> 90 then byte (code_of a + 32) else a) # go_lower [b])"
| "go_lower [a] = [if 65 \<le> code_of a \<and> code_of a \<le> 90 then byte (code_of a + 32) else a]"
| "go_lower [] = []"

text \<open>
  The logger, made when its package is initialised, before the main package loads its environment
  file. zap is outside: its production configuration, its parsing of a level and its building of a
  logger are parameters. A level it does not know leaves the one of the configuration.
\<close>

record 'l zap_config =
  zc_Level :: 'l
  zc_Sampling :: "unit option"
  zc_DisableStacktrace :: bool
  zc_EncodeTime :: string

definition logx_level :: "(string \<Rightarrow> 'l option) \<Rightarrow> 'l \<Rightarrow> environ \<Rightarrow> 'l" where
  "logx_level unmarshal default_level env =
     (let lv = cfg_LogLevel (Load env) in
      if lv \<noteq> [] then (case unmarshal (go_lower lv) of Some l \<Rightarrow> l | None \<Rightarrow> default_level)
      else default_level)"

definition logx_init ::
  "'l zap_config \<Rightarrow> (string \<Rightarrow> 'l option) \<Rightarrow> ('l zap_config \<Rightarrow> go_error + 'log) \<Rightarrow> environ \<Rightarrow> 'log outcome" where
  "logx_init production unmarshal build env =
     (let z = production\<lparr>zc_Sampling := None, zc_DisableStacktrace := True, zc_EncodeTime := ''ISO8601''\<rparr>
      in case build (z\<lparr>zc_Level := logx_level unmarshal (zc_Level z) env\<rparr>) of
        Inl e \<Rightarrow> Panic (error_text e)
      | Inr logger \<Rightarrow> Ok logger)"

text \<open>\<open>WithFields\<close>: the logger itself, whatever the context.\<close>

definition WithFields :: "'log \<Rightarrow> ctx \<Rightarrow> 'log" where
  "WithFields logger c = logger"

end
