(* ===== verification/Books.thy ===== *)
theory Books
  imports System Bootstrap
begin

section \<open>Jobs, prices and history agree\<close>

text \<open>
  The three tables together, in any run of the database mode: every entry of the history names a
  pair that has a current price and, if it names an update, one that is done for that pair; every
  current price has its entry of the same instant; and every update that is done has an entry of
  its pair. No statement and no constraint of the schema says so: it holds because a completion
  writes all three tables in one transaction, for a job that is in progress and for a quote of the
  job's own pair, and because nothing else writes the prices and the history.
\<close>

subsection \<open>The agreement\<close>

definition books :: "job_map \<Rightarrow> (string \<rightharpoonup> numeric \<times> int) \<Rightarrow> hist_view \<Rightarrow> bool" where
  "books J Q H \<longleftrightarrow>
     (\<forall>(p, v, t, s, u) \<in> H. p \<in> dom Q \<and>
        (\<forall>i. u = Some i \<longrightarrow> (\<exists>j. J i = Some j \<and> jv_status j = Done \<and> jv_pair j = p))) \<and>
     (\<forall>p v t. Q p = Some (v, t) \<longrightarrow> (\<exists>v' s u. (p, v', t, s, u) \<in> H)) \<and>
     (\<forall>i j. J i = Some j \<and> jv_status j = Done \<longrightarrow> (\<exists>v t s u. (jv_pair j, v, t, s, u) \<in> H))"

abbreviation books_at :: "'z world \<Rightarrow> bool" where
  "books_at w \<equiv> books (jobs_at w) (pg_quotes ctx_background w) (pg_history ctx_background w)"

text \<open>Steps that change no done job, and make none.\<close>

definition done_pair :: "job_map \<Rightarrow> string \<Rightarrow> string option" where
  "done_pair J i = (case J i of Some j \<Rightarrow> if jv_status j = Done then Some (jv_pair j) else None | None \<Rightarrow> None)"

lemma done_pair_Some: "done_pair J i = Some p \<longleftrightarrow> (\<exists>j. J i = Some j \<and> jv_status j = Done \<and> jv_pair j = p)"
  by (auto simp: done_pair_def split: option.split)

lemma books_done_pair:
  "books J Q H \<longleftrightarrow>
     (\<forall>(p, v, t, s, u) \<in> H. p \<in> dom Q \<and> (\<forall>i. u = Some i \<longrightarrow> done_pair J i = Some p)) \<and>
     (\<forall>p v t. Q p = Some (v, t) \<longrightarrow> (\<exists>v' s u. (p, v', t, s, u) \<in> H)) \<and>
     (\<forall>i p. done_pair J i = Some p \<longrightarrow> (\<exists>v t s u. (p, v, t, s, u) \<in> H))"
  unfolding books_def done_pair_Some by blast

lemma booksD:
  assumes "books J Q H"
  shows "(p, v, t, s, u) \<in> H \<Longrightarrow> p \<in> dom Q" and "(p, v, t, s, Some i) \<in> H \<Longrightarrow> done_pair J i = Some p"
    and "Q p = Some (v, t) \<Longrightarrow> \<exists>v' s u. (p, v', t, s, u) \<in> H"
    and "done_pair J i = Some p \<Longrightarrow> \<exists>v t s u. (p, v, t, s, u) \<in> H"
  using assms unfolding books_done_pair by blast+

lemma books_same_done:
  assumes "books J Q H" and "\<And>i. done_pair J' i = done_pair J i"
  shows "books J' Q H"
  using assms(1) unfolding books_done_pair assms(2) .

lemma books_claim:
  assumes "books J Q H" and "\<forall>i \<in> ids. \<exists>j. J i = Some j \<and> jv_status j = Queued"
  shows "books (claim_jobs ids J) Q H"
proof (rule books_same_done [OF assms(1)])
  show "done_pair (claim_jobs ids J) i = done_pair J i" for i
  proof (cases "i \<in> ids")
    case True
    with assms(2) obtain j where "J i = Some j" "jv_status j = Queued" by blast
    with True show ?thesis by (simp add: done_pair_def claim_jobs_def)
  qed (simp add: done_pair_def)
qed

lemma books_created:
  assumes "created\<^sup>*\<^sup>* J J'" and "books J Q H"
  shows "books J' Q H"
  using assms(1)
proof (induction rule: rtranclp_induct)
  case (step J1 J2)
  from step.hyps(2) have "done_pair J2 i = done_pair J1 i" for i
    by (auto simp: created.simps done_pair_def)
  with step.IH show ?case by (rule books_same_done)
qed (rule assms(2))

lemma books_failed:
  assumes "books J Q H" and "J i = Some j" and "jv_status j = Processing"
  shows "books (set_job i Failed e J) Q H"
proof (rule books_same_done [OF assms(1)])
  show "done_pair (set_job i Failed e J) k = done_pair J k" for k
    using assms(2,3) by (cases "k = i") (simp_all add: done_pair_def)
qed

text \<open>A completion: the entry, the price and the job, all of one pair.\<close>

lemma books_completed:
  assumes b: "books J Q H" and j: "J i = Some \<lparr>jv_pair = p, jv_status = Processing, jv_error = None\<rparr>"
    and i: "uuid_key E i = i" and q: "Q_Pair q = p"
  shows "books (set_job i Done None J) (Q(p \<mapsto> pg_enc E q)) (add_history E (history_of q src i) H)"
proof -
  let ?J = "set_job i Done None J" and ?H = "add_history E (history_of q src i) H"
  have new: "done_pair ?J i = Some p" using j by (simp add: done_pair_def)
  have old: "done_pair ?J k = done_pair J k" if "k \<noteq> i" for k using that by (simp add: done_pair_def)
  have no: "done_pair J i = None" using j by (simp add: done_pair_def)
  have sub: "H \<subseteq> ?H" by (auto simp: add_history_def)
  have entry: "\<exists>v s u. (p, v, snd (pg_enc E q), s, u) \<in> ?H"
    using q by (auto simp: add_history_def history_of_def pg_enc_def)
  have mem: "x \<in> H \<or> x = (p, to_numeric E (Q_Price q), env_micros E (Q_UpdatedAt q), src, Some i)"
    if "x \<in> ?H" for x
    using that q i by (auto simp: add_history_def history_of_def split: if_splits)
  show ?thesis
    unfolding books_done_pair
  proof (intro conjI)
    show "\<forall>(p', v, t, s, u) \<in> ?H. p' \<in> dom (Q(p \<mapsto> pg_enc E q)) \<and>
        (\<forall>k. u = Some k \<longrightarrow> done_pair ?J k = Some p')"
    proof (clarify, intro conjI allI impI)
      fix p' v t s u assume x: "(p', v, t, s, u) \<in> ?H"
      show "p' \<in> dom (Q(p \<mapsto> pg_enc E q))" using mem [OF x] booksD(1) [OF b, of p' v t s u] by auto
      fix k assume u: "u = Some k"
      show "done_pair ?J k = Some p'"
      proof (cases "(p', v, t, s, u) \<in> H")
        case True
        with u have d: "done_pair J k = Some p'" using booksD(2) [OF b] by blast
        with no have "k \<noteq> i" by auto
        with old d show ?thesis by simp
      next
        case False
        with mem [OF x] u new show ?thesis by auto
      qed
    qed
    show "\<forall>p' v t. (Q(p \<mapsto> pg_enc E q)) p' = Some (v, t) \<longrightarrow> (\<exists>v' s u. (p', v', t, s, u) \<in> ?H)"
    proof (intro allI impI)
      fix p' v t assume x: "(Q(p \<mapsto> pg_enc E q)) p' = Some (v, t)"
      show "\<exists>v' s u. (p', v', t, s, u) \<in> ?H"
      proof (cases "p' = p")
        case True
        with x have "t = snd (pg_enc E q)" by (metis fun_upd_same option.inject snd_conv)
        with entry True show ?thesis by simp
      next
        case False
        with x have "Q p' = Some (v, t)" by simp
        from booksD(3) [OF b this] sub show ?thesis by blast
      qed
    qed
    show "\<forall>k p'. done_pair ?J k = Some p' \<longrightarrow> (\<exists>v t s u. (p', v, t, s, u) \<in> ?H)"
    proof (intro allI impI)
      fix k p' assume d: "done_pair ?J k = Some p'"
      show "\<exists>v t s u. (p', v, t, s, u) \<in> ?H"
      proof (cases "k = i")
        case True
        with d new entry show ?thesis by auto
      next
        case False
        with d old have "done_pair J k = Some p'" by simp
        from booksD(4) [OF b this] sub show ?thesis by blast
      qed
    qed
  qed
qed

subsection \<open>The providers quote the pair they are asked for\<close>

definition pair_quotes :: "'z RateProvider \<Rightarrow> bool" where
  "pair_quotes rp \<longleftrightarrow> (\<forall>c p z q z'. Get rp c p z = (Ok q, z') \<longrightarrow> Q_Pair q = p)"

lemma quote_of_response_pair: "quote_of_response pair res = Inr q \<Longrightarrow> Q_Pair q = pair"
  by (auto simp: quote_of_response_def split: if_splits option.splits sum.splits)

lemma api_Get_pair: "api_Get retry dflt decode url_query p c pair s = (Ok q, s') \<Longrightarrow> Q_Pair q = pair"
  by (auto simp: api_Get_def io_simps quote_of_response_pair
      split: if_splits option.splits outcome.splits sum.splits prod.splits)

lemma provided_pairs: "pair_quotes (ProvideRateProvider x cfg)"
  by (auto simp: pair_quotes_def ProvideRateProvider_def fake_Get_def io_simps api_Get_pair
      split: outcome.splits prod.splits)

lemma FetchQuote_pair:
  assumes "pair_quotes rp" and "FetchQuote (ProvideFXRatesService E rp st) c p w = (Ok q, w')"
  shows "Q_Pair q = p"
proof -
  have "Get rp c p (rest w) = (Ok q, snd (Get rp c p (rest w)))"
    using assms(2) by (simp add: FetchQuote_def io_simps outside_rate_def outside_def prod_eq_iff)
  with assms(1) show ?thesis unfolding pair_quotes_def by blast
qed

subsection \<open>Requests touch neither prices nor history\<close>

definition ledger_is :: "(string \<rightharpoonup> numeric \<times> int) \<times> hist_view \<Rightarrow> 'z world \<Rightarrow> bool" where
  "ledger_is QH w \<longleftrightarrow> (pg_quotes ctx_background w, pg_history ctx_background w) = QH"

lemma ledger_top: "ctx_tx c = None \<Longrightarrow> pg_quotes c w = pg_quotes ctx_background w"
  "ctx_tx c = None \<Longrightarrow> pg_history c w = pg_history ctx_background w"
  by (simp_all add: pg_quotes_def pg_history_def pg_view_def ctx_background_def)

lemma ledger_same_db: "same_db w w' \<Longrightarrow> ledger_is QH w \<Longrightarrow> ledger_is QH w'"
  by (simp add: same_db_def ledger_is_def pg_quotes_def pg_history_def pg_view_def ctx_background_def)

lemma ledger_view:
  assumes "ctx_tx c = None" and "\<And>w. pg_view c (snd (f w)) = pg_view c w"
  shows "io_keeps (ledger_is QH) f"
  using assms by (simp add: io_keeps_def ledger_is_def pg_quotes_def pg_history_def pg_view_def ctx_background_def)

lemma ledger_create:
  assumes "ctx_tx c = None"
  shows "io_keeps (ledger_is QH) (pg_CreateQueued E c p k)"
proof (rule io_keepsI)
  fix w :: "'z world" assume w: "ledger_is QH w"
  let ?i = "uuid_text (env_uuid E (ticks w))"
  obtain x w1 where run: "pg_run E c (sql_insert_job E ?i p) w = (x, w1)" by fastforce
  then have "pg_quotes c w1 = pg_quotes c w \<and> pg_history c w1 = pg_history c w"
    by (cases rule: pg_run_cases) (auto simp: pg_quotes_def pg_history_def dest: insert_job_jobs(3,4))
  moreover have "snd (pg_CreateQueued E c p k w) = w1"
    using run by (auto simp: pg_CreateQueued_def io_simps split: outcome.splits)
  ultimately show "ledger_is QH (snd (pg_CreateQueued E c p k w))"
    using w by (simp add: ledger_is_def ledger_top [OF assms])
qed

lemma ledger_service:
  assumes top: "ctx_tx c = None"
  shows "io_keeps (ledger_is QH) (RequestQuoteUpdate (ProvideFXRatesService E rp st) c p k)"
    and "io_keeps (ledger_is QH) (GetQuoteUpdate (ProvideFXRatesService E rp st) c i)"
    and "io_keeps (ledger_is QH) (GetLastQuote (ProvideFXRatesService E rp st) c p)"
proof -
  have reserve: "io_keeps (ledger_is QH) (TryReserve (outside_idem st) c x)" for x
    by (auto simp: io_keeps_def outside_idem_def intro: ledger_same_db [OF same_db_outside])
  show "io_keeps (ledger_is QH) (RequestQuoteUpdate (ProvideFXRatesService E rp st) c p k)"
    unfolding RequestQuoteUpdate_def
    by (auto intro!: keeps_intros reserve ledger_create top split: option.splits)
  have "io_keeps (ledger_is QH) (pg_GetByID E c x)" and "io_keeps (ledger_is QH) (pg_GetLast E c y)" for x y
    by (rule ledger_view [OF top], rule pg_get_view, rule ledger_view [OF top], rule pg_last_view)
  then show "io_keeps (ledger_is QH) (GetQuoteUpdate (ProvideFXRatesService E rp st) c i)"
    and "io_keeps (ledger_is QH) (GetLastQuote (ProvideFXRatesService E rp st) c p)"
    unfolding GetQuoteUpdate_def GetLastQuote_def by (auto intro!: keeps_intros split: sum.splits)
qed

lemma ledger_api:
  assumes out: "router_outside env" and top: "ctx_tx (ReqCtx r) = None"
    and run: "serve env (NewRouter env (NewServer (ProvideFXRatesService E rp st))) r (w, wr) = (x, (w', wr'))"
  shows "pg_quotes ctx_background w' = pg_quotes ctx_background w \<and>
    pg_history ctx_background w' = pg_history ctx_background w"
proof -
  let ?P = "ledger_is (pg_quotes ctx_background w, pg_history ctx_background w)"
  have "env_keeps ?P env"
    using out unfolding env_keeps_def router_outside_def svc_keeps_def io_keeps_def
    by (auto intro: ledger_same_db [rotated])
  moreover have "service_keeps ?P (NewServer (ProvideFXRatesService E rp st))"
    by (simp add: service_keeps_def NewServer_def ledger_service)
  ultimately have "svc_keeps ?P (serve env (NewRouter env (NewServer (ProvideFXRatesService E rp st))) r)"
    using top by (rule serve_keeps)
  from svc_keepsD [OF this _ run] show ?thesis by (simp add: ledger_is_def)
qed

subsection \<open>Every step keeps the agreement\<close>

text \<open>A fetched quote in a worker's hand is of the pair of its job.\<close>

definition quoted :: "(nat \<Rightarrow> worker_pc) \<Rightarrow> bool" where
  "quoted pcs \<longleftrightarrow> (\<forall>n i p q js. pcs n = Fetched i p (Inr q) js \<longrightarrow> Q_Pair q = p)"

definition books_inv :: "pg_env \<Rightarrow> 'z sys \<Rightarrow> bool" where
  "books_inv E S \<longleftrightarrow> sys_inv E S \<and> books_at (sy_world S) \<and> quoted (sy_pc S)"

lemma quoted_goto:
  "quoted (sy_pc S) \<Longrightarrow> (\<And>i p q js. pc = Fetched i p (Inr q) js \<Longrightarrow> Q_Pair q = p) \<Longrightarrow>
   quoted (sy_pc (goto n pc w S))"
  by (auto simp: quoted_def goto_def)

lemma claim_books:
  assumes inv: "books_inv E S" and top: "ctx_tx c = None"
    and run: "pg_ClaimQueued E c lmt (sy_world S) = (x, w)"
  shows "books_at w"
proof -
  from inv have wok: "world_ok c (sy_world S)" and b: "books_at (sy_world S)"
    by (simp_all add: books_inv_def sys_inv_def ok_top [of c])
  from run wok show ?thesis
  proof (cases rule: pg_claim_effect)
    case (ok xs)
    then have "\<forall>i \<in> fst ` set xs. \<exists>j. jobs_at (sy_world S) i = Some j \<and> jv_status j = Queued"
      by (force simp: jobs_top [OF top])
    from books_claim [OF b this] ok(4-6) show ?thesis by (simp add: jobs_top [OF top] ledger_top [OF top])
  next
    case (err e ids)
    from books_claim [OF b err(2) [unfolded jobs_top [OF top]]] err(3-5) show ?thesis
      by (simp add: jobs_top [OF top] ledger_top [OF top])
  qed
qed

lemma mark_books:
  assumes inv: "books_inv E S" and top: "ctx_tx c = None" and pc: "sy_pc S n = Loop ((i, p) # js)"
    and run: "pg_UpdateStatus E c i Processing None (sy_world S) = (x, w)"
  shows "books_at w"
proof -
  from inv have wok: "world_ok c (sy_world S)" and b: "books_at (sy_world S)"
    and own: "owned E (jobs_at (sy_world S)) (sy_pc S)"
    by (simp_all add: books_inv_def sys_inv_def ok_top [of c])
  have i: "(i, p) \<in> set (in_hand (sy_pc S n))" by (simp add: pc)
  have run': "UpdateStatus (pg_job_repo E) c i Processing None (sy_world S) = (x, w)" using run by simp
  have "set_job (uuid_key E i) Processing None (jobs_at (sy_world S)) = jobs_at (sy_world S)"
    using ownedD [OF own i] by (simp add: set_job_def fun_upd_idem)
  then have "jobs_at w = jobs_at (sy_world S)"
    using pg_job.status_any [OF wok _ run', unfolded jobs_top [OF top]] by auto
  moreover have "pg_quotes c w = pg_quotes c (sy_world S)" "pg_history c w = pg_history c (sy_world S)"
    using pg_update_quotes [of c E i Processing None "sy_world S"] run by simp_all
  ultimately show ?thesis using b by (simp add: ledger_top [OF top])
qed

lemma settle_books:
  assumes inv: "books_inv E S" and top: "ctx_tx c = None" and pc: "sy_pc S n = Fetched i p res js"
    and run: "CompleteQuoteUpdate (ProvideFXRatesService E rp st) c i (known res) ''db'' (sy_world S) = (x, w)"
  shows "books_at w"
proof -
  from inv have wok: "world_ok c (sy_world S)" and b: "books_at (sy_world S)"
    and own: "owned E (jobs_at (sy_world S)) (sy_pc S)" and q: "quoted (sy_pc S)"
    by (simp_all add: books_inv_def sys_inv_def ok_top [of c])
  have "(i, p) \<in> set (in_hand (sy_pc S n))" by (simp add: pc)
  note hand = ownedD [OF own this]
  note tops = jobs_top [OF top] ledger_top [OF top]
  show ?thesis
  proof (cases res)
    case (Inr y)
    have fetch: "known res c (sy_world S) = (Ok y, sy_world S)" by (simp add: Inr known_def io_simps)
    have "Q_Pair y = p" using q pc unfolding quoted_def Inr by blast
    note paid = books_completed [OF b hand(2,1) this, of "''db''"]
    from pg_fx.complete_atomic [where fetch = "known res", OF fetch wok top run] show ?thesis
      using b paid \<open>Q_Pair y = p\<close> by (auto simp: tops hand(1))
  next
    case (Inl e)
    have fetch: "known res c (sy_world S) = (Err e, sy_world S)" by (simp add: Inl known_def io_simps)
    note failed = pg_fx.complete_fetch_failed [where fetch = "known res" and E = E and rp = rp and st = st and i = i
        and src = "''db''", OF fetch wok]
    from failed(2,3,4) run have "pg_quotes c w = pg_quotes c (sy_world S)" "pg_history c w = pg_history c (sy_world S)"
      "pg_jobs c w = pg_jobs c (sy_world S) \<or> pg_jobs c w = set_job i Failed (Some (error_text e)) (pg_jobs c (sy_world S))"
      by (simp_all add: hand(1))
    with b books_failed [OF b hand(2), of "Some (error_text e)"] show ?thesis by (auto simp: tops)
  qed
qed

lemma books_step:
  assumes step: "sys_step E env rp st S S'" and inv: "books_inv E S" and out: "router_outside env"
    and rp: "pair_quotes rp"
  shows "books_at (sy_world S') \<and> quoted (sy_pc S')"
proof -
  from inv have b: "books_at (sy_world S)" and q: "quoted (sy_pc S)" and si: "sys_inv E S"
    by (simp_all add: books_inv_def)
  note drop = quoted_goto [OF q]
  from step show ?thesis
  proof (cases rule: sys_step.cases)
    case (api r x w wr)
    have "only_created (jobs_at (sy_world S)) (sy_world S)" using si by (simp add: only_created_def sys_inv_def)
    from api_only [OF out api(2,3) this] have "created\<^sup>*\<^sup>* (jobs_at (sy_world S)) (jobs_at w)"
      by (simp add: only_created_def)
    from books_created [OF this b] ledger_api [OF out api(2,3)] q show ?thesis by (simp add: api(1))
  next
    case (claim c n lmt x w)
    from claim_books [OF inv claim(2,4)] drop [of "after_claim x" n w] show ?thesis
      by (auto simp: claim(1) after_claim_def split: outcome.splits)
  next
    case (mark c n i p js x w)
    from mark_books [OF inv mark(2-4)] drop [of "Marked i p js" n w] show ?thesis by (simp add: mark(1))
  next
    case (fetch n i p js c x w)
    have wok: "world_ok ctx_background (sy_world S)" using si by (simp add: sys_inv_def)
    have "pg_view ctx_background w = pg_view ctx_background (sy_world S)"
      using fetch_steady(2) [of ctx_background E rp st c p "sy_world S"] fetch(3) by simp
    then have "books_at w" using b by (simp add: pg_jobs_def pg_quotes_def pg_history_def)
    moreover have "quoted (sy_pc (goto n (after_fetch i p js x) w S))"
      using FetchQuote_pair [OF rp] fetch(3)
      by (intro drop) (auto simp: after_fetch_def split: outcome.splits)
    ultimately show ?thesis by (simp add: fetch(1))
  next
    case (settle c n i p res js x w)
    from settle_books [OF inv settle(2-4)] drop [of "after_settle js x" n w] show ?thesis
      by (auto simp: settle(1) after_settle_def split: outcome.splits)
  next
    case (elsewhere z t)
    have "same_db (sy_world S) ((sy_world S)\<lparr>ticks := t, rest := z\<rparr>)" by (simp add: same_db_def)
    then show ?thesis using b q
      by (simp add: elsewhere same_db_def pg_jobs_def pg_quotes_def pg_history_def pg_view_def ctx_background_def)
  qed (use b drop [of Idle] in auto)
qed

lemma books_run:
  assumes "(sys_step E env rp st)\<^sup>*\<^sup>* S S'" and "books_inv E S" and "router_outside env" and "pair_quotes rp"
  shows "books_inv E S'"
  using assms(1)
proof (induction rule: rtranclp_induct)
  case (step S1 S2)
  have one: "sys_inv E S1" using step.IH by (simp add: books_inv_def)
  have "(sys_step E env rp st)\<^sup>*\<^sup>* S1 S2" using step.hyps(2) by (rule r_into_rtranclp)
  from sys_run_sim [OF this one assms(3)] books_step [OF step.hyps(2) step.IH assms(3,4)]
  show ?case by (simp add: books_inv_def)
qed (rule assms(2))

text \<open>
  C27: In every run of the database mode with the provider the configuration names, requests,
  workers, transactions, crashes and failures of the database interleaved in any way, the three
  tables agree at every point if they did at the start: an entry of the history names a pair with
  a current price and, if it names an update, one that is done and asked for that pair; a current
  price has an entry of its pair and instant; an update that is done has an entry of its pair.
\<close>

theorem db_mode_books:
  assumes "sys_start S" and "books_at (sy_world S)" and "router_outside env"
    and "(sys_step E env (ProvideRateProvider x cfg) st)\<^sup>*\<^sup>* S S1"
  shows "books (jobs_at (sy_world S1)) (pg_quotes ctx_background (sy_world S1))
    (pg_history ctx_background (sy_world S1))"
proof -
  have "quoted (sy_pc S)" using assms(1) by (simp add: sys_start_def quoted_def)
  with assms(1,2) have "books_inv E S" by (simp add: books_inv_def sys_inv_start)
  from books_run [OF assms(4) this assms(3) provided_pairs] show ?thesis by (simp add: books_inv_def)
qed

subsection \<open>A run with the fake provider\<close>

text \<open>
  The default configuration, whose provider is the fake; a database with two queued jobs, no price
  and no history; and a worker that runs one batch.
\<close>

definition fake_ext :: "unit rate_ext" where
  "fake_ext = \<lparr>xr_http = (\<lambda>_ _ _. io_fail (Foreign ''unused'')), xr_retry = retry_once,
     xr_json_err = (\<lambda>_. Foreign ''unused''), xr_url_query = (\<lambda>_. None), xr_now = io_return 7000000\<rparr>"

abbreviation fake_rate :: "unit RateProvider" where
  "fake_rate \<equiv> ProvideRateProvider fake_ext (Load (\<lambda>_. []))"

definition depot :: "unit sys" where
  "depot = \<lparr>sy_world = demo_world, sy_pc = (\<lambda>_. Idle)\<rparr>"

lemma depot_jobs: "jobs_at demo_world i = Some j \<Longrightarrow> j = \<lparr>jv_pair = ''USD/EUR'', jv_status = Queued, jv_error = None\<rparr>"
  by (auto simp: pg_jobs_def pg_view_def demo_world_def jobs_of_def demo_tables_def demo_job_def
      job_of_row_def ctx_background_def split: if_splits)

lemma depot_start: "sys_start depot"
proof -
  have "ValidatePair ''USD/EUR''" by code_simp
  then show ?thesis by (auto simp: sys_start_def depot_def jobs_ok_def job_ok_def dest: depot_jobs)
qed

lemma depot_books: "books_at (sy_world depot)"
proof -
  have "pg_quotes ctx_background demo_world = Map.empty" "pg_history ctx_background demo_world = {}"
    by (simp_all add: pg_quotes_def pg_history_def pg_view_def ctx_background_def demo_world_def demo_tables_def
        quotes_of_def hist_of_def)
  then show ?thesis by (auto simp: books_def depot_def dest: depot_jobs)
qed

lemma small_price_answers:
  assumes "\<bar>x\<bar> \<le> 1000"
  shows "\<exists>v. numeric_param demo_env (f64 x) = Inr v"
proof -
  have "\<bar>x\<bar> < 2 ^ 1000" using assms by (rule order.strict_trans1) simp
  then obtain y where y: "f64 x = Fin y" by (rule f64_finite)
  let ?m = "round_away (y * 10 ^ 6)"
  have "(\<bar>x\<bar> + 1/2) / 2 ^ 53 \<le> 1" using assms by simp
  with f64_error_sum [OF y] assms have "\<bar>y\<bar> \<le> 1001" by linarith
  moreover have "\<bar>of_int (round_away r) :: rat\<bar> \<le> \<bar>r\<bar> + 1" for r using round_away_error [of r] by linarith
  from this [of "y * 10 ^ 6"] have "\<bar>of_int ?m :: rat\<bar> \<le> \<bar>y\<bar> * 10 ^ 6 + 1" by (simp add: abs_mult)
  ultimately have "\<bar>of_int ?m :: rat\<bar> < 10 ^ 18" by simp
  then have "rat_of_int \<bar>?m\<bar> < rat_of_int (10 ^ 18)" by simp
  then have "\<bar>?m\<bar> < 10 ^ 18" by (simp only: of_int_less_iff)
  then show ?thesis by (simp add: numeric_param_def y numeric_fits_def to_numeric_def demo_env_def)
qed

lemma fake_rate_answers: "rate_answers demo_env fake_rate"
  using small_price_answers [of "12345 / 10000"]
  by (simp add: rate_answers_def ProvideRateProvider_def fake_ext_def fake_Get_def NewFake_def io_simps
      Load_def getEnv_def)

lemma depot_batch:
  "\<exists>w. ProcessQueueBatch (ProvideFXRatesService demo_env fake_rate NoopIdempotency) ctx_background 5 demo_world
      = (Ok (), w) \<and>
    jobs_at w demo_id = Some \<lparr>jv_pair = ''USD/EUR'', jv_status = Done, jv_error = None\<rparr>"
proof -
  have free: "\<forall>n. env_locked demo_env n = []" by (simp add: demo_env_def)
  let ?q = "queued_ids (jobs_at demo_world)"
  obtain w ids where run: "ProcessQueueBatch (ProvideFXRatesService demo_env fake_rate NoopIdempotency)
      ctx_background 5 demo_world = (Ok (), w)"
    and sub: "ids \<subseteq> ?q" and card: "card ids = min (nat 5) (card ?q)"
    and jobs: "jobs_at w = (\<lambda>k. if k \<in> ids then map_option done_view (jobs_at demo_world k) else jobs_at demo_world k)"
    using batch_answers [OF demo_answering demo_ctx fake_rate_answers demo_world_ok free, of 5 NoopIdempotency]
    by auto
  have "?q \<subseteq> {uuid_text (\<lambda>i. 1), uuid_text (\<lambda>i. 2)}"
    by (auto simp: queued_ids_def pg_jobs_def pg_view_def demo_world_def jobs_of_def demo_tables_def demo_job_def
        ctx_background_def split: if_splits)
  then have "finite ?q" and "card ?q \<le> 2" by (auto intro: finite_subset dest: card_mono [rotated] simp: card_insert_if split: if_splits)
  with sub card have "ids = ?q" by (simp add: card_subset_eq)
  moreover have "demo_id \<in> ?q" by (simp add: queued_ids_def demo_present)
  ultimately show ?thesis using run jobs by (simp add: demo_present done_view_def)
qed

text \<open>After the batch the job is done, and so its pair has an entry in the history and a price.\<close>

lemma db_mode_books_witness:
  "\<exists>w. (sys_step demo_env quiet_router fake_rate NoopIdempotency)\<^sup>*\<^sup>* depot (goto 0 Idle w depot) \<and>
     jobs_at w demo_id = Some \<lparr>jv_pair = ''USD/EUR'', jv_status = Done, jv_error = None\<rparr> \<and>
     (\<exists>v t s u. (''USD/EUR'', v, t, s, u) \<in> pg_history ctx_background w) \<and>
     pg_quotes ctx_background w ''USD/EUR'' \<noteq> None"
proof -
  obtain w where batch: "ProcessQueueBatch (ProvideFXRatesService demo_env fake_rate NoopIdempotency)
      ctx_background 5 (sy_world depot) = (Ok (), w)"
    and j: "jobs_at w demo_id = Some \<lparr>jv_pair = ''USD/EUR'', jv_status = Done, jv_error = None\<rparr>"
    using depot_batch by (auto simp: depot_def)
  have "sy_pc depot 0 = Idle" by (simp add: depot_def)
  from batch_steps [OF this demo_ctx batch]
  have run: "(sys_step demo_env quiet_router fake_rate NoopIdempotency)\<^sup>*\<^sup>* depot (goto 0 Idle w depot)" .
  from db_mode_books [OF depot_start depot_books quiet_outside run]
  have b: "books (jobs_at w) (pg_quotes ctx_background w) (pg_history ctx_background w)" by simp
  from booksD(4) [OF b, of demo_id] j
  have "\<exists>v t s u. (''USD/EUR'', v, t, s, u) \<in> pg_history ctx_background w" by (simp add: done_pair_def)
  with booksD(1) [OF b] run j show ?thesis by blast
qed

end
