(* ===== verification/Http_Facts.thy ===== *)
theory Http_Facts
  imports Http_Router
begin

section \<open>What every request gets\<close>

text \<open>
  A small logic of handlers over the writer alone (the services may do anything, panics
  included), and the guarantees of the router it proves: every request is answered once, with a
  status of the API and both ids in its headers, and a handler that panics is answered too.
\<close>

subsection \<open>Triples over the writer\<close>

text \<open>
  From a writer with \<open>P\<close>, the computation never ends with an error; if it returns \<open>a\<close> the
  writer has \<open>Q a\<close>, if it panics \<open>R\<close>.
\<close>

definition wspec :: "(writer \<Rightarrow> bool) \<Rightarrow> ('s, 'a) hio \<Rightarrow> ('a \<Rightarrow> writer \<Rightarrow> bool) \<Rightarrow> (writer \<Rightarrow> bool) \<Rightarrow> bool" where
  "wspec P m Q R \<longleftrightarrow> (\<forall>s w. P w \<longrightarrow> (case m (s, w) of
     (Ok a, (_, w')) \<Rightarrow> Q a w' | (Err _, _) \<Rightarrow> False | (Panic _, (_, w')) \<Rightarrow> R w'))"

named_theorems wspec_intros \<open>rules for triples over the writer\<close>

lemma wspecI:
  assumes "\<And>s w. P w \<Longrightarrow> case m (s, w) of
     (Ok a, (_, w')) \<Rightarrow> Q a w' | (Err _, _) \<Rightarrow> False | (Panic _, (_, w')) \<Rightarrow> R w'"
  shows "wspec P m Q R"
  using assms by (simp add: wspec_def)

lemma wspecD:
  assumes "wspec P m Q R" and "P w" and "m (s, w) = (x, (s', w'))"
  shows "case x of Ok a \<Rightarrow> Q a w' | Err _ \<Rightarrow> False | Panic _ \<Rightarrow> R w'"
  using assms unfolding wspec_def by (cases x) (fastforce dest!: spec [of _ s])+

lemma wspec_bind:
  assumes "wspec P m M R" and "\<And>a. wspec (M a) (f a) Q R"
  shows "wspec P (io_bind m f) Q R"
proof (rule wspecI)
  fix s w assume "P w"
  obtain x s1 w1 where m: "m (s, w) = (x, (s1, w1))" by (metis prod_cases3)
  note sp = wspecD [OF assms(1) \<open>P w\<close> m]
  show "case io_bind m f (s, w) of
     (Ok a, (_, w')) \<Rightarrow> Q a w' | (Err _, _) \<Rightarrow> False | (Panic _, (_, w')) \<Rightarrow> R w'"
  proof (cases x)
    case (Ok a)
    with sp have "M a w1" by simp
    with assms(2) [of a] Ok m show ?thesis by (simp add: io_bind_eq wspec_def)
  qed (use sp m in \<open>simp_all add: io_bind_eq\<close>)
qed

lemma wspec_then:
  assumes "wspec P m (\<lambda>_. M) R" and "wspec M n Q R"
  shows "wspec P (io_then m n) Q R"
  unfolding io_then_def using assms(1) by (rule wspec_bind) (rule assms(2))

lemma wspec_writer [wspec_intros]:
  "(\<And>w. P w \<Longrightarrow> Q () (f w)) \<Longrightarrow> wspec P (on_writer f) Q R"
  by (rule wspecI) (simp add: on_writer_eq)

lemma wspec_return [wspec_intros]: "(\<And>w. P w \<Longrightarrow> Q a w) \<Longrightarrow> wspec P (io_return a) Q R"
  by (rule wspecI) (simp add: io_return_eq)

lemma wspec_state [wspec_intros]: "(\<And>w a. P w \<Longrightarrow> Q a w) \<Longrightarrow> wspec P (on_state f) Q R"
  by (rule wspecI) (simp add: on_state_eq split: prod.split)

lemma wspec_try [wspec_intros]:
  "(\<And>w a. P w \<Longrightarrow> Q a w) \<Longrightarrow> (\<And>w. P w \<Longrightarrow> R w) \<Longrightarrow> wspec P (io_try (on_service m)) Q R"
  by (rule wspecI) (auto simp: io_try_eq on_service_eq split: prod.split outcome.split)

lemma wspec_weaken:
  "wspec P m Q R \<Longrightarrow> (\<And>w. P' w \<Longrightarrow> P w) \<Longrightarrow> (\<And>a w. Q a w \<Longrightarrow> Q' a w) \<Longrightarrow> (\<And>w. R w \<Longrightarrow> R' w) \<Longrightarrow>
   wspec P' m Q' R'"
  unfolding wspec_def by (fastforce split: prod.splits outcome.splits)

subsection \<open>Statuses and ids\<close>

definition api_statuses :: "int set" where
  "api_statuses = {200, 202, 400, 404, 405, 409, 500, 503}"

definition has_ids :: "string \<Rightarrow> string \<Rightarrow> (string \<times> string) list \<Rightarrow> bool" where
  "has_ids rid tid hs \<longleftrightarrow> map_of hs ''X-Request-Id'' = Some rid \<and> map_of hs ''X-Trace-Id'' = Some tid"

text \<open>The ids are set, and what has been sent, if anything, has them and a status of the API.\<close>

definition tagged :: "string \<Rightarrow> string \<Rightarrow> writer \<Rightarrow> bool" where
  "tagged rid tid w \<longleftrightarrow> has_ids rid tid (w_header w) \<and>
     (case w_sent w of None \<Rightarrow> True | Some (code, hs) \<Rightarrow> code \<in> api_statuses \<and> has_ids rid tid hs)"

definition sent :: "string \<Rightarrow> string \<Rightarrow> writer \<Rightarrow> bool" where
  "sent rid tid w \<longleftrightarrow> tagged rid tid w \<and> w_sent w \<noteq> None"

lemma sent_tagged: "sent rid tid w \<Longrightarrow> tagged rid tid w"
  by (simp add: sent_def)

lemma tagged_header [simp]:
  "k \<noteq> ''X-Request-Id'' \<Longrightarrow> k \<noteq> ''X-Trace-Id'' \<Longrightarrow> tagged rid tid w \<Longrightarrow> tagged rid tid (header_set k v w)"
  "k \<noteq> ''X-Request-Id'' \<Longrightarrow> k \<noteq> ''X-Trace-Id'' \<Longrightarrow> tagged rid tid w \<Longrightarrow> tagged rid tid (header_del k w)"
  by (simp_all add: tagged_def has_ids_def header_set_def header_del_def AList.update_conv AList.delete_conv)

lemma sent_header [simp]:
  "k \<noteq> ''X-Request-Id'' \<Longrightarrow> k \<noteq> ''X-Trace-Id'' \<Longrightarrow> sent rid tid w \<Longrightarrow> sent rid tid (header_set k v w)"
  by (simp add: sent_def) (simp add: header_set_def)

lemma tagged_log [simp]: "tagged rid tid (w\<lparr>w_log := l\<rparr>) = tagged rid tid w"
  "sent rid tid (w\<lparr>w_log := l\<rparr>) = sent rid tid w"
  by (simp_all add: tagged_def sent_def)

lemma tagged_conn [simp]:
  "tagged rid tid w \<Longrightarrow> code \<in> api_statuses \<Longrightarrow> sent rid tid (conn_WriteHeader code w)"
  "tagged rid tid w \<Longrightarrow> sent rid tid (conn_Write b w)"
  by (auto simp: sent_def tagged_def conn_WriteHeader_def conn_Write_def Let_def api_statuses_def split: option.splits)

lemma tagged_recorder [simp]:
  "tagged rid tid (w\<lparr>sr_status := x\<rparr>) = tagged rid tid w" "sent rid tid (w\<lparr>sr_status := x\<rparr>) = sent rid tid w"
  "tagged rid tid (w\<lparr>sr_bytes := y\<rparr>) = tagged rid tid w" "sent rid tid (w\<lparr>sr_bytes := y\<rparr>) = sent rid tid w"
  by (simp_all add: tagged_def sent_def)

lemma tagged_sr [simp]:
  "tagged rid tid w \<Longrightarrow> code \<in> api_statuses \<Longrightarrow> sent rid tid (sr_WriteHeader code w)"
  "tagged rid tid w \<Longrightarrow> sent rid tid (sr_Write b w)"
  by (simp_all add: sr_WriteHeader_def sr_Write_def Let_def)

lemma sent_encode [simp]: "sent rid tid w \<Longrightarrow> sent rid tid (encode_to v w)"
  by (simp add: encode_to_def sent_tagged split: option.split)

lemma sent_http_Error [simp]:
  assumes "tagged rid tid w" and "code \<in> api_statuses"
  shows "sent rid tid (http_Error_on sr_WriteHeader sr_Write msg code w)"
    and "sent rid tid (http_Error_on conn_WriteHeader conn_Write msg code w)"
  using assms by (simp_all add: http_Error_on_def sent_tagged)

subsection \<open>The handlers\<close>

abbreviation answers :: "string \<Rightarrow> string \<Rightarrow> ('s, unit) hio \<Rightarrow> bool" where
  "answers rid tid m \<equiv> wspec (tagged rid tid) m (\<lambda>_. sent rid tid) (tagged rid tid)"

lemma wspec_log [wspec_intros]:
  "wspec (tagged rid tid) (log_at lg lv msg f) (\<lambda>_. tagged rid tid) (tagged rid tid)"
  "wspec (sent rid tid) (log_at lg lv msg f) (\<lambda>_. sent rid tid) R"
  unfolding log_at_def by (rule wspec_writer, simp)+

lemma answers_log_then:
  "answers rid tid m \<Longrightarrow> answers rid tid (io_then (log_at lg lv msg f) m)"
  by (rule wspec_then [OF wspec_log(1)])

lemma answers_writeError [wspec_intros]:
  "code \<in> api_statuses \<Longrightarrow> answers rid tid (writeError code msg)"
  unfolding writeError_def by (rule wspec_writer) simp

lemma answers_writeJSON [wspec_intros]:
  "code \<in> api_statuses \<Longrightarrow> answers rid tid (writeJSON code v)"
  unfolding writeJSON_def by (rule wspec_writer) simp

lemma status_codes [simp]:
  "200 \<in> api_statuses" "202 \<in> api_statuses" "400 \<in> api_statuses" "404 \<in> api_statuses"
  "405 \<in> api_statuses" "409 \<in> api_statuses" "500 \<in> api_statuses" "503 \<in> api_statuses"
  by (simp_all add: api_statuses_def)

lemma answers_logged_error:
  "answers rid tid m \<Longrightarrow> answers rid tid (io_then (logRequestError r msg (Some e)) m)"
  by (simp add: logRequestError_def answers_log_then)

lemma answers_try:
  assumes "\<And>x. answers rid tid (f x)"
  shows "answers rid tid (io_bind (io_try (on_service m)) f)"
  by (rule wspec_bind [where M = "\<lambda>_. tagged rid tid"]) (auto intro: wspec_try assms)

lemma answers_dispatch:
  "wspec (sent rid tid) (request_dispatch srv r lg i p) (\<lambda>_. sent rid tid) (tagged rid tid)"
proof -
  have err: "wspec (sent rid tid) (writeError 503 m) (\<lambda>_. sent rid tid) (tagged rid tid)" for m :: string
    by (rule wspec_weaken [OF answers_writeError]) (auto simp: sent_tagged)
  show ?thesis
    unfolding request_dispatch_def
    by (auto split: option.split sum.split intro!: wspec_return wspec_then [OF wspec_log(2)] err
        wspec_bind [where M = "\<lambda>_. sent rid tid"] wspec_try simp: sent_tagged)
qed

lemma answers_RequestQuoteUpdate: "answers rid tid (Server_RequestQuoteUpdate je srv params r)"
proof -
  have ok: "answers rid tid (io_then (writeJSON 202 v) (request_dispatch srv r lg i p))" for v lg i p
    by (rule wspec_then [OF answers_writeJSON answers_dispatch]) simp
  show ?thesis
    unfolding Server_RequestQuoteUpdate_def Let_def request_error_def
    by (auto split: option.split sum.split intro!: answers_log_then answers_writeError answers_try
        answers_logged_error ok)
qed

lemma answers_GetQuoteUpdate: "answers rid tid (Server_GetQuoteUpdate srv i r)"
  unfolding Server_GetQuoteUpdate_def Let_def
  by (auto split: sum.split intro!: answers_log_then answers_writeError answers_writeJSON answers_try
      answers_logged_error)

lemma answers_GetLastQuote: "answers rid tid (Server_GetLastQuote srv params r)"
  unfolding Server_GetLastQuote_def Let_def
  by (auto split: sum.split intro!: answers_log_then answers_writeError answers_writeJSON answers_try
      answers_logged_error)

lemma answers_status_body: "answers rid tid (io_then (on_writer (sr_WriteHeader 200)) (on_writer (sr_Write b)))"
  by (rule wspec_then [where M = "sent rid tid"]) (auto intro!: wspec_writer simp: sent_tagged)

lemma answers_typed_body:
  "k \<noteq> ''X-Request-Id'' \<Longrightarrow> k \<noteq> ''X-Trace-Id'' \<Longrightarrow>
   answers rid tid (io_then (on_writer (header_set k v))
     (io_then (on_writer (sr_WriteHeader 200)) (on_writer (sr_Write b))))"
  by (rule wspec_then [OF _ answers_status_body]) (auto intro!: wspec_writer)

lemma answers_readyz: "answers rid tid (readyz srv r)"
  unfolding readyz_def ready_answer_def
  by (auto split: option.split sum.split intro!: answers_status_body answers_writeError answers_try)

lemma wspec_read_first:
  "wspec (tagged rid tid) (read_first read ps x) (\<lambda>_. tagged rid tid) (tagged rid tid)"
proof (induction ps arbitrary: x)
  case (Cons p ps)
  then show ?case
    by (auto split: sum.split intro!: wspec_bind [where M = "\<lambda>_. tagged rid tid"] wspec_try wspec_return)
qed (auto intro: wspec_return)

lemma answers_openapi_yaml: "answers rid tid (openapi_yaml env r)"
  unfolding openapi_yaml_def
  by (rule wspec_bind [OF wspec_read_first])
    (auto split: sum.split intro!: wspec_writer answers_typed_body)

lemma answers_wrapper:
  assumes "\<And>p q. answers rid tid (si_GetLastQuote si p q)"
    and "\<And>p q. answers rid tid (si_RequestQuoteUpdate si p q)"
    and "\<And>p q. answers rid tid (si_GetQuoteUpdate si p q)"
    and "\<And>e q. answers rid tid (eh e q)"
  defines "siw \<equiv> \<lparr>siw_Handler = si, siw_HandlerMiddlewares = [], siw_ErrorHandlerFunc = eh\<rparr>"
  shows "answers rid tid (siw_GetLastQuote rt siw r)"
    and "answers rid tid (siw_RequestQuoteUpdate rt siw r)"
    and "answers rid tid (siw_GetQuoteUpdate rt siw r)"
  using assms(1-4)
  by (auto simp: siw_GetLastQuote_def siw_RequestQuoteUpdate_def siw_GetQuoteUpdate_def siw_def
      wrap_handler_def split: sum.split option.split)

text \<open>The handlers chi brings answer as documented: 404 and 405, on the writer they are given.\<close>

definition chi_handlers_answer :: "'s router_env \<Rightarrow> bool" where
  "chi_handlers_answer env \<longleftrightarrow>
     (\<forall>rid tid r. answers rid tid (re_not_found env r) \<and> answers rid tid (re_no_method env r))"

lemma answers_route:
  assumes "chi_handlers_answer env"
  shows "answers rid tid (route_http env (rr_routes (NewRouter env srv)) r)"
proof -
  note w = answers_wrapper [where si = "server_interface (re_json_err env) srv"
      and eh = "\<lambda>err r. writeError 400 ''bad request''" and rid = rid and tid = tid,
      OF _ _ _ answers_writeError,
      simplified server_interface_def ServerInterface.simps,
      OF answers_GetLastQuote answers_RequestQuoteUpdate answers_GetQuoteUpdate status_codes(3)]
  have h: "\<forall>rt \<in> set (rr_routes (NewRouter env srv)). \<forall>q. answers rid tid (rt_handler rt q)"
    unfolding NewRouter_def HandlerWithOptions_def api_options_def router_Method_def router_Use_def
      chi_NewRouter_def Let_def
    using w by (auto simp: server_interface_def healthz_def swagger_def
        intro!: answers_status_body answers_readyz answers_openapi_yaml answers_typed_body)
  show ?thesis
    using assms h by (auto simp: route_http_def chi_handlers_answer_def split: chi_match.split)
qed


subsection \<open>The middlewares\<close>

lemma answers_accessLog:
  assumes "answers rid tid (nxt r)"
  shows "answers rid tid (accessLog env nxt r)"
proof -
  have reset: "wspec (tagged rid tid) (on_writer (\<lambda>w. w\<lparr>sr_status := 0, sr_bytes := 0\<rparr>))
      (\<lambda>_. tagged rid tid) R" for R
    by (rule wspec_writer) (simp add: tagged_def)
  have log_it: "wspec (sent rid tid) (io_bind (on_state (re_now env)) (\<lambda>t.
      on_writer (\<lambda>w. w\<lparr>w_log := w_log w @ [e t w]\<rparr>))) (\<lambda>_. sent rid tid) (tagged rid tid)" for e
    by (rule wspec_bind [where M = "\<lambda>_. sent rid tid"]) (auto intro!: wspec_state wspec_writer)
  show ?thesis
    unfolding accessLog_def
    by (rule wspec_bind [where M = "\<lambda>_. tagged rid tid"])
      (auto intro!: wspec_state wspec_then [OF reset] wspec_then [OF assms] log_it)
qed

lemma recoverer_no_panic:
  assumes "answers rid tid (nxt r)"
  shows "wspec (tagged rid tid) (recoverer nxt r) (\<lambda>_. sent rid tid) (\<lambda>_. False)"
proof (rule wspecI)
  fix s w assume "tagged rid tid w"
  obtain x s1 w1 where m: "nxt r (s, w) = (x, (s1, w1))" by (metis prod_cases3)
  from wspecD [OF assms \<open>tagged rid tid w\<close> m]
  show "case recoverer nxt r (s, w) of (Ok _, (_, w')) \<Rightarrow> sent rid tid w' | (Err _, _) \<Rightarrow> False
      | (Panic _, (_, w')) \<Rightarrow> False"
    by (cases x) (simp_all add: recoverer_def m on_recover_def io_then_eq on_writer_eq log_at_def)
qed

text \<open>
  C14: Every request to the API is answered exactly once, whatever the services behind the
  router do, fail or panic: the router returns normally, and what was sent has one of the eight
  statuses of the API and both ids in its headers, the caller's own ids where it sent them.
\<close>

theorem router_answers:
  assumes "chi_handlers_answer env"
    and "serve env (NewRouter env srv) r (s, new_writer) = (x, (s', w'))"
  shows "x = Ok () \<and> (\<exists>code hs rid tid. w_sent w' = Some (code, hs) \<and> code \<in> api_statuses \<and>
    has_ids rid tid hs \<and>
    (values_get (Header r) ''X-Request-Id'' \<noteq> [] \<longrightarrow> rid = values_get (Header r) ''X-Request-Id'') \<and>
    (values_get (Header r) ''X-Trace-Id'' \<noteq> [] \<longrightarrow> tid = values_get (Header r) ''X-Trace-Id''))"
proof -
  let ?nxt = "recoverer (accessLog env (route_http env (rr_routes (NewRouter env srv))))"
  have inner: "wspec (tagged rid tid) (?nxt q) (\<lambda>_. sent rid tid) (\<lambda>_. False)" for rid tid q
    by (rule recoverer_no_panic answers_accessLog answers_route assms(1))+
  obtain rid s1 where rid: "\<And>w. choose_id env (values_get (Header r) ''X-Request-Id'') (s, w) = (Ok rid, (s1, w))"
    and rid_in: "values_get (Header r) ''X-Request-Id'' \<noteq> [] \<longrightarrow> rid = values_get (Header r) ''X-Request-Id''"
    using choose_id_eq [of env "values_get (Header r) ''X-Request-Id''" s] by blast
  obtain tid s2 where tid: "\<And>w. choose_id env (values_get (Header r) ''X-Trace-Id'') (s1, w) = (Ok tid, (s2, w))"
    and tid_in: "values_get (Header r) ''X-Trace-Id'' \<noteq> [] \<longrightarrow> tid = values_get (Header r) ''X-Trace-Id''"
    using choose_id_eq [of env "values_get (Header r) ''X-Trace-Id''" s1] by blast
  define w2 where "w2 = header_set ''X-Trace-Id'' tid (header_set ''X-Request-Id'' rid new_writer)"
  have t2: "tagged rid tid w2"
    by (simp add: w2_def tagged_def has_ids_def header_set_def new_writer_def)
  let ?q = "r\<lparr>ReqCtx := (ReqCtx r)\<lparr>ctx_request_id := Some rid, ctx_trace_id := Some tid\<rparr>\<rparr>"
  have "?nxt ?q (s2, w2) = (x, (s', w'))"
    using assms(2)
    by (simp add: serve_NewRouter requestID_def traceID_def io_bind_eq rid tid io_then_eq on_writer_eq
        w2_def)
  from wspecD [OF inner t2 this] have ok: "x = Ok ()" and "sent rid tid w'" by (cases x; simp)+
  then obtain code hs where "w_sent w' = Some (code, hs)" "code \<in> api_statuses" "has_ids rid tid hs"
    by (auto simp: sent_def tagged_def)
  with ok rid_in tid_in show ?thesis by blast
qed

subsection \<open>Answers on a fresh writer\<close>

definition answered_json :: "int \<Rightarrow> jobj \<Rightarrow> writer \<Rightarrow> bool" where
  "answered_json code v w \<longleftrightarrow> (\<exists>b. encode_json v = Some b \<and> answered code ''application/json'' b w)"

lemma encode_apiError [simp]: "encode_json (apiError code msg) \<noteq> None"
  by (simp add: apiError_def encode_json_def encode_val_def)

lemma answered_log [simp]: "answered c t b (w\<lparr>w_log := l\<rparr>) = answered c t b w"
  "answered_json c v (w\<lparr>w_log := l\<rparr>) = answered_json c v w"
  by (simp_all add: answered_def answered_json_def)

text \<open>The writer after an envelope.\<close>

definition sent_json :: "int \<Rightarrow> jobj \<Rightarrow> writer \<Rightarrow> writer" where
  "sent_json code v w =
     encode_to v (sr_WriteHeader code (header_set ''Content-Type'' ''application/json'' w))"

lemma answered_sent_json:
  "fresh w \<Longrightarrow> encode_json v \<noteq> None \<Longrightarrow> code \<noteq> 0 \<Longrightarrow> answered_json code v (sent_json code v w)"
  unfolding answered_json_def sent_json_def using Http_Wire.answered_json by blast

lemma answered_error: "fresh w \<Longrightarrow> code \<noteq> 0 \<Longrightarrow> answered_json code (apiError code msg) (sent_json code (apiError code msg) w)"
  by (rule answered_sent_json [OF _ encode_apiError])

lemma write_eqs [io_simps]:
  "writeJSON code v (s, w) = (Ok (), (s, sent_json code v w))"
  "writeError code msg (s, w) = (Ok (), (s, sent_json code (apiError code msg) w))"
  by (simp_all add: writeJSON_def writeError_def on_writer_eq sent_json_def)

lemma log_eq [io_simps]:
  "log_at base lv msg f (s, w) =
     (Ok (), (s, w\<lparr>w_log := w_log w @ [\<lparr>le_level = lv, le_msg = msg, le_fields = base @ f\<rparr>]\<rparr>))"
  by (simp add: log_at_def on_writer_eq)

lemma logRequestError_eq [io_simps]:
  "logRequestError r msg (Some e) (s, w) =
     (Ok (), (s, w\<lparr>w_log := w_log w @ [\<lparr>le_level = ErrorLevel, le_msg = msg,
        le_fields = loggerForRequest r @ [(''error'', LErr e)]\<rparr>]\<rparr>))"
  by (simp add: logRequestError_def log_eq)


subsection \<open>What an update request is answered\<close>

text \<open>
  The checks of the handler before it calls the service: the reason of a refusal, or the pair
  and the key it goes on with.
\<close>

definition post_check :: "http_req \<Rightarrow> string + (string \<times> string)" where
  "post_check r = (case decode_request (ReqBody r) of
     None \<Rightarrow> Inl ''invalid JSON body''
   | Some body \<Rightarrow>
       let p = qr_Pair body; k = values_get (Header r) ''X-Idempotency-Key'' in
       if p = [] then Inl ''pair is required''
       else if p \<notin> set supported_pairs then Inl ''invalid pair''
       else if k = [] then Inl ''X-Idempotency-Key is required'' else Inr (p, k))"

text \<open>The table of the service's errors.\<close>

definition error_reply :: "go_error \<Rightarrow> int \<times> string" where
  "error_reply e =
     (if errors_is e ErrBadRequest then (400, ''bad request'')
      else if errors_is e ErrUnsupportedPair then (400, ''invalid pair'')
      else if errors_is e ErrConflict then (409, ''conflict'')
      else (500, ''internal error''))"

lemma request_error_eq:
  obtains l where "request_error r e (s, w) =
    (Ok (), (s, sent_json (fst (error_reply e)) (apiError (fst (error_reply e)) (snd (error_reply e)))
      (w\<lparr>w_log := w_log w @ l\<rparr>)))"
proof -
  have "w\<lparr>w_log := w_log w @ []\<rparr> = w" by simp
  then show thesis
    by (cases "errors_is e ErrBadRequest \<or> errors_is e ErrUnsupportedPair \<or> errors_is e ErrConflict")
      (auto simp: request_error_def error_reply_def io_simps intro: that [of "[]"] that)
qed

text \<open>
  A request that passes the checks is handed to the service with its pair and key, and the
  answer follows from what the service returned.
\<close>

lemma post_handler_run:
  "\<exists>l. Server_RequestQuoteUpdate je srv params r (s, w) = (case post_check r of
     Inl msg \<Rightarrow> (Ok (), (s, sent_json 400 (apiError 400 msg) (w\<lparr>w_log := w_log w @ l\<rparr>)))
   | Inr (p, k) \<Rightarrow> (case RequestQuoteUpdate (srv_svc srv) (ReqCtx r) p (Some k) s of
       (Ok i, s') \<Rightarrow> request_dispatch srv r
         (loggerForRequest r @ [(''pair'', LStr p), (''idempotency_key'', LStr k)]) i p
         (s', sent_json 202 [(''update_id'', VStr i)] (w\<lparr>w_log := w_log w @ l\<rparr>))
     | (Err e, s') \<Rightarrow> (Ok (), (s', sent_json (fst (error_reply e))
         (apiError (fst (error_reply e)) (snd (error_reply e))) (w\<lparr>w_log := w_log w @ l\<rparr>)))
     | (Panic x, s') \<Rightarrow> (Panic x, (s', w\<lparr>w_log := w_log w @ l\<rparr>))))"
proof (cases "post_check r")
  case (Inl msg)
  then show ?thesis
    by (auto simp: Server_RequestQuoteUpdate_def post_check_def Let_def io_simps ValidatePair_iff
        split: option.splits if_splits)
next
  case (Inr pk)
  obtain p k where pk: "pk = (p, k)" by (cases pk)
  with Inr have c: "decode_request (ReqBody r) = Some \<lparr>qr_Pair = p\<rparr>" "p \<noteq> []" "ValidatePair p"
    "values_get (Header r) ''X-Idempotency-Key'' = k" "k \<noteq> []"
    by (auto simp: post_check_def Let_def ValidatePair_iff split: option.splits if_splits)
  obtain res s' where svc: "RequestQuoteUpdate (srv_svc srv) (ReqCtx r) p (Some k) s = (res, s')" by fastforce
  let ?lg = "loggerForRequest r @ [(''pair'', LStr p), (''idempotency_key'', LStr k)]"
  let ?call = "\<lparr>le_level = InfoLevel, le_msg = ''request_quote_update.call_service'', le_fields = ?lg\<rparr>"
  show ?thesis
  proof (cases res)
    case (Err e)
    obtain l where l: "request_error r e (s', w\<lparr>w_log := w_log w @ [?call]\<rparr>) =
        (Ok (), (s', sent_json (fst (error_reply e)) (apiError (fst (error_reply e)) (snd (error_reply e)))
          (w\<lparr>w_log := w_log w @ ?call # l\<rparr>)))"
      by (rule request_error_eq [of r e s' "w\<lparr>w_log := w_log w @ [?call]\<rparr>"]) auto
    then show ?thesis using c Inr pk svc Err
      by (intro exI [of _ "?call # l"]) (simp add: Server_RequestQuoteUpdate_def Let_def io_simps)
  qed (use c Inr pk svc in \<open>auto simp: Server_RequestQuoteUpdate_def Let_def io_simps
      json_QuoteUpdateResponse_def\<close>)
qed


text \<open>
  C15: An update request with nothing yet sent and no dispatcher is answered by one JSON document
  whose status, content type, body and logged status agree: a request that fails a check gets 400
  and the services are not touched; one that passes is handed to the service with its own pair and
  key, and gets 202 with the new id, or 400, 409 or 500 by the service's error.
\<close>

theorem post_update_answer:
  assumes "fresh w" and "srv_dispatch srv = None"
    and run: "Server_RequestQuoteUpdate je srv params r (s, w) = (x, (s', w'))"
  shows "case post_check r of
     Inl msg \<Rightarrow> x = Ok () \<and> s' = s \<and> answered_json 400 (apiError 400 msg) w'
   | Inr (p, k) \<Rightarrow> p \<in> set supported_pairs \<and> k \<noteq> [] \<and>
       (case RequestQuoteUpdate (srv_svc srv) (ReqCtx r) p (Some k) s of
          (Ok i, t) \<Rightarrow> x = Ok () \<and> s' = t \<and> answered_json 202 [(''update_id'', VStr i)] w'
        | (Err e, t) \<Rightarrow> x = Ok () \<and> s' = t \<and>
            answered_json (fst (error_reply e)) (apiError (fst (error_reply e)) (snd (error_reply e))) w'
        | (Panic m, t) \<Rightarrow> x = Panic m \<and> s' = t \<and> fresh w')"
proof -
  have id_ok: "fresh v \<Longrightarrow> answered_json 202 [(''update_id'', VStr i)] (sent_json 202 [(''update_id'', VStr i)] v)"
    for i v by (rule answered_sent_json) (simp_all add: encode_json_def encode_val_def)
  have code: "fst (error_reply e) \<noteq> 0" for e by (simp add: error_reply_def)
  have none: "request_dispatch srv r lg i p t = (Ok (), t)" for lg i p t
    using assms(2) by (simp add: request_dispatch_def io_return_eq)
  obtain l where l: "Server_RequestQuoteUpdate je srv params r (s, w) = (case post_check r of
     Inl msg \<Rightarrow> (Ok (), (s, sent_json 400 (apiError 400 msg) (w\<lparr>w_log := w_log w @ l\<rparr>)))
   | Inr (p, k) \<Rightarrow> (case RequestQuoteUpdate (srv_svc srv) (ReqCtx r) p (Some k) s of
       (Ok i, s') \<Rightarrow> (Ok (), (s', sent_json 202 [(''update_id'', VStr i)] (w\<lparr>w_log := w_log w @ l\<rparr>)))
     | (Err e, s') \<Rightarrow> (Ok (), (s', sent_json (fst (error_reply e))
         (apiError (fst (error_reply e)) (snd (error_reply e))) (w\<lparr>w_log := w_log w @ l\<rparr>)))
     | (Panic x, s') \<Rightarrow> (Panic x, (s', w\<lparr>w_log := w_log w @ l\<rparr>))))"
    using post_handler_run [of je srv params r s w] unfolding none by blast
  show ?thesis
  proof (cases "post_check r")
    case (Inl msg)
    then show ?thesis using l run assms(1) by (auto intro!: answered_error)
  next
    case (Inr pk)
    then have "fst pk \<in> set supported_pairs" "snd pk \<noteq> []"
      by (auto simp: post_check_def Let_def split: option.splits if_splits)
    then show ?thesis using Inr l run assms(1)
      by (auto intro!: answered_error id_ok code split: prod.splits outcome.splits)
  qed
qed

subsection \<open>A dispatcher that fails\<close>

text \<open>
  C17: When the dispatcher refuses a request whose job has been created (its queue is full, say),
  the client has already been sent 202: the second document is appended to the body, its status
  is dropped, and a client that parses the body sees the accepted update, while the access log
  gets 503.
\<close>

theorem dispatch_refused:
  assumes "fresh w" and "post_check r = Inr (p, k)" and "srv_dispatch srv = Some f"
    and "RequestQuoteUpdate (srv_svc srv) (ReqCtx r) p (Some k) s = (Ok i, s1)"
    and "f (ReqCtx r) i p (getTraceIDFromContext (ReqCtx r)) s1 = (Err e, s2)" and "ascii i"
  shows "\<exists>w' b b'. Server_RequestQuoteUpdate je srv params r (s, w) = (Ok (), (s2, w')) \<and>
    response_status w' = Some 202 \<and> w_body w' = b @ b' \<and>
    encode_json [(''update_id'', VStr i)] = Some b \<and>
    encode_json (apiError 503 ''background dispatch failed'') = Some b' \<and>
    read_json (w_body w') = Some (JObj [(''update_id'', JStr i)]) \<and> sr_status w' = 503"
proof -
  let ?v = "[(''update_id'', VStr i)]" and ?e = "apiError 503 ''background dispatch failed''"
  obtain b where b: "encode_json ?v = Some b" by (simp add: encode_json_def encode_val_def)
  obtain b' where b': "encode_json ?e = Some b'" using encode_apiError by blast
  have lit: "ascii ''update_id''" by (simp add: ascii_def)
  have rd: "read_json (b @ b') = Some (JObj [(''update_id'', JStr i)])"
    using read_encoded_prefix [OF b] assms(6) lit by (simp add: ascii_field_def json_of_def)
  obtain l where l: "Server_RequestQuoteUpdate je srv params r (s, w) = request_dispatch srv r
      (loggerForRequest r @ [(''pair'', LStr p), (''idempotency_key'', LStr k)]) i p
      (s1, sent_json 202 ?v (w\<lparr>w_log := w_log w @ l\<rparr>))"
    using post_handler_run [of je srv params r s w] assms(2,4) by auto
  show ?thesis
    using assms(1,3,5) b b' rd unfolding l
    by (simp add: request_dispatch_def io_simps sent_json_def wire_simps fresh_def response_status_def)
qed

subsection \<open>What a client reads of an update\<close>

definition json_text :: "string option \<Rightarrow> json" where
  "json_text v = (case v of None \<Rightarrow> JNull | Some t \<Rightarrow> JStr t)"

definition json_price :: "go_float option \<Rightarrow> json" where
  "json_price v = (case v of Some (Fin q) \<Rightarrow> JNum (float32_text q) | _ \<Rightarrow> JNull)"

definition status_word :: "QuoteUpdateStatus \<Rightarrow> string" where
  "status_word st = (case st of Queued \<Rightarrow> ''queued'' | Processing \<Rightarrow> ''processing'' | Done \<Rightarrow> ''done''
     | _ \<Rightarrow> ''failed'')"

lemma mapped_status: "details_status_text (mapStatus st) = status_word st"
  by (simp add: status_word_def details_status_text_def mapStatus_def split: QuoteUpdateStatus.split)

text \<open>
  C16: The answer to a lookup of an update, parsed by the client, has the update's pair, error,
  status and id, its price as the shortest decimal of its float32, and a time that reads back as
  the stored instant.
\<close>

theorem get_update_reads:
  assumes "fresh w" and "GetQuoteUpdate (srv_svc srv) (ReqCtx r) i s = (Ok u, s')"
    and "ascii (U_ID u)" and "ascii (U_Pair u)" and "U_Error u = None \<or> (\<exists>e. U_Error u = Some e \<and> ascii e)"
    and "U_Price u = None \<or> (\<exists>pr q. U_Price u = Some pr \<and> to_float32 pr = Fin q)"
    and "- 62167219200000000000 \<le> U_UpdatedAt u" and "U_UpdatedAt u < 253402300800000000000"
  shows "\<exists>w' b t. Server_GetQuoteUpdate srv i r (s, w) = (Ok (), (s', w')) \<and>
    answered 200 ''application/json'' b w' \<and>
    read_json b = Some (JObj [(''error'', json_text (U_Error u)), (''pair'', JStr (U_Pair u)),
      (''price'', json_price (map_option to_float32 (U_Price u))),
      (''status'', JStr (status_word (U_Status u))),
      (''update_id'', JStr (U_ID u)), (''updated_at'', JStr t)]) \<and>
    parse_rfc3339 t = Some (U_UpdatedAt u)"
proof -
  let ?v = "json_QuoteUpdateDetails (details_of u)"
  have enc: "encode_json ?v \<noteq> None"
    using assms(5-8) by (auto simp: json_QuoteUpdateDetails_def details_of_def encode_json_def encode_val_def)
  then obtain b where b: "encode_json ?v = Some b" by blast
  have st: "ascii (details_status_text x)" for x
    by (cases x) (simp_all add: details_status_text_def ascii_def)
  have keys: "ascii ''error''" "ascii ''pair''" "ascii ''price''" "ascii ''status''" "ascii ''update_id''"
    "ascii ''updated_at''" by (simp_all add: ascii_def)
  have fld: "list_all ascii_field ?v"
    using assms(3-6) st keys by (auto simp: json_QuoteUpdateDetails_def details_of_def ascii_field_def)
  have rd: "read_json b = Some (JObj (map (\<lambda>(k, v). (k, json_of v)) ?v))"
    by (rule read_encoded [OF b _ fld]) (simp add: json_QuoteUpdateDetails_def)
  have val: "map (\<lambda>(k, v). (k, json_of v)) ?v =
      [(''error'', json_text (U_Error u)), (''pair'', JStr (U_Pair u)),
       (''price'', json_price (map_option to_float32 (U_Price u))),
       (''status'', JStr (status_word (U_Status u))),
       (''update_id'', JStr (U_ID u)), (''updated_at'', JStr (format_rfc3339 (U_UpdatedAt u)))]"
    using assms(6) by (auto simp: json_QuoteUpdateDetails_def details_of_def json_of_def json_text_def json_price_def
        mapped_status split: option.split)
  have run: "\<exists>l. Server_GetQuoteUpdate srv i r (s, w) = (Ok (), (s', sent_json 200 ?v (w\<lparr>w_log := l\<rparr>)))"
    using assms(2) by (auto simp: Server_GetQuoteUpdate_def Let_def io_simps)
  have "answered_json 200 ?v (sent_json 200 ?v (w\<lparr>w_log := l\<rparr>))" for l
    using assms(1) enc by (intro answered_sent_json) simp_all
  then have "answered 200 ''application/json'' b (sent_json 200 ?v (w\<lparr>w_log := l\<rparr>))" for l
    using b by (simp add: answered_json_def)
  then show ?thesis using run rd val parse_format_rfc3339 [OF assms(7,8)] by metis
qed


subsection \<open>The access log and the recovery\<close>

definition access_fields :: "http_req \<Rightarrow> int \<Rightarrow> int \<Rightarrow> log_fields" where
  "access_fields r status dur = [(''method'', LStr (Method r)), (''path'', LStr (Path r)),
     (''status'', LInt status), (''request_id'', LStr (ctx_value (ctx_request_id (ReqCtx r)))),
     (''trace_id'', LStr (ctx_value (ctx_trace_id (ReqCtx r)))), (''duration'', LDur dur)]"

definition entry :: "log_level \<Rightarrow> string \<Rightarrow> log_fields \<Rightarrow> log_entry" where
  "entry lv m f = \<lparr>le_level = lv, le_msg = m, le_fields = f\<rparr>"

text \<open>
  C18: Behind the recovery, a route that returns adds one \<open>http_request\<close> entry with the last
  status it asked for and the time it took; a route that panics adds only the panic's entry, the
  text of a 500 is appended to what it had written, and the 500 is sent unless it had sent a status.
\<close>

theorem access_or_recovery:
  assumes "re_now env s0 = (t0, s1)"
    and "nxt r (s1, w\<lparr>sr_status := 0, sr_bytes := 0\<rparr>) = (x, (s2, w2))"
    and "recoverer (accessLog env nxt) r (s0, w) = (y, (s3, w3))"
  shows "case x of
      Ok _ \<Rightarrow> y = Ok () \<and> (\<exists>t1. re_now env s2 = (t1, s3) \<and>
        w3 = w2\<lparr>w_log := w_log w2 @ [entry InfoLevel ''http_request'' (access_fields r (sr_status w2) (t1 - t0))]\<rparr>)
    | Panic p \<Rightarrow> y = Ok () \<and> s3 = s2 \<and>
        w_log w3 = w_log w2 @ [entry ErrorLevel ''panic recovered'' [(''error'', LStr p),
          (''request_id'', LStr (ctx_value (ctx_request_id (ReqCtx r))))]] \<and>
        w_body w3 = w_body w2 @ ''Internal Server Error'' @ [byte 10] \<and>
        response_status w3 = Some (case response_status w2 of Some c \<Rightarrow> c | None \<Rightarrow> 500)
    | Err e \<Rightarrow> y = Err e"
proof (cases x)
  case (Ok u)
  obtain t1 s4 where "re_now env s2 = (t1, s4)" by fastforce
  then show ?thesis using assms Ok
    by (auto simp: recoverer_def accessLog_def io_simps access_fields_def entry_def)
next
  case (Err e)
  then show ?thesis using assms by (auto simp: recoverer_def accessLog_def io_simps)
next
  case (Panic p)
  then show ?thesis using assms
    by (auto simp: recoverer_def accessLog_def on_recover_def io_simps entry_def wire_simps response_status_def
        split: option.splits if_splits)
qed

subsection \<open>A concrete router\<close>

text \<open>Matching of the seven patterns as chi documents it: literal paths, and one variable at the end.\<close>

definition pattern_match :: "string \<Rightarrow> string \<Rightarrow> (string \<times> string) list option" where
  "pattern_match pat path =
     (let pre = take (length pat - 4) pat; rest = drop (length pat - 4) path in
      if pat = path then Some []
      else if drop (length pat - 4) pat = ''{id}'' \<and> take (length pat - 4) path = pre
              \<and> rest \<noteq> [] \<and> CHR ''/'' \<notin> set rest
      then Some [(''id'', rest)] else None)"

fun find_route :: "nat \<Rightarrow> bool \<Rightarrow> (string \<times> string) list \<Rightarrow> http_req \<Rightarrow> chi_match" where
  "find_route k other [] r = (if other then NoMethod else NoRoute)"
| "find_route k other ((m, pat) # rts) r = (case pattern_match pat (Path r) of
     None \<Rightarrow> find_route (k + 1) other rts r
   | Some ps \<Rightarrow> if m = Method r then Matched k ps else find_route (k + 1) True rts r)"

definition page_env :: "unit router_env" where
  "page_env = \<lparr>re_uuid = (\<lambda>s. (''id-1'', s)), re_now = (\<lambda>s. (0, s)),
     re_read_file = (\<lambda>_. io_fail (Foreign ''no such file'')), re_json_err = (\<lambda>_. Foreign ''invalid''),
     re_bind = \<lparr>BindQuery = (\<lambda>k vs. Inr (values_get vs k)), BindStyled = (\<lambda>_ v. Inr v)\<rparr>,
     re_find = find_route 0 False,
     re_not_found = (\<lambda>_. on_writer (http_Error_on sr_WriteHeader sr_Write ''404 page not found'' 404)),
     re_no_method = (\<lambda>_. on_writer (sr_WriteHeader 405))\<rparr>"

lemma page_env_answers: "chi_handlers_answer page_env"
  by (auto simp: chi_handlers_answer_def page_env_def intro!: wspec_writer)

definition page_req :: "string \<Rightarrow> string \<Rightarrow> string \<Rightarrow> http_req" where
  "page_req m path body = \<lparr>Method = m, Path = path, Query = [], Header = [(''X-Idempotency-Key'', [''k1''])],
     ReqBody = body, ReqCtx = ctx_background, UrlParams = []\<rparr>"

definition page_job :: QuoteUpdate where
  "page_job = \<lparr>U_ID = ''u1'', U_Pair = ''EUR/USD'', U_Status = Done, U_Error = None,
     U_Price = Some (Fin (1 / 2)), U_UpdatedAt = 1735689600000000000\<rparr>"

definition page_svc :: "unit FXRatesService" where
  "page_svc = NewService (io_return 0) (io_return ''x'') None
     (Some \<lparr>CreateQueued = (\<lambda>_ _ _. io_return ''u1''), GetByID = (\<lambda>_ _. io_return page_job),
        UpdateStatus = (\<lambda>_ _ _ _. io_return ()), ClaimQueued = (\<lambda>_ _. io_return [])\<rparr>) None None []"

definition page_body :: string where
  "page_body = (case encode_json [(''pair'', VStr ''EUR/USD'')] of Some b \<Rightarrow> b | None \<Rightarrow> [])"

definition post_req :: http_req where
  "post_req = page_req ''POST'' ''/quotes/updates'' page_body"

lemma page_body_read: "read_json page_body = Some (JObj [(''pair'', JStr ''EUR/USD'')])"
proof -
  let ?v = "[(''pair'', VStr ''EUR/USD'')]"
  have b: "encode_json ?v = Some page_body" by (simp add: page_body_def encode_json_def encode_val_def)
  have "list_all ascii_field ?v" by (simp add: ascii_field_def ascii_def)
  from read_encoded [OF b _ this] show ?thesis by (simp add: json_of_def)
qed

lemma post_req_checked: "post_check post_req = Inr (''EUR/USD'', ''k1'')"
proof -
  have "fold_key ''pair'' = ''pair''" by (rule fold_key_lower) simp
  then have "decode_request page_body = Some \<lparr>qr_Pair = ''EUR/USD''\<rparr>"
    by (simp add: decode_request_def page_body_read del: fold_key.simps)
  then show ?thesis
    by (simp add: post_check_def post_req_def page_req_def values_get_def supported_pairs_def)
qed

lemma page_svc_request: "RequestQuoteUpdate page_svc c p (Some ''k1'') () = (Ok ''u1'', ())"
  by (simp add: RequestQuoteUpdate_def page_svc_def NewService_def io_simps)

lemma router_answers_witness:
  "\<exists>x s' w'. serve page_env (NewRouter page_env (NewServer page_svc)) post_req ((), new_writer) = (x, (s', w')) \<and>
     x = Ok () \<and> (\<exists>code hs. w_sent w' = Some (code, hs) \<and> code \<in> api_statuses)"
proof -
  obtain x s' w' where run:
    "serve page_env (NewRouter page_env (NewServer page_svc)) post_req ((), new_writer) = (x, (s', w'))"
    by (metis prod_cases3)
  from router_answers [OF page_env_answers this] run show ?thesis by blast
qed

lemma post_update_answer_witness:
  "\<exists>w'. Server_RequestQuoteUpdate (\<lambda>_. ErrNotFound) (NewServer page_svc) \<lparr>rp_XIdempotencyKey = ''k1''\<rparr>
     post_req ((), new_writer) = (Ok (), ((), w')) \<and> answered_json 202 [(''update_id'', VStr ''u1'')] w'"
proof -
  obtain x s' w' where run: "Server_RequestQuoteUpdate (\<lambda>_. ErrNotFound) (NewServer page_svc)
      \<lparr>rp_XIdempotencyKey = ''k1''\<rparr> post_req ((), new_writer) = (x, (s', w'))"
    by (metis prod_cases3)
  have "srv_dispatch (NewServer page_svc) = None" "srv_svc (NewServer page_svc) = page_svc"
    by (simp_all add: NewServer_def)
  with post_update_answer [OF fresh_new _ run] post_req_checked page_svc_request run
  show ?thesis by simp
qed

lemma dispatch_refused_witness:
  "\<exists>w'. Server_RequestQuoteUpdate (\<lambda>_. ErrNotFound)
      (SetDispatcher (\<lambda>_ _ _ _. io_fail (ErrorString ''queue full'')) (NewServer page_svc))
      \<lparr>rp_XIdempotencyKey = ''k1''\<rparr> post_req ((), new_writer) = (Ok (), ((), w')) \<and>
    response_status w' = Some 202 \<and> sr_status w' = 503"
proof -
  let ?f = "(\<lambda>_ _ _ _. io_fail (ErrorString ''queue full'')) :: ctx \<Rightarrow> string \<Rightarrow> string \<Rightarrow> string \<Rightarrow> (unit, unit) io"
  have svc: "srv_svc (SetDispatcher ?f (NewServer page_svc)) = page_svc"
    and dis: "srv_dispatch (SetDispatcher ?f (NewServer page_svc)) = Some ?f"
    by (simp_all add: SetDispatcher_def NewServer_def)
  have "ascii ''u1''" by (simp add: ascii_def)
  from dispatch_refused [OF fresh_new post_req_checked dis _ _ this, of "()" "()" "ErrorString ''queue full''" "()"]
  show ?thesis unfolding svc page_svc_request io_fail_eq by blast
qed

lemma get_update_reads_witness:
  "\<exists>w' b t. Server_GetQuoteUpdate (NewServer page_svc) ''u1'' (page_req ''GET'' ''/quotes/updates/u1'' [])
      ((), new_writer) = (Ok (), ((), w')) \<and>
    read_json b = Some (JObj [(''error'', JNull), (''pair'', JStr ''EUR/USD''),
      (''price'', JNum (float32_text (1 / 2))), (''status'', JStr ''done''),
      (''update_id'', JStr ''u1''), (''updated_at'', JStr t)]) \<and> parse_rfc3339 t = Some 1735689600000000000"
proof -
  have f: "to_float32 (Fin (1 / 2)) = Fin (1 / 2)" by code_simp
  have run: "GetQuoteUpdate (srv_svc (NewServer page_svc)) (ReqCtx (page_req ''GET'' ''/quotes/updates/u1'' []))
      ''u1'' () = (Ok page_job, ())"
    by (simp add: GetQuoteUpdate_def page_svc_def NewServer_def NewService_def io_simps)
  have a: "ascii (U_ID page_job)" "ascii (U_Pair page_job)"
    and e: "U_Error page_job = None \<or> (\<exists>e. U_Error page_job = Some e \<and> ascii e)"
    and p0: "U_Price page_job = Some (Fin (1 / 2))"
    and t: "- 62167219200000000000 \<le> U_UpdatedAt page_job" "U_UpdatedAt page_job < 253402300800000000000"
    by (simp_all add: page_job_def ascii_def)
  from p0 f have p: "U_Price page_job = None \<or> (\<exists>pr q. U_Price page_job = Some pr \<and> to_float32 pr = Fin q)"
    by blast
  have v: "U_ID page_job = ''u1''" "U_Pair page_job = ''EUR/USD''" "U_Error page_job = None"
    "map_option to_float32 (U_Price page_job) = Some (Fin (1 / 2))" "U_UpdatedAt page_job = 1735689600000000000"
    "status_word (U_Status page_job) = ''done''"
    using f by (simp_all add: page_job_def status_word_def)
  from get_update_reads [OF fresh_new run a e p t] show ?thesis
    unfolding v json_text_def json_price_def option.case go_float.case by blast
qed

lemma access_or_recovery_witness:
  "\<exists>w3. recoverer (accessLog page_env (\<lambda>_. io_panic ''nil map'')) post_req ((), new_writer) = (Ok (), ((), w3)) \<and>
    response_status w3 = Some 500 \<and> length (w_log w3) = 1"
proof -
  obtain y s3 w3 where run:
    "recoverer (accessLog page_env (\<lambda>_. io_panic ''nil map'')) post_req ((), new_writer) = (y, (s3, w3))"
    by (metis prod_cases3)
  have now: "re_now page_env () = (0, ())" by (simp add: page_env_def)
  from access_or_recovery [OF now io_panic_eq run] run
  show ?thesis by (simp add: new_writer_def response_status_def)
qed

end
