(* ===== verification/End_To_End.thy ===== *)
theory End_To_End
  imports System Http_Facts
begin

section \<open>From the request to the price\<close>

text \<open>
  The API, the database and the worker together: what a client may conclude from the status of
  its answer, and what becomes of an update it was promised.
\<close>

abbreviation queued_job :: "string \<Rightarrow> job_view" where
  "queued_job p \<equiv> \<lparr>jv_pair = p, jv_status = Queued, jv_error = None\<rparr>"

lemma jobs_outside [simp]: "jobs_at (snd (outside m w)) = jobs_at w"
  by (simp add: pg_jobs_def)

lemma request_effect:
  assumes run: "RequestQuoteUpdate (ProvideFXRatesService E rp st) c p (Some k) w = (y, w')" and top: "ctx_tx c = None"
  obtains (ok) i where "y = Ok i" "is_canonical_uuid i" "jobs_at w i = None"
      "jobs_at w' = (jobs_at w)(i \<mapsto> queued_job p)"
  | (lost) m i where "y = Err (Foreign m)" "jobs_at w i = None" "jobs_at w' = (jobs_at w)(i \<mapsto> queued_job p)"
  | (err) e where "y = Err e" "jobs_at w' = jobs_at w"
  | (panic) m where "y = Panic m" "jobs_at w' = jobs_at w"
proof (cases "k = []")
  case True
  with run have "y = Err ErrBadRequest" and "w' = w" by (auto simp: RequestQuoteUpdate_def io_simps)
  with err show thesis by simp
next
  case False
  obtain a w1 where t: "TryReserve (outside_idem st) c k w = (a, w1)" by fastforce
  then have j1: "jobs_at w1 = jobs_at w"
    using jobs_outside [of "TryReserve st c k" w] by (simp add: outside_idem_def)
  show thesis
  proof (cases "a = Ok True")
    case True
    obtain b w2 where cr: "pg_CreateQueued E c p (Some k) w1 = (b, w2)" by fastforce
    have "y = b \<and> w' = w2" using run False True t cr
      by (cases b) (auto simp: RequestQuoteUpdate_def io_simps)
    moreover from cr have "(\<exists>i. b = Ok i \<and> is_canonical_uuid i \<and> jobs_at w1 i = None \<and>
        jobs_at w2 = (jobs_at w1)(i \<mapsto> queued_job p)) \<or>
      (\<exists>m i. b = Err (Foreign m) \<and> jobs_at w1 i = None \<and> jobs_at w2 = (jobs_at w1)(i \<mapsto> queued_job p)) \<or>
      (\<exists>e. b = Err e \<and> jobs_at w2 = jobs_at w1)"
      by (cases rule: pg_create_effect) (auto simp: jobs_top [OF top])
    ultimately show thesis using ok lost err j1 by auto
  next
    case no: False
    have "w' = w1 \<and> (\<forall>i. y \<noteq> Ok i)" using run False no t
      by (cases a) (auto simp: RequestQuoteUpdate_def io_simps split: if_splits)
    with j1 err panic show thesis by (cases y) auto
  qed
qed

lemma post_check_pair: "post_check r = Inr (p, k) \<Longrightarrow> ValidatePair p"
  by (auto simp: post_check_def ValidatePair_iff Let_def split: option.splits if_splits)

lemma sent_json_status: "fresh w \<Longrightarrow> code \<noteq> 0 \<Longrightarrow> \<exists>hs. w_sent (sent_json code v w) = Some (code, hs)"
  by (simp add: sent_json_def encode_to_def fresh_def sr_WriteHeader_def conn_WriteHeader_def sr_Write_def
      conn_Write_def header_set_def Let_def split: option.split)

text \<open>What the handler does in the database mode, where there is no dispatcher.\<close>

lemma post_run:
  assumes fr: "fresh wr"
    and run: "Server_RequestQuoteUpdate je (NewServer svc) params r (w, wr) = (x, (w', wr'))"
  obtains (refused) msg hs where "post_check r = Inl msg" "x = Ok ()" "w' = w" "w_sent wr' = Some (400, hs)"
  | (accepted) p k i hs where "post_check r = Inr (p, k)" "x = Ok ()"
      "RequestQuoteUpdate svc (ReqCtx r) p (Some k) w = (Ok i, w')" "w_sent wr' = Some (202, hs)"
      "answered_json 202 [(''update_id'', VStr i)] wr'"
  | (failed) p k e hs where "post_check r = Inr (p, k)" "x = Ok ()"
      "RequestQuoteUpdate svc (ReqCtx r) p (Some k) w = (Err e, w')" "w_sent wr' = Some (fst (error_reply e), hs)"
  | (panicked) p k m where "post_check r = Inr (p, k)" "x = Panic m"
      "RequestQuoteUpdate svc (ReqCtx r) p (Some k) w = (Panic m, w')" "w_sent wr' = None"
proof -
  have none: "request_dispatch (NewServer svc) r lg i p t = (Ok (), t)" for lg i p t
    by (simp add: request_dispatch_def NewServer_def io_return_eq)
  have svc: "srv_svc (NewServer svc) = svc" by (simp add: NewServer_def)
  obtain l where l: "Server_RequestQuoteUpdate je (NewServer svc) params r (w, wr) = (case post_check r of
     Inl msg \<Rightarrow> (Ok (), (w, sent_json 400 (apiError 400 msg) (wr\<lparr>w_log := w_log wr @ l\<rparr>)))
   | Inr (p, k) \<Rightarrow> (case RequestQuoteUpdate svc (ReqCtx r) p (Some k) w of
       (Ok i, s') \<Rightarrow> (Ok (), (s', sent_json 202 [(''update_id'', VStr i)] (wr\<lparr>w_log := w_log wr @ l\<rparr>)))
     | (Err e, s') \<Rightarrow> (Ok (), (s', sent_json (fst (error_reply e))
         (apiError (fst (error_reply e)) (snd (error_reply e))) (wr\<lparr>w_log := w_log wr @ l\<rparr>)))
     | (Panic x, s') \<Rightarrow> (Panic x, (s', wr\<lparr>w_log := w_log wr @ l\<rparr>))))"
    using post_handler_run [of je "NewServer svc" params r w wr] unfolding none svc by blast
  let ?v = "wr\<lparr>w_log := w_log wr @ l\<rparr>"
  have v: "fresh ?v" using fr by simp
  show thesis
  proof (cases "post_check r")
    case (Inl msg)
    obtain hs where "w_sent (sent_json 400 (apiError 400 msg) ?v) = Some (400, hs)"
      using sent_json_status [OF v, of 400 "apiError 400 msg"] by auto
    with l run Inl show thesis using refused by auto
  next
    case (Inr pk)
    obtain p k where pk: "pk = (p, k)" by (cases pk)
    obtain y s' where req: "RequestQuoteUpdate svc (ReqCtx r) p (Some k) w = (y, s')" by fastforce
    show thesis
    proof (cases y)
      case (Ok i)
      obtain hs where "w_sent (sent_json 202 [(''update_id'', VStr i)] ?v) = Some (202, hs)"
        using sent_json_status [OF v, of 202 "[(''update_id'', VStr i)]"] by auto
      moreover have "answered_json 202 [(''update_id'', VStr i)] (sent_json 202 [(''update_id'', VStr i)] ?v)"
        using v by (intro answered_sent_json) (simp_all add: encode_json_def encode_val_def)
      ultimately show thesis using l run Inr pk req Ok by (intro accepted [of p k i hs]) auto
    next
      case (Err e)
      have "fst (error_reply e) \<noteq> 0" by (simp add: error_reply_def)
      then obtain hs where "w_sent (sent_json (fst (error_reply e))
          (apiError (fst (error_reply e)) (snd (error_reply e))) ?v) = Some (fst (error_reply e), hs)"
        using sent_json_status [OF v] by blast
      then show thesis using l run Inr pk req Err by (intro failed [of p k e hs]) auto
    next
      case (Panic m)
      then show thesis using l run Inr pk req v by (intro panicked [of p k m]) (auto simp: fresh_def)
    qed
  qed
qed

text \<open>
  C2: What the status of an answer tells of the database, whatever the database, Redis and the
  caller do: 202 means that the update whose id is in the answer is in the database, new, queued
  and for a supported pair; any other status means that nothing was created, save that behind a
  500 there may be one queued job nobody was told of (its answer was lost); and no answer means
  that a service panicked, without creating anything.
\<close>

theorem accepted_is_queued:
  assumes fr: "fresh wr" and top: "ctx_tx (ReqCtx r) = None"
    and run: "Server_RequestQuoteUpdate je (NewServer (ProvideFXRatesService E rp st)) params r (w, wr) = (x, (w', wr'))"
  shows "case w_sent wr' of
     None \<Rightarrow> x \<noteq> Ok () \<and> jobs_at w' = jobs_at w
   | Some (code, hs) \<Rightarrow>
       if code = 202 then (\<exists>i p. answered_json 202 [(''update_id'', VStr i)] wr' \<and> ValidatePair p \<and>
         jobs_at w i = None \<and> jobs_at w' = (jobs_at w)(i \<mapsto> queued_job p))
       else jobs_at w' = jobs_at w \<or>
         code = 500 \<and> (\<exists>i p. ValidatePair p \<and> jobs_at w i = None \<and> jobs_at w' = (jobs_at w)(i \<mapsto> queued_job p))"
  using fr run
proof (cases rule: post_run)
  case (accepted p k i hs)
  note pair = post_check_pair [OF accepted(1)]
  from accepted(3) top show ?thesis
    by (cases rule: request_effect) (use accepted pair in auto)
next
  case (failed p k e hs)
  note pair = post_check_pair [OF failed(1)]
  have code: "fst (error_reply e) \<noteq> 202" "fst (error_reply (Foreign m)) = 500" for m
    by (simp_all add: error_reply_def)
  from failed(3) top show ?thesis
    by (cases rule: request_effect) (use failed pair code in auto)
next
  case (panicked p k m)
  from panicked(3) top show ?thesis
    by (cases rule: request_effect) (use panicked in auto)
qed simp_all

text \<open>
  C3: An accepted update is completed: when the client was answered 202 and the database, the rate
  provider and the worker's context then answer, the next batch of a database worker whose limit
  covers the queue leaves the very update the answer named done, and a lookup of that id finds it
  done, without an error, for the pair asked for.
\<close>

theorem accepted_is_completed:
  assumes fr: "fresh wr" and top: "ctx_tx (ReqCtx r) = None" and w: "world_ok ctx_background w"
    and run: "Server_RequestQuoteUpdate je (NewServer (ProvideFXRatesService E rp st)) params r (w, wr) = (x, (w', wr'))"
    and sent: "w_sent wr' = Some (202, hs)"
    and ans: "answering E c" and ctop: "ctx_tx c = None" and rp: "rate_answers E rp"
    and free: "\<forall>n. env_locked E n = []" and lmt: "int (card (queued_ids (jobs_at w'))) \<le> lmt"
  shows "\<exists>i p w2 w3 u. answered_json 202 [(''update_id'', VStr i)] wr' \<and> ValidatePair p \<and>
    ProcessQueueBatch (ProvideFXRatesService E rp st) c lmt w' = (Ok (), w2) \<and>
    GetQuoteUpdate (ProvideFXRatesService E rp st) c i w2 = (Ok u, w3) \<and>
    U_ID u = i \<and> U_Pair u = p \<and> U_Status u = Done \<and> U_Error u = None"
  using fr run
proof (cases rule: post_run)
  case (accepted p k i hs')
  let ?svc = "ProvideFXRatesService E rp st"
  note pair = post_check_pair [OF accepted(1)]
  from accepted(3) top have i: "is_canonical_uuid i" "jobs_at w' i = Some (queued_job p)"
    by (cases rule: request_effect; simp)+
  have "io_keeps (only_created (jobs_at w)) (RequestQuoteUpdate ?svc (ReqCtx r) p (Some k))"
    by (rule request_only [OF top pair])
  from io_keepsD [OF this, of w] w accepted(3) have w': "world_ok c w'"
    by (simp add: only_created_def ok_top [of c])
  have jc: "pg_jobs c v = jobs_at v" for v :: "'a world" by (rule jobs_top [OF ctop])
  have "0 \<le> lmt" using lmt by linarith
  from batch_answers [OF ans ctop rp w' free this, of st] obtain w2 ids where
    batch: "ProcessQueueBatch ?svc c lmt w' = (Ok (), w2)"
    and ids: "ids \<subseteq> queued_ids (pg_jobs c w')" "card ids = min (nat lmt) (card (queued_ids (pg_jobs c w')))"
    and j2: "pg_jobs c w2 = (\<lambda>k. if k \<in> ids then map_option done_view (pg_jobs c w' k) else pg_jobs c w' k)"
    by blast
  have "ids = queued_ids (pg_jobs c w')"
    by (rule card_subset_eq [OF finite_queued ids(1)]) (use ids(2) lmt jc in simp)
  then have "i \<in> ids" using i(2) by (simp add: queued_ids_def jc)
  then have settled: "pg_jobs c w2 i = Some (done_view (queued_job p))" 
    unfolding j2 using i(2) by (simp add: jc)
  then have dom: "i \<in> dom (pg_jobs c w2)" by blast
  have up: "uuid_param E i = Some i" using i(1) by (simp add: uuid_param_def)
  obtain rw n w3 where rw: "ju_id rw = i" "pg_jobs c w2 i = Some (job_of_row rw)"
    and get: "GetQuoteUpdate ?svc c i w2 = (Ok (job_of_result (job_result_of rw (job_history E n (pg_view c w2) i))), w3)"
    by (rule GetQuoteUpdate_answers [OF ans ctop up dom, of rp st])
  from rw(2) settled have "job_of_row rw = done_view (queued_job p)" by simp
  then have "ju_pair rw = p" "status_of_text (ju_status rw) = Done" "ju_error rw = None"
    by (simp_all add: job_of_row_def done_view_def)
  with rw(1) accepted(5) pair batch get show ?thesis
    by (intro exI [of _ i] exI [of _ p] exI [of _ w2] exI [of _ w3] exI conjI)
      (assumption | simp add: job_of_result_def job_result_of_def)+
qed (use sent in \<open>auto simp: error_reply_def split: if_splits\<close>)

subsection \<open>Witnesses\<close>

lemma post_eur: "post_check post_req = Inr (''EUR/USD'', ''k1'')" "ReqCtx post_req = ctx_background"
  using post_req_checked by (simp_all add: post_req_def page_req_def)

lemma demo_request: "\<exists>i w'. RequestQuoteUpdate demo_svc ctx_background ''EUR/USD'' (Some ''k1'') demo_world = (Ok i, w')"
proof -
  define w1 where "w1 = snd (outside (TryReserve NoopIdempotency ctx_background ''k1'') demo_world)"
  have t: "outside (TryReserve NoopIdempotency ctx_background ''k1'') demo_world = (Ok True, w1)"
    by (simp add: w1_def outside_def NoopIdempotency_def noop_TryReserve_def io_simps)
  have w1: "ticks w1 = 1" "committed w1 = demo_tables"
    by (simp_all add: w1_def outside_def demo_world_def)
  have suc: "(+) (Suc 0) = Suc" by (simp add: fun_eq_iff)
  have "uuid_text (\<lambda>k. 1 + k) \<notin> {uuid_text (\<lambda>k. 1), uuid_text (\<lambda>k. 2)}" by code_simp
  then have "\<exists>w2. pg_CreateQueued demo_env ctx_background ''EUR/USD'' (Some ''k1'') w1 = (Ok (uuid_text (\<lambda>k. 1 + k)), w2)"
    by (simp add: pg_CreateQueued_def pg_run_def run_pool_def Let_def w1 demo_env_def sql_insert_job_def
        uuid_param_def demo_tables_def demo_job_def io_simps suc)
  then show ?thesis
    by (auto simp: RequestQuoteUpdate_def io_simps outside_idem_def t)
qed

lemma demo_post:
  obtains w' wr' hs where "Server_RequestQuoteUpdate (\<lambda>_. ErrNotFound) (NewServer demo_svc) \<lparr>rp_XIdempotencyKey = ''k1''\<rparr>
     post_req (demo_world, new_writer) = (Ok (), (w', wr'))" and "w_sent wr' = Some (202, hs)"
proof -
  obtain x w' wr' where run: "Server_RequestQuoteUpdate (\<lambda>_. ErrNotFound) (NewServer demo_svc)
      \<lparr>rp_XIdempotencyKey = ''k1''\<rparr> post_req (demo_world, new_writer) = (x, (w', wr'))"
    by (metis prod_cases3)
  from fresh_new run show thesis
    by (cases rule: post_run) (use that run demo_request post_eur in auto)
qed

lemma accepted_is_queued_witness:
  "\<exists>w' wr' i p. Server_RequestQuoteUpdate (\<lambda>_. ErrNotFound) (NewServer demo_svc) \<lparr>rp_XIdempotencyKey = ''k1''\<rparr>
     post_req (demo_world, new_writer) = (Ok (), (w', wr')) \<and>
     answered_json 202 [(''update_id'', VStr i)] wr' \<and> jobs_at w' i = Some (queued_job p)"
proof -
  obtain w' wr' hs where run: "Server_RequestQuoteUpdate (\<lambda>_. ErrNotFound) (NewServer demo_svc)
      \<lparr>rp_XIdempotencyKey = ''k1''\<rparr> post_req (demo_world, new_writer) = (Ok (), (w', wr'))"
    and sent: "w_sent wr' = Some (202, hs)" by (rule demo_post)
  have "ctx_tx (ReqCtx post_req) = None" by (simp add: post_eur)
  from accepted_is_queued [OF fresh_new this run] sent
  obtain i p where "answered_json 202 [(''update_id'', VStr i)] wr'"
    "jobs_at w' = (jobs_at demo_world)(i \<mapsto> queued_job p)" by auto
  with run show ?thesis by (intro exI [of _ w'] exI [of _ wr'] exI [of _ i] exI [of _ p]) simp
qed

lemma accepted_is_completed_witness:
  "\<exists>w' w2 w3 i u n. ProcessQueueBatch demo_svc ctx_background n w' = (Ok (), w2) \<and>
     GetQuoteUpdate demo_svc ctx_background i w2 = (Ok u, w3) \<and> U_Status u = Done"
proof -
  obtain w' wr' hs where run: "Server_RequestQuoteUpdate (\<lambda>_. ErrNotFound) (NewServer demo_svc)
      \<lparr>rp_XIdempotencyKey = ''k1''\<rparr> post_req (demo_world, new_writer) = (Ok (), (w', wr'))"
    and sent: "w_sent wr' = Some (202, hs)" by (rule demo_post)
  have top: "ctx_tx (ReqCtx post_req) = None" by (simp add: post_eur)
  have free: "\<forall>n. env_locked demo_env n = []" by (simp add: demo_env_def)
  from accepted_is_completed [OF fresh_new top demo_world_ok run sent demo_answering demo_ctx demo_rate_answers
      free order_refl] show ?thesis by blast
qed

end
