(* ===== verification/Dispatch.thy ===== *)
theory Dispatch
  imports End_To_End Grpc "HOL-Library.Multiset"
begin

section \<open>The modes with a dispatcher\<close>

text \<open>
  The \<^verbatim>\<open>chan\<close> and the \<^verbatim>\<open>grpc\<close> mode: a request that created a job hands a message to the
  dispatcher of the API server, and a goroutine of the same process completes the job. Nothing
  claims jobs, so a job goes from queued to done or failed directly. First the abstract life of
  such jobs and the messages in flight, then both modes as transition systems over all goroutines.
\<close>

subsection \<open>The direct life of a job\<close>

inductive direct_life :: "job_map \<Rightarrow> job_map \<Rightarrow> bool" where
  create: "created m m' \<Longrightarrow> direct_life m m'"
| succeed: "m i = Some j \<Longrightarrow> jv_status j = Queued \<Longrightarrow> direct_life m (m(i \<mapsto> j\<lparr>jv_status := Done\<rparr>))"
| give_up: "m i = Some j \<Longrightarrow> jv_status j = Queued \<Longrightarrow>
    direct_life m (m(i \<mapsto> j\<lparr>jv_status := Failed, jv_error := Some t\<rparr>))"

inductive_cases direct_life_cases: "direct_life m m'"

lemma direct_life_ok: "direct_life m m' \<Longrightarrow> jobs_ok m \<Longrightarrow> jobs_ok m'"
proof (induction rule: direct_life.induct)
  case (create m m')
  then show ?case by (rule created_ok)
qed (frule (1) jobs_okD, rule jobs_ok_update, assumption, simp add: job_ok_def)+

lemma direct_run_ok: "direct_life\<^sup>*\<^sup>* m m' \<Longrightarrow> jobs_ok m \<Longrightarrow> jobs_ok m'"
  by (induction rule: rtranclp_induct) (auto intro: direct_life_ok)

lemma created_run_direct: "created\<^sup>*\<^sup>* m m' \<Longrightarrow> direct_life\<^sup>*\<^sup>* m m'"
  by (induction rule: rtranclp_induct) (auto intro: direct_life.create rtranclp.rtrancl_into_rtrancl)

text \<open>A job is never in progress, stays for ever once it is settled, and keeps its pair.\<close>

definition settled_later :: "job_view option \<Rightarrow> job_view option \<Rightarrow> bool" where
  "settled_later x y \<longleftrightarrow> (case x of
     None \<Rightarrow> (case y of None \<Rightarrow> True | Some j' \<Rightarrow> jv_status j' \<in> {Queued, Done, Failed})
   | Some j \<Rightarrow> (case y of None \<Rightarrow> False
       | Some j' \<Rightarrow> j' = j \<or> jv_status j = Queued \<and> jv_pair j' = jv_pair j \<and> jv_status j' \<in> {Done, Failed}))"

lemma settled_later_refl [simp]: "settled_later x x"
  by (simp add: settled_later_def split: option.split)

lemma settled_later_trans: "settled_later x y \<Longrightarrow> settled_later y z \<Longrightarrow> settled_later x z"
  by (auto simp: settled_later_def split: option.splits)

lemma direct_life_settles: "direct_life m m' \<Longrightarrow> settled_later (m i) (m' i)"
  by (auto elim!: direct_life_cases created_cases simp: settled_later_def split: option.splits if_splits)

lemma direct_run_settles: "direct_life\<^sup>*\<^sup>* m m' \<Longrightarrow> settled_later (m i) (m' i)"
  by (induction rule: rtranclp_induct) (auto intro: settled_later_trans direct_life_settles)

lemma settles_direct:
  assumes "m i = Some (queued_job p)" and "settles i m m'"
  shows "direct_life\<^sup>*\<^sup>* m m'"
proof -
  have "direct_life m (set_job i Done None m)"
    using direct_life.succeed [of m i "queued_job p"] assms(1) by (simp add: set_job_def)
  moreover have "direct_life m (set_job i Failed (Some t) m)" for t
    using direct_life.give_up [of m i "queued_job p" t] assms(1) by (simp add: set_job_def)
  ultimately show ?thesis using assms(2) by (auto simp: settles_def)
qed

lemma settles_other: "settles i m m' \<Longrightarrow> k \<noteq> i \<Longrightarrow> m' k = m k"
  by (auto simp: settles_def)

subsection \<open>Messages in flight\<close>

text \<open>Every message is the only one of its job, which is queued for the message's pair.\<close>

definition carries :: "pg_env \<Rightarrow> job_map \<Rightarrow> UpdateMsg multiset \<Rightarrow> bool" where
  "carries E m F \<longleftrightarrow>
     (\<forall>x \<in># F. uuid_key E (um_ID x) = um_ID x \<and> m (um_ID x) = Some (queued_job (um_Pair x))) \<and>
     (\<forall>i. count (image_mset um_ID F) i \<le> 1)"

lemma carries_empty [simp]: "carries E m {#}"
  by (simp add: carries_def)

lemma carriesD:
  assumes "carries E m F" and "x \<in># F"
  shows "uuid_key E (um_ID x) = um_ID x" and "m (um_ID x) = Some (queued_job (um_Pair x))"
  using assms by (simp_all add: carries_def)

lemma carries_apart:
  assumes "carries E m F" and "x \<in># F" and "y \<in># F - {#x#}"
  shows "um_ID y \<noteq> um_ID x"
proof
  assume same: "um_ID y = um_ID x"
  obtain G where G: "F = add_mset x G" using assms(2) by (rule mset_add)
  with assms(3) obtain H where H: "G = add_mset y H" by (auto elim: mset_add)
  have "2 \<le> count (image_mset um_ID F) (um_ID x)" by (simp add: G H same)
  with assms(1) show False unfolding carries_def by (metis Suc_1 not_less_eq_eq)
qed

lemma carries_less:
  assumes "carries E m F" and "G \<subseteq># F"
  shows "carries E m G"
proof -
  have "count (image_mset um_ID G) i \<le> 1" for i
    using assms mset_subset_eq_count [OF image_mset_subseteq_mono [OF assms(2)], of um_ID i]
    unfolding carries_def by (meson le_trans)
  then show ?thesis using assms by (auto simp: carries_def dest: mset_subset_eqD)
qed

lemma carries_frame:
  "carries E m F \<Longrightarrow> (\<And>x. x \<in># F \<Longrightarrow> m' (um_ID x) = m (um_ID x)) \<Longrightarrow> carries E m' F"
  by (simp add: carries_def)

lemma carries_new:
  assumes c: "carries E m F" and i: "m i = None" "uuid_key E i = i" and x: "um_ID x = i" "um_Pair x = p"
  shows "carries E (m(i \<mapsto> queued_job p)) (add_mset x F)"
proof -
  have new: "um_ID y \<noteq> i" if "y \<in># F" for y using carriesD(2) [OF c that] i(1) by auto
  then have "count (image_mset um_ID F) i = 0" by (auto simp: count_eq_zero_iff)
  then show ?thesis using c i(2) x new by (auto simp: carries_def)
qed

text \<open>A goroutine that handles a message settles its job or leaves it.\<close>

lemma carries_work:
  assumes c: "carries E m F" and x: "x \<in># F" and s: "settles (uuid_key E (um_ID x)) m m'"
  shows "carries E m' (F - {#x#}) \<and> direct_life\<^sup>*\<^sup>* m m'"
proof
  note s' = s [unfolded carriesD(1) [OF c x]]
  show "carries E m' (F - {#x#})"
    by (rule carries_frame [OF carries_less [OF c]])
      (simp_all add: settles_other [OF s' carries_apart [OF c x]])
  show "direct_life\<^sup>*\<^sup>* m m'" by (rule settles_direct [OF carriesD(2) [OF c x] s'])
qed

subsection \<open>Any dispatcher\<close>

text \<open>
  The state: the database and its surroundings, and the messages in flight, in no order. One step
  is a request (its message, if it has one, is in flight after), a message that is dropped (its
  queue was full, its request was canceled, its process ended), one that is worked on, or
  anything outside the database.
\<close>

record 'z dispatch_sys =
  dy_world :: "'z world"
  dy_flight :: "UpdateMsg multiset"

type_synonym 'z task = "ctx \<Rightarrow> UpdateMsg \<Rightarrow> ('z world, unit) io"

text \<open>The message of an accepted request.\<close>

definition message_of :: "http_req \<Rightarrow> string \<Rightarrow> string \<Rightarrow> UpdateMsg" where
  "message_of r i p = \<lparr>um_ID = i, um_Pair = p, um_TraceID = getTraceIDFromContext (ReqCtx r)\<rparr>"

lemma message_of_simps [simp]: "um_ID (message_of r i p) = i" "um_Pair (message_of r i p) = p"
  by (simp_all add: message_of_def)

inductive dispatch_step ::
  "pg_env \<Rightarrow> 'z world router_env \<Rightarrow> 'z RateProvider \<Rightarrow> 'z IdempotencyStore \<Rightarrow> 'z task \<Rightarrow>
   'z dispatch_sys \<Rightarrow> 'z dispatch_sys \<Rightarrow> bool"
  for E env rp st work where
  api: "ctx_tx (ReqCtx r) = None \<Longrightarrow>
    serve env (NewRouter env (NewServer (ProvideFXRatesService E rp st))) r (dy_world S, new_writer) =
      (x, (w, wr)) \<Longrightarrow>
    dispatch_step E env rp st work S (S\<lparr>dy_world := w\<rparr>)"
| accept: "ctx_tx (ReqCtx r) = None \<Longrightarrow> post_check r = Inr (p, k) \<Longrightarrow>
    RequestQuoteUpdate (ProvideFXRatesService E rp st) (ReqCtx r) p (Some k) (dy_world S) = (Ok i, w) \<Longrightarrow>
    dispatch_step E env rp st work S \<lparr>dy_world = w, dy_flight = add_mset (message_of r i p) (dy_flight S)\<rparr>"
| drop: "m \<in># dy_flight S \<Longrightarrow> dispatch_step E env rp st work S (S\<lparr>dy_flight := dy_flight S - {#m#}\<rparr>)"
| handle: "m \<in># dy_flight S \<Longrightarrow> ctx_tx c = None \<Longrightarrow> work c m (dy_world S) = (x, w) \<Longrightarrow>
    dispatch_step E env rp st work S \<lparr>dy_world = w, dy_flight = dy_flight S - {#m#}\<rparr>"
| elsewhere: "dispatch_step E env rp st work S (S\<lparr>dy_world := (dy_world S)\<lparr>ticks := t, rest := z\<rparr>\<rparr>)"

definition dispatch_inv :: "pg_env \<Rightarrow> 'z dispatch_sys \<Rightarrow> bool" where
  "dispatch_inv E S \<longleftrightarrow> world_ok ctx_background (dy_world S) \<and> carries E (jobs_at (dy_world S)) (dy_flight S)"

text \<open>The contract of a goroutine that handles messages.\<close>

locale update_task =
  fixes E :: pg_env and work :: "'z task"
  assumes effect: "ctx_tx c = None \<Longrightarrow> world_ok c w \<Longrightarrow>
    world_ok c (snd (work c m w)) \<and> settles (uuid_key E (um_ID m)) (pg_jobs c w) (pg_jobs c (snd (work c m w)))"
begin

lemma step_sim:
  assumes inv: "dispatch_inv E S" and out: "router_outside env" and step: "dispatch_step E env rp st work S S'"
  shows "dispatch_inv E S' \<and> direct_life\<^sup>*\<^sup>* (jobs_at (dy_world S)) (jobs_at (dy_world S'))"
  using step
proof cases
  case (api r x w wr)
  have "only_created (jobs_at (dy_world S)) (dy_world S)"
    using inv by (simp add: only_created_def dispatch_inv_def)
  from api_only [OF out api(2,3) this] have cr: "created\<^sup>*\<^sup>* (jobs_at (dy_world S)) (jobs_at w)"
    and wok: "world_ok ctx_background w" by (simp_all add: only_created_def)
  have "carries E (jobs_at w) (dy_flight S)"
  proof (rule carries_frame)
    show c: "carries E (jobs_at (dy_world S)) (dy_flight S)" using inv by (simp add: dispatch_inv_def)
    show "jobs_at w (um_ID x) = jobs_at (dy_world S) (um_ID x)" if "x \<in># dy_flight S" for x
      using created_run_keeps [OF cr] carriesD(2) [OF c that] by simp
  qed
  then show ?thesis using api(1) wok created_run_direct [OF cr] by (simp add: dispatch_inv_def)
next
  case (accept r p k i w)
  from inv have w: "world_ok ctx_background (dy_world S)"
    and c: "carries E (jobs_at (dy_world S)) (dy_flight S)" by (simp_all add: dispatch_inv_def)
  note pair = post_check_pair [OF accept(3)]
  from accept(4,2) have i: "is_canonical_uuid i" "jobs_at (dy_world S) i = None"
    and j: "jobs_at w = (jobs_at (dy_world S))(i \<mapsto> queued_job p)"
    by (cases rule: request_effect; simp)+
  have "world_ok ctx_background w"
    using io_keepsD [OF request_only [OF accept(2) pair, of "jobs_at (dy_world S)" E rp st "Some k"], of "dy_world S"]
      w accept(4) by (simp add: only_created_def)
  moreover have "carries E (jobs_at w) (add_mset (message_of r i p) (dy_flight S))"
    unfolding j by (rule carries_new [OF c i(2)]) (simp_all add: i(1))
  moreover have "direct_life (jobs_at (dy_world S)) (jobs_at w)"
    unfolding j by (intro direct_life.create created.intros i pair)
  ultimately show ?thesis using accept(1) by (auto simp: dispatch_inv_def)
next
  case (drop m)
  then show ?thesis using inv by (auto simp: dispatch_inv_def intro: carries_less)
next
  case (handle m c x w)
  from inv have wok: "world_ok c (dy_world S)" and cr: "carries E (jobs_at (dy_world S)) (dy_flight S)"
    by (simp_all add: dispatch_inv_def ok_top [of c])
  from effect [OF handle(3) wok, of m] handle(4)
  have "world_ok ctx_background w" and "settles (uuid_key E (um_ID m)) (jobs_at (dy_world S)) (jobs_at w)"
    by (simp_all add: jobs_top [OF handle(3)] ok_top [of c])
  with carries_work [OF cr handle(2)] handle(1) show ?thesis by (auto simp: dispatch_inv_def)
next
  case (elsewhere z t)
  have "same_db (dy_world S) ((dy_world S)\<lparr>ticks := t, rest := z\<rparr>)" by (simp add: same_db_def)
  from same_dbD [OF this] inv elsewhere show ?thesis by (simp add: dispatch_inv_def)
qed

lemma run_sim:
  assumes run: "(dispatch_step E env rp st work)\<^sup>*\<^sup>* S S'" and inv: "dispatch_inv E S" and out: "router_outside env"
  shows "dispatch_inv E S' \<and> direct_life\<^sup>*\<^sup>* (jobs_at (dy_world S)) (jobs_at (dy_world S'))"
  using run
proof (induction rule: rtranclp_induct)
  case base
  then show ?case using inv by simp
next
  case (step S1 S2)
  then show ?case using step_sim [OF _ out step.hyps(2)] by (meson rtranclp_trans)
qed

end

subsection \<open>The handlers of messages\<close>

definition chan_task :: "pg_env \<Rightarrow> 'z RateProvider \<Rightarrow> 'z IdempotencyStore \<Rightarrow> ('z world \<Rightarrow> int) \<Rightarrow> 'z task" where
  "chan_task E rp st now = processOne (NewChanWorker now (ProvideFXRatesService E rp st))"

text \<open>The gRPC connection is outside the database.\<close>

definition outside_client :: "'z RateClient \<Rightarrow> 'z world RateClient" where
  "outside_client cl = \<lparr>rc_invoke = (\<lambda>c r. outside (rc_invoke cl c r)), rc_now = (\<lambda>w. rc_now cl (rest w))\<rparr>"

definition remote_task ::
  "pg_env \<Rightarrow> 'z RateProvider \<Rightarrow> 'z IdempotencyStore \<Rightarrow> (string \<Rightarrow> go_error) \<Rightarrow> 'z RateClient \<Rightarrow> int \<Rightarrow> 'z task" where
  "remote_task E rp st time_err cl timeout c m =
     grpc_task time_err (ProvideFXRatesService E rp st) (outside_client cl) timeout m"

interpretation chan_update: update_task E "chan_task E rp st now"
  for E and rp :: "'z RateProvider" and st :: "'z IdempotencyStore" and now
proof
  fix c :: ctx and w :: "'z world" and m :: UpdateMsg
  assume "ctx_tx c = None" and "world_ok c w"
  from process_effect [OF this(2,1), of now E rp st m]
  show "world_ok c (snd (chan_task E rp st now c m w)) \<and>
      settles (uuid_key E (um_ID m)) (pg_jobs c w) (pg_jobs c (snd (chan_task E rp st now c m w)))"
    by (auto simp: chan_task_def)
qed

lemma remote_fetch_view: "pg_view c (snd (grpc_fetch te (outside_client cl) d p t c' w)) = pg_view c w"
proof -
  have "pg_view c (snd (client_Fetch (outside_client cl) c' p t d w)) = pg_view c w"
    by (simp add: client_Fetch_def outside_client_def Let_def)
  then show ?thesis
    by (auto simp: grpc_fetch_def io_simps split: prod.splits outcome.splits option.splits)
qed

lemma remote_fetch_keeps: "io_keeps (world_ok c) (grpc_fetch te (outside_client cl) d p t c')"
proof -
  have "io_keeps (world_ok c) (client_Fetch (outside_client cl) c' p t d)"
    by (simp add: io_keeps_def client_Fetch_def outside_client_def Let_def)
  then show ?thesis unfolding grpc_fetch_def by (auto intro!: keeps_intros split: sum.split option.split)
qed

interpretation remote_update: update_task E "remote_task E rp st te cl d"
  for E and rp :: "'z RateProvider" and st :: "'z IdempotencyStore" and te cl d
proof
  fix c :: ctx and w :: "'z world" and m :: UpdateMsg
  assume top: "ctx_tx c = None" and w: "world_ok c w"
  let ?svc = "ProvideFXRatesService E rp st"
  let ?fetch = "grpc_fetch te (outside_client cl) d (um_Pair m) (um_TraceID m)"
  obtain x w' where run: "CompleteQuoteUpdate ?svc ctx_background (um_ID m) ?fetch ''grpc'' w = (x, w')" by fastforce
  have "world_ok ctx_background w' \<and> settles (uuid_key E (um_ID m)) (jobs_at w) (jobs_at w')"
    by (rule pg_fx.complete_moves [where fetch = ?fetch, OF remote_fetch_keeps _ _ _ run])
      (use w in \<open>simp_all add: pg_jobs_def remote_fetch_view ok_top [of c] ctx_background_def\<close>)
  moreover have "snd (remote_task E rp st te cl d c m w) = w'"
    using run by (simp add: remote_task_def grpc_task_def io_simps split: outcome.split)
  ultimately show "world_ok c (snd (remote_task E rp st te cl d c m w)) \<and>
      settles (uuid_key E (um_ID m)) (pg_jobs c w) (pg_jobs c (snd (remote_task E rp st te cl d c m w)))"
    by (simp add: jobs_top [OF top] ok_top [of c])
qed

subsection \<open>The channel mode\<close>

text \<open>
  The process of the channel mode in detail: requests that are in their call of \<open>Enqueue\<close>, the
  channel, and the messages its workers have taken out. A call of \<open>Enqueue\<close> ends when its message
  fits into the channel or when it gives up; the process may also end with all it holds and be
  started again.
\<close>

record 'z chan_sys =
  cs_world :: "'z world"
  cs_sending :: "UpdateMsg list"
  cs_chan :: "UpdateMsg chan"
  cs_busy :: "UpdateMsg list"

inductive chan_step ::
  "pg_env \<Rightarrow> 'z world router_env \<Rightarrow> 'z RateProvider \<Rightarrow> 'z IdempotencyStore \<Rightarrow> ('z world \<Rightarrow> int) \<Rightarrow>
   'z chan_sys \<Rightarrow> 'z chan_sys \<Rightarrow> bool"
  for E env rp st now where
  api: "ctx_tx (ReqCtx r) = None \<Longrightarrow>
    serve env (NewRouter env (NewServer (ProvideFXRatesService E rp st))) r (cs_world S, new_writer) =
      (x, (w, wr)) \<Longrightarrow>
    chan_step E env rp st now S (S\<lparr>cs_world := w\<rparr>)"
| accept: "ctx_tx (ReqCtx r) = None \<Longrightarrow> post_check r = Inr (p, k) \<Longrightarrow>
    RequestQuoteUpdate (ProvideFXRatesService E rp st) (ReqCtx r) p (Some k) (cs_world S) = (Ok i, w) \<Longrightarrow>
    chan_step E env rp st now S (S\<lparr>cs_world := w, cs_sending := cs_sending S @ [message_of r i p]\<rparr>)"
| enqueue: "cs_sending S = xs @ m # ys \<Longrightarrow> try_send m (cs_chan S) = Sent ch \<Longrightarrow>
    chan_step E env rp st now S (S\<lparr>cs_sending := xs @ ys, cs_chan := ch\<rparr>)"
| give_up: "cs_sending S = xs @ m # ys \<Longrightarrow> chan_step E env rp st now S (S\<lparr>cs_sending := xs @ ys\<rparr>)"
| park: "try_recv (cs_chan S) = Waiting \<Longrightarrow>
    chan_step E env rp st now S (S\<lparr>cs_chan := (cs_chan S)\<lparr>ch_idle := n\<rparr>\<rparr>)"
| receive: "try_recv (cs_chan S) = Received m ch \<Longrightarrow>
    chan_step E env rp st now S (S\<lparr>cs_chan := ch, cs_busy := cs_busy S @ [m]\<rparr>)"
| shut: "close_chan (cs_chan S) = Ok ch \<Longrightarrow> chan_step E env rp st now S (S\<lparr>cs_chan := ch\<rparr>)"
| handle: "cs_busy S = xs @ m # ys \<Longrightarrow> ctx_tx c = None \<Longrightarrow>
    processOne (NewChanWorker now (ProvideFXRatesService E rp st)) c m (cs_world S) = (x, w) \<Longrightarrow>
    chan_step E env rp st now S (S\<lparr>cs_world := w, cs_busy := xs @ ys\<rparr>)"
| restart: "ProvideChanBus cfg = Ok bus \<Longrightarrow>
    chan_step E env rp st now S (S\<lparr>cs_sending := [], cs_chan := Bus_Ch bus, cs_busy := []\<rparr>)"
| elsewhere: "chan_step E env rp st now S (S\<lparr>cs_world := (cs_world S)\<lparr>ticks := t, rest := z\<rparr>\<rparr>)"

text \<open>The messages in flight, wherever they are.\<close>

definition in_flight :: "'z chan_sys \<Rightarrow> UpdateMsg list" where
  "in_flight S = cs_sending S @ ch_queue (cs_chan S) @ cs_busy S"

definition flat :: "'z chan_sys \<Rightarrow> 'z dispatch_sys" where
  "flat S = \<lparr>dy_world = cs_world S, dy_flight = mset (in_flight S)\<rparr>"

lemma flat_same [simp]: "dy_world (flat S) = cs_world S" "dy_flight (flat S) = mset (in_flight S)"
  by (simp_all add: flat_def)

lemma drop_all:
  "(dispatch_step E env rp st work)\<^sup>*\<^sup>* \<lparr>dy_world = w, dy_flight = F\<rparr> \<lparr>dy_world = w, dy_flight = {#}\<rparr>"
proof (induction F)
  case (add x F)
  have "dispatch_step E env rp st work \<lparr>dy_world = w, dy_flight = add_mset x F\<rparr> \<lparr>dy_world = w, dy_flight = F\<rparr>"
    using dispatch_step.drop [of x "\<lparr>dy_world = w, dy_flight = add_mset x F\<rparr>" E env rp st work] by simp
  then show ?case using add.IH by (rule converse_rtranclp_into_rtranclp)
qed simp

lemma flat_drop:
  assumes "mset (in_flight S) = add_mset m F"
  shows "(dispatch_step E env rp st work)\<^sup>*\<^sup>* (flat S) \<lparr>dy_world = cs_world S, dy_flight = F\<rparr>"
  using dispatch_step.drop [of m "flat S" E env rp st work] assms by (simp add: flat_def r_into_rtranclp)

lemma chan_step_flat:
  assumes "chan_step E env rp st now S S'"
  shows "(dispatch_step E env rp st (chan_task E rp st now))\<^sup>*\<^sup>* (flat S) (flat S')"
  using assms
proof cases
  case (api r x w wr)
  have "dispatch_step E env rp st (chan_task E rp st now) (flat S) (flat S\<lparr>dy_world := w\<rparr>)"
    by (rule dispatch_step.api) (use api in simp_all)
  then show ?thesis using api(1) by (simp add: flat_def in_flight_def r_into_rtranclp)
next
  case (accept r p k i w)
  have "dispatch_step E env rp st (chan_task E rp st now) (flat S)
      \<lparr>dy_world = w, dy_flight = add_mset (message_of r i p) (dy_flight (flat S))\<rparr>"
    by (rule dispatch_step.accept) (use accept in simp_all)
  then show ?thesis using accept(1) by (simp add: flat_def in_flight_def r_into_rtranclp)
next
  case (enqueue xs m ys ch)
  then have "mset (in_flight S') = mset (in_flight S)" and "cs_world S' = cs_world S"
    by (auto simp: in_flight_def try_send_def split: if_splits)
  then show ?thesis by (simp add: flat_def)
next
  case (give_up xs m ys)
  then show ?thesis using flat_drop [of S m "mset (in_flight S')"] by (simp add: in_flight_def flat_def)
next
  case (park n)
  then show ?thesis by (simp add: flat_def in_flight_def)
next
  case (receive m ch)
  then have "mset (in_flight S') = mset (in_flight S)" and "cs_world S' = cs_world S"
    by (auto simp: in_flight_def try_recv_def split: list.splits if_splits)
  then show ?thesis by (simp add: flat_def)
next
  case (shut ch)
  then show ?thesis by (auto simp: flat_def in_flight_def close_chan_def split: if_splits)
next
  case (handle xs m ys c x w)
  have "dispatch_step E env rp st (chan_task E rp st now) (flat S)
      \<lparr>dy_world = w, dy_flight = dy_flight (flat S) - {#m#}\<rparr>"
    by (rule dispatch_step.handle) (use handle in \<open>simp_all add: in_flight_def chan_task_def\<close>)
  then show ?thesis using handle(1,2) by (simp add: flat_def in_flight_def r_into_rtranclp)
next
  case (restart cfg bus)
  have "ch_queue (Bus_Ch bus) = []"
    using restart(2) by (auto simp: ProvideChanBus_def make_chan_def split: if_splits)
  then show ?thesis using restart(1) drop_all [of E env rp st "chan_task E rp st now" "cs_world S" "mset (in_flight S)"]
    by (simp add: flat_def in_flight_def)
next
  case (elsewhere z t)
  have "dispatch_step E env rp st (chan_task E rp st now) (flat S)
      (flat S\<lparr>dy_world := (dy_world (flat S))\<lparr>ticks := t, rest := z\<rparr>\<rparr>)" by (rule dispatch_step.elsewhere)
  then show ?thesis using elsewhere by (simp add: flat_def in_flight_def r_into_rtranclp)
qed

lemma chan_run_flat:
  "(chan_step E env rp st now)\<^sup>*\<^sup>* S S' \<Longrightarrow>
   (dispatch_step E env rp st (chan_task E rp st now))\<^sup>*\<^sup>* (flat S) (flat S')"
  by (induction rule: rtranclp_induct) (auto dest: chan_step_flat)

subsection \<open>Properties\<close>

lemma carries_distinct:
  assumes "carries E m (mset xs)"
  shows "distinct (map um_ID xs)"
proof -
  have "count (mset (map um_ID xs)) i \<le> 1" for i using assms by (simp add: carries_def)
  then show ?thesis unfolding distinct_count_atmost_1
    by (metis One_nat_def count_eq_zero_iff le_SucE le_zero_eq set_mset_mset)
qed

definition chan_start :: "'z chan_sys \<Rightarrow> bool" where
  "chan_start S \<longleftrightarrow> world_ok ctx_background (cs_world S) \<and> in_flight S = []"

lemma chan_start_inv: "chan_start S \<Longrightarrow> dispatch_inv E (flat S)"
  by (simp add: chan_start_def dispatch_inv_def)

text \<open>
  C7: The channel mode, in every interleaving of requests, of calls of the channel, of workers, of
  restarts and of failures of the database: the process refines the mode with an unordered set of
  messages; between any two points of a run the jobs move by their direct life only, so that a
  job is never in progress, and is final once it is done or failed; and no two messages on the
  way are for the same job, each is for a job that is still queued.
\<close>

theorem chan_mode_refines:
  assumes "chan_start S" and "router_outside env"
    and "(chan_step E env rp st now)\<^sup>*\<^sup>* S S1" and "(chan_step E env rp st now)\<^sup>*\<^sup>* S1 S2"
  shows "(dispatch_step E env rp st (chan_task E rp st now))\<^sup>*\<^sup>* (flat S1) (flat S2) \<and>
    direct_life\<^sup>*\<^sup>* (jobs_at (cs_world S1)) (jobs_at (cs_world S2)) \<and>
    (\<forall>i. settled_later (jobs_at (cs_world S1) i) (jobs_at (cs_world S2) i)) \<and>
    distinct (map um_ID (cs_sending S1 @ ch_queue (cs_chan S1) @ cs_busy S1)) \<and>
    (\<forall>x \<in> set (in_flight S1). jobs_at (cs_world S1) (um_ID x) = Some (queued_job (um_Pair x)))"
proof -
  have run: "(dispatch_step E env rp st (chan_task E rp st now))\<^sup>*\<^sup>* (flat S1) (flat S2)"
    by (rule chan_run_flat [OF assms(4)])
  have inv: "dispatch_inv E (flat S1)"
    using chan_update.run_sim [OF chan_run_flat [OF assms(3)] chan_start_inv [OF assms(1)] assms(2)] by simp
  then have c: "carries E (jobs_at (cs_world S1)) (mset (in_flight S1))" by (simp add: dispatch_inv_def)
  have life: "direct_life\<^sup>*\<^sup>* (jobs_at (cs_world S1)) (jobs_at (cs_world S2))"
    using chan_update.run_sim [OF run inv assms(2)] by simp
  show ?thesis
    using run life direct_run_settles [OF life] carries_distinct [OF c] carriesD(2) [OF c]
    by (simp add: in_flight_def)
qed

text \<open>
  C8: The gRPC mode: whatever requests, goroutines and connections do, the jobs move by their direct
  life only, and the goroutines under way are for different jobs, all of them queued.
\<close>

theorem grpc_mode_refines:
  assumes "world_ok ctx_background (dy_world S)" and "dy_flight S = {#}" and "router_outside env"
    and "(dispatch_step E env rp st (remote_task E rp st te cl d))\<^sup>*\<^sup>* S S1"
    and "(dispatch_step E env rp st (remote_task E rp st te cl d))\<^sup>*\<^sup>* S1 S2"
  shows "direct_life\<^sup>*\<^sup>* (jobs_at (dy_world S1)) (jobs_at (dy_world S2)) \<and>
    carries E (jobs_at (dy_world S1)) (dy_flight S1)"
proof -
  have "dispatch_inv E S" using assms(1,2) by (simp add: dispatch_inv_def)
  from remote_update.run_sim [OF assms(4) this assms(3)] have inv: "dispatch_inv E S1" by simp
  from remote_update.run_sim [OF assms(5) inv assms(3)] inv show ?thesis by (simp add: dispatch_inv_def)
qed

lemma dispatch_state:
  assumes "srv_dispatch srv = Some f"
  shows "fst (snd (request_dispatch srv r lg i p (s, w))) = snd (f (ReqCtx r) i p (getTraceIDFromContext (ReqCtx r)) s)"
  using assms by (auto simp: request_dispatch_def io_simps log_at_def writeError_def split: prod.splits outcome.splits)

text \<open>
  C9: The handler of update requests calls its dispatcher exactly when a job was created, once,
  after it was, with the job's id, the pair asked for and the trace id of the request's context;
  otherwise what the service did is all that happens.
\<close>

theorem dispatched_once:
  "fst (snd (Server_RequestQuoteUpdate je (SetDispatcher f (NewServer svc)) params r (s, wr))) =
    (case post_check r of
       Inl _ \<Rightarrow> s
     | Inr (p, k) \<Rightarrow> (case RequestQuoteUpdate svc (ReqCtx r) p (Some k) s of
         (Ok i, s1) \<Rightarrow> snd (f (ReqCtx r) i p (getTraceIDFromContext (ReqCtx r)) s1)
       | (_, s1) \<Rightarrow> s1))"
proof -
  have srv: "srv_svc (SetDispatcher f (NewServer svc)) = svc" "srv_dispatch (SetDispatcher f (NewServer svc)) = Some f"
    by (simp_all add: SetDispatcher_def NewServer_def)
  obtain l where "Server_RequestQuoteUpdate je (SetDispatcher f (NewServer svc)) params r (s, wr) = (case post_check r of
     Inl msg \<Rightarrow> (Ok (), (s, sent_json 400 (apiError 400 msg) (wr\<lparr>w_log := w_log wr @ l\<rparr>)))
   | Inr (p, k) \<Rightarrow> (case RequestQuoteUpdate svc (ReqCtx r) p (Some k) s of
       (Ok i, s') \<Rightarrow> request_dispatch (SetDispatcher f (NewServer svc)) r
         (loggerForRequest r @ [(''pair'', LStr p), (''idempotency_key'', LStr k)]) i p
         (s', sent_json 202 [(''update_id'', VStr i)] (wr\<lparr>w_log := w_log wr @ l\<rparr>))
     | (Err e, s') \<Rightarrow> (Ok (), (s', sent_json (fst (error_reply e))
         (apiError (fst (error_reply e)) (snd (error_reply e))) (wr\<lparr>w_log := w_log wr @ l\<rparr>)))
     | (Panic x, s') \<Rightarrow> (Panic x, (s', wr\<lparr>w_log := w_log wr @ l\<rparr>))))"
    using post_handler_run [of je "SetDispatcher f (NewServer svc)" params r s wr] unfolding srv by blast
  then show ?thesis
    by (auto simp: dispatch_state [OF srv(2)] split: sum.split prod.split outcome.split)
qed

text \<open>
  C10: A message that a worker takes is completed: when the database answers within the five seconds
  of the message and the provider returns a rate, the worker leaves the message's job done and
  every other job as it was.
\<close>

theorem message_completes:
  assumes "answering E (ctx_with_timeout c (now w) (5 * 10 ^ 9))" and "ctx_tx c = None" and "rate_answers E rp"
    and "world_ok c w" and "is_canonical_uuid (um_ID m)" and "pg_jobs c w (um_ID m) = Some (queued_job p)"
  shows "\<exists>w'. processOne (NewChanWorker now (ProvideFXRatesService E rp st)) c m w = (Ok (), w') \<and>
    pg_jobs c w' = (pg_jobs c w)(um_ID m \<mapsto> \<lparr>jv_pair = p, jv_status = Done, jv_error = None\<rparr>)"
proof -
  let ?c = "ctx_with_timeout c (now w) (5 * 10 ^ 9)" and ?svc = "ProvideFXRatesService E rp st"
  have d: "um_ID m \<in> dom (pg_jobs ?c w)" using assms(6) by auto
  obtain w' where "CompleteQuoteUpdate ?svc ?c (um_ID m) (\<lambda>c'. FetchQuote ?svc c' (um_Pair m)) ''chan'' w = (Ok (), w')"
    and "pg_jobs ?c w' = set_job (um_ID m) Done None (pg_jobs ?c w)"
    by (rule completion_answers [OF assms(1) _ assms(3) _ assms(5) d, of st "um_Pair m" "''chan''"])
      (use assms(2,4) in simp_all)
  then show ?thesis using assms(6)
    by (intro exI [of _ w']) (simp add: processOne_def NewChanWorker_def Let_def set_job_def)
qed

subsection \<open>Witnesses\<close>

text \<open>A process that has just started, and a request it accepts.\<close>

definition cafe :: "unit chan_sys" where
  "cafe = \<lparr>cs_world = demo_world, cs_sending = [],
     cs_chan = \<lparr>ch_queue = [], ch_cap = 100, ch_idle = 0, ch_closed = False\<rparr>, cs_busy = []\<rparr>"

lemma cafe_start: "chan_start cafe"
  by (simp add: chan_start_def cafe_def in_flight_def)

lemma cafe_step:
  obtains i w where "(chan_step demo_env quiet_router demo_rate NoopIdempotency (\<lambda>_. 0))\<^sup>*\<^sup>* cafe
    (cafe\<lparr>cs_world := w, cs_sending := [message_of post_req i ''EUR/USD'']\<rparr>)"
    and "RequestQuoteUpdate demo_svc ctx_background ''EUR/USD'' (Some ''k1'') demo_world = (Ok i, w)"
proof -
  obtain i w where run: "RequestQuoteUpdate demo_svc ctx_background ''EUR/USD'' (Some ''k1'') demo_world = (Ok i, w)"
    using demo_request by blast
  have "chan_step demo_env quiet_router demo_rate NoopIdempotency (\<lambda>_. 0) cafe
      (cafe\<lparr>cs_world := w, cs_sending := cs_sending cafe @ [message_of post_req i ''EUR/USD'']\<rparr>)"
    by (rule chan_step.accept [OF _ post_eur(1)]) (use run post_eur in \<open>simp_all add: cafe_def\<close>)
  then show thesis using run by (intro that) (simp_all add: cafe_def r_into_rtranclp)
qed

lemma chan_mode_refines_witness:
  "\<exists>S1 i. (chan_step demo_env quiet_router demo_rate NoopIdempotency (\<lambda>_. 0))\<^sup>*\<^sup>* cafe S1 \<and>
     direct_life\<^sup>*\<^sup>* (jobs_at demo_world) (jobs_at (cs_world S1)) \<and> map um_ID (in_flight S1) = [i] \<and>
     jobs_at (cs_world S1) i = Some (queued_job ''EUR/USD'')"
proof -
  obtain i w where run: "(chan_step demo_env quiet_router demo_rate NoopIdempotency (\<lambda>_. 0))\<^sup>*\<^sup>* cafe
      (cafe\<lparr>cs_world := w, cs_sending := [message_of post_req i ''EUR/USD'']\<rparr>)" by (rule cafe_step)
  let ?S = "cafe\<lparr>cs_world := w, cs_sending := [message_of post_req i ''EUR/USD'']\<rparr>"
  have f: "in_flight ?S = [message_of post_req i ''EUR/USD'']" by (simp add: in_flight_def cafe_def)
  have "direct_life\<^sup>*\<^sup>* (jobs_at (cs_world cafe)) (jobs_at (cs_world ?S))"
    using chan_mode_refines [OF cafe_start quiet_outside rtranclp.rtrancl_refl run] by blast
  moreover have "jobs_at (cs_world ?S) i = Some (queued_job ''EUR/USD'')"
    using chan_mode_refines [OF cafe_start quiet_outside run rtranclp.rtrancl_refl] f by simp
  ultimately show ?thesis using run f
    by (intro exI [of _ ?S] exI [of _ i]) (simp add: cafe_def)
qed

lemma grpc_mode_refines_witness:
  "\<exists>S1 i. (dispatch_step demo_env quiet_router demo_rate NoopIdempotency
       (remote_task demo_env demo_rate NoopIdempotency Foreign demo_client 3000000000))\<^sup>*\<^sup>*
       \<lparr>dy_world = demo_world, dy_flight = {#}\<rparr> S1 \<and>
     direct_life\<^sup>*\<^sup>* (jobs_at demo_world) (jobs_at (dy_world S1)) \<and>
     jobs_at (dy_world S1) i = Some (queued_job ''EUR/USD'')"
proof -
  let ?step = "dispatch_step demo_env quiet_router demo_rate NoopIdempotency
       (remote_task demo_env demo_rate NoopIdempotency Foreign demo_client 3000000000)"
  let ?S = "\<lparr>dy_world = demo_world, dy_flight = {#}\<rparr>"
  obtain i w where run: "RequestQuoteUpdate demo_svc ctx_background ''EUR/USD'' (Some ''k1'') demo_world = (Ok i, w)"
    using demo_request by blast
  let ?S1 = "\<lparr>dy_world = w, dy_flight = add_mset (message_of post_req i ''EUR/USD'') (dy_flight ?S)\<rparr>"
  have "?step ?S ?S1"
    by (rule dispatch_step.accept [OF _ post_eur(1)]) (use run post_eur in simp_all)
  then have steps: "?step\<^sup>*\<^sup>* ?S ?S1" ..
  from grpc_mode_refines [OF _ _ quiet_outside rtranclp.rtrancl_refl steps]
  have "direct_life\<^sup>*\<^sup>* (jobs_at demo_world) (jobs_at (dy_world ?S1))" by simp
  moreover from grpc_mode_refines [OF _ _ quiet_outside steps rtranclp.rtrancl_refl]
  have "carries demo_env (jobs_at (dy_world ?S1)) (dy_flight ?S1)" by simp
  then have "jobs_at (dy_world ?S1) i = Some (queued_job ''EUR/USD'')" by (simp add: carries_def)
  ultimately show ?thesis using steps by blast
qed

definition calm_env :: pg_env where
  "calm_env = demo_env\<lparr>env_now := (\<lambda>_. 7)\<rparr>"

lemma message_completes_witness:
  "\<exists>w'. processOne (NewChanWorker (\<lambda>_. 0) (demo_fx calm_env demo_rate)) ctx_background
       \<lparr>um_ID = demo_id, um_Pair = ''USD/EUR'', um_TraceID = []\<rparr> demo_world = (Ok (), w') \<and>
     jobs_at w' demo_id = Some \<lparr>jv_pair = ''USD/EUR'', jv_status = Done, jv_error = None\<rparr>"
proof -
  let ?m = "\<lparr>um_ID = demo_id, um_Pair = ''USD/EUR'', um_TraceID = []\<rparr>"
  have ans: "answering calm_env (ctx_with_timeout ctx_background ((\<lambda>_. 0) demo_world) (5 * 10 ^ 9))"
    by (simp add: answering_def calm_env_def demo_env_def ctx_err_def ctx_with_timeout_def ctx_background_def)
  have "numeric_param calm_env (Fin (5/4)) = Inr (Num 1250000)" by code_simp
  then have rp: "rate_answers calm_env demo_rate" by (auto simp: rate_answers_def demo_rate_def io_simps)
  have id: "is_canonical_uuid (um_ID ?m)" by (simp add: demo_id_def)
  have job: "pg_jobs ctx_background demo_world (um_ID ?m) = Some (queued_job ''USD/EUR'')" by (simp add: demo_present)
  from message_completes [where now = "\<lambda>_. 0", OF ans demo_ctx rp demo_world_ok id job] show ?thesis by fastforce
qed

end
