(* ===== verification/Boot_Facts.thy ===== *)
theory Boot_Facts
  imports Bootstrap
begin

section \<open>What starting and stopping guarantee\<close>

text \<open>
  A trace is replayed against a stack of held resources: every opening pushes one, every closing
  must pop the one it closes. A rule per combinator then gives, for each provider and injector,
  what it holds when it succeeds and that it holds nothing when it fails.
\<close>

named_theorems boot_intros \<open>rules for what a start-up step holds\<close>

subsection \<open>Held resources\<close>

datatype resource = PgPool | SqlHandle | Migration | RedisConn | GrpcConn | ChanWorkers

fun acquires :: "boot_act \<Rightarrow> resource option" where
  "acquires (PgOpen mx mn) = Some PgPool"
| "acquires SqlOpen = Some SqlHandle"
| "acquires MigInit = Some Migration"
| "acquires (RedisOpen addr pw db) = Some RedisConn"
| "acquires (GrpcDial target) = Some GrpcConn"
| "acquires (StartWorkers n) = Some ChanWorkers"
| "acquires _ = None"

fun releases :: "boot_act \<Rightarrow> resource option" where
  "releases PgClose = Some PgPool"
| "releases SqlClose = Some SqlHandle"
| "releases MigClose = Some Migration"
| "releases RedisClose = Some RedisConn"
| "releases GrpcClose = Some GrpcConn"
| "releases CancelWorkers = Some ChanWorkers"
| "releases _ = None"

definition act_step :: "boot_act \<Rightarrow> resource list \<Rightarrow> resource list option" where
  "act_step a st = (case acquires a of Some r \<Rightarrow> Some (r # st) | None \<Rightarrow>
     (case releases a of None \<Rightarrow> Some st | Some r \<Rightarrow>
       (case st of [] \<Rightarrow> None | r' # st' \<Rightarrow> if r' = r then Some st' else None)))"

fun held :: "resource list \<Rightarrow> boot_trace \<Rightarrow> resource list option" where
  "held st [] = Some st"
| "held st (FailedTo a # t) = held st t"
| "held st (Did a # t) = (case act_step a st of None \<Rightarrow> None | Some st' \<Rightarrow> held st' t)"

lemma held_append: "held st (t @ u) = (case held st t of None \<Rightarrow> None | Some st' \<Rightarrow> held st' u)"
  by (induction st t rule: held.induct) (auto split: option.split)

text \<open>A cleanup closes exactly the resources of a stack, in its order.\<close>

definition closes :: "boot_act list \<Rightarrow> resource list \<Rightarrow> bool" where
  "closes acts r \<longleftrightarrow> (\<forall>st. held (r @ st) (map Did acts) = Some st)"

lemma closes_nil [boot_intros]: "closes [] []"
  by (simp add: closes_def)

lemma closes_append: "closes a r \<Longrightarrow> closes b q \<Longrightarrow> closes (a @ b) (r @ q)"
  by (simp add: closes_def held_append)

lemma closes_neutral: "acquires a = None \<Longrightarrow> releases a = None \<Longrightarrow> closes acts r \<Longrightarrow> closes (a # acts) r"
  by (simp add: closes_def act_step_def)

lemma closes_one: "acquires a = None \<Longrightarrow> releases a = Some r \<Longrightarrow> closes acts q \<Longrightarrow> closes (a # acts) (r # q)"
  by (simp add: closes_def act_step_def)

subsection \<open>The rules\<close>

text \<open>
  Started while the resources \<open>r\<close> are held above any others, \<open>m\<close> ends with \<open>q\<close> held in their
  place, \<open>Q a q\<close> for its result \<open>a\<close>, or with an error and none of them.
\<close>

definition holds :: "resource list \<Rightarrow> 'a boot \<Rightarrow> ('a \<Rightarrow> resource list \<Rightarrow> bool) \<Rightarrow> bool" where
  "holds r m Q \<longleftrightarrow> (\<forall>t st. held [] t = Some (r @ st) \<longrightarrow> (case m t of
     (Ok a, t') \<Rightarrow> (\<exists>q. Q a q \<and> held [] t' = Some (q @ st))
   | (Err e, t') \<Rightarrow> held [] t' = Some st
   | (Panic p, t') \<Rightarrow> True))"

abbreviation opens :: "resource list \<Rightarrow> 'a \<Rightarrow> resource list \<Rightarrow> bool" where
  "opens r \<equiv> \<lambda>_ q. q = r"

lemma holds_weaken: "holds r m Q \<Longrightarrow> (\<And>a q. Q a q \<Longrightarrow> Q' a q) \<Longrightarrow> holds r m Q'"
  unfolding holds_def by (fastforce split: prod.split outcome.split_asm outcome.split)

lemma holds_return: "Q a r \<Longrightarrow> holds r (io_return a) Q"
  by (auto simp: holds_def io_simps)

lemma holds_fail [boot_intros]: "holds [] (io_fail e) Q"
  by (auto simp: holds_def io_simps)

lemma holdsD:
  assumes "holds r m Q" and "held [] t = Some (r @ st)" and "m t = (x, t')"
  shows "case x of Ok a \<Rightarrow> (\<exists>q. Q a q \<and> held [] t' = Some (q @ st))
    | Err e \<Rightarrow> held [] t' = Some st | Panic p \<Rightarrow> True"
  using assms unfolding holds_def by (cases x) fastforce+

lemma holdsI:
  assumes "\<And>t st x t'. held [] t = Some (r @ st) \<Longrightarrow> m t = (x, t') \<Longrightarrow>
    (case x of Ok a \<Rightarrow> (\<exists>q. Q a q \<and> held [] t' = Some (q @ st))
     | Err e \<Rightarrow> held [] t' = Some st | Panic p \<Rightarrow> True)"
  shows "holds r m Q"
  using assms unfolding holds_def by (fastforce split: prod.split outcome.split)

lemma holds_bind:
  assumes m: "holds r m Q" and k: "\<And>a q. Q a q \<Longrightarrow> holds q (k a) Q'"
  shows "holds r (io_bind m k) Q'"
proof (rule holdsI)
  fix t st x t' assume t: "held [] t = Some (r @ st)" and run: "io_bind m k t = (x, t')"
  obtain y u where mt: "m t = (y, u)" by (cases "m t")
  note post = holdsD [OF m t mt]
  show "case x of Ok a \<Rightarrow> (\<exists>q. Q' a q \<and> held [] t' = Some (q @ st))
    | Err e \<Rightarrow> held [] t' = Some st | Panic p \<Rightarrow> True"
  proof (cases y)
    case (Ok a)
    with post obtain q where q: "Q a q" "held [] u = Some (q @ st)" by auto
    moreover from run mt Ok have "k a u = (x, t')" by (simp add: io_simps)
    ultimately show ?thesis using holdsD k by blast
  qed (use post run mt in \<open>auto simp: io_simps\<close>)
qed

lemma holds_then: "holds r m (opens q) \<Longrightarrow> holds q n Q \<Longrightarrow> holds r (io_then m n) Q"
  unfolding io_then_def by (rule holds_bind, assumption) simp

text \<open>What is not touched stays below.\<close>

lemma holds_frame: "holds [] m Q \<Longrightarrow> (\<And>q. q = p \<Longrightarrow> closes acts q) \<Longrightarrow>
   holds p (or_cleanup acts m) (\<lambda>a q. \<exists>q'. Q a q' \<and> q = q' @ p)"
  unfolding holds_def or_cleanup_def closes_def
  by (fastforce simp: held_append split: prod.split outcome.split_asm outcome.split)

lemma holds_defer: "holds [] m (opens []) \<Longrightarrow> closes acts p \<Longrightarrow> holds p (with_defer acts m) (opens [])"
  unfolding holds_def with_defer_def closes_def
  by (fastforce simp: held_append split: prod.split outcome.split_asm outcome.split)

lemma holds_wrap [boot_intros]: "holds r m Q \<Longrightarrow> holds r (wrap_err prefix m) Q"
  unfolding holds_def wrap_err_def by (fastforce split: prod.split outcome.split_asm outcome.split)

lemma held_snoc: "held [] t = Some s \<Longrightarrow> held [] (t @ [Did a]) = act_step a s"
  by (simp add: held_append split: option.split)

lemma holds_attempt: "acquires a = Some r \<Longrightarrow> holds [] (attempt a res) (opens [r])"
  by (auto simp: holds_def attempt_def held_append act_step_def split: option.split)

lemma holds_attempt_neutral: "acquires a = None \<Longrightarrow> releases a = None \<Longrightarrow> holds [] (attempt a res) (opens [])"
  by (auto simp: holds_def attempt_def held_append act_step_def split: option.split)

lemma holds_emit: "acquires a = Some r \<Longrightarrow> holds [] (emit a) (opens [r])"
  by (auto simp: holds_def emit_def held_append act_step_def)

lemma holds_emit_neutral: "acquires a = None \<Longrightarrow> releases a = None \<Longrightarrow> holds [] (emit a) (opens [])"
  by (auto simp: holds_def emit_def held_append act_step_def)


subsection \<open>The providers\<close>

lemma holds_frame_opens: "holds [] m (opens []) \<Longrightarrow> closes acts p \<Longrightarrow> holds p (or_cleanup acts m) (opens p)"
  by (rule holds_weaken [OF holds_frame]) auto

lemma ping_loop_holds: "holds [] (ping_loop x n i e) (opens [])"
proof (induction n arbitrary: i e)
  case 0
  then show ?case by (simp add: holds_return)
next
  case (Suc n)
  have wait: "holds [] (emit PingWait) (opens [])" by (rule holds_emit_neutral) simp_all
  show ?case unfolding ping_loop.simps
    by (rule holds_then [OF holds_emit_neutral])
       (auto split: option.split intro!: holds_return holds_then [OF wait] Suc.IH holds_fail)
qed

lemma RunMigrations_holds: "holds [] (RunMigrations x) (opens [])"
proof -
  have up: "holds [] (migrate_up x) (opens [])"
    unfolding migrate_up_def by (rule holds_wrap, rule holds_attempt_neutral) simp_all
  have close: "closes [MigClose] [Migration]" "closes [SqlClose] [SqlHandle]"
    by (simp_all add: closes_def act_step_def)
  have init: "holds [] (wrap_err ''migrate init: '' (attempt MigInit (bx_mig_new x))) (opens [Migration])"
    by (intro boot_intros holds_attempt) simp
  have neutral: "holds [] (wrap_err p (attempt a r)) (opens [])"
    if "acquires a = None" "releases a = None" for p a r
    using that by (intro boot_intros holds_attempt_neutral)
  have body: "holds [] (io_bind (ping_loop x 30 0 None) (\<lambda>pingErr. case pingErr of
         Some e \<Rightarrow> io_fail (Wrapped ''ping db: '' e)
       | None \<Rightarrow> io_then (wrap_err ''migrate driver: '' (attempt MigDriver (bx_driver x)))
          (io_then (wrap_err ''migrate init: '' (attempt MigInit (bx_mig_new x)))
          (with_defer [MigClose] (migrate_up x))))) (opens [])"
  proof (rule holds_bind [OF ping_loop_holds])
    fix e and q :: "resource list" assume "q = []"
    then show "holds q (case e of
         Some e \<Rightarrow> io_fail (Wrapped ''ping db: '' e)
       | None \<Rightarrow> io_then (wrap_err ''migrate driver: '' (attempt MigDriver (bx_driver x)))
          (io_then (wrap_err ''migrate init: '' (attempt MigInit (bx_mig_new x)))
          (with_defer [MigClose] (migrate_up x)))) (opens [])"
      by (auto split: option.split intro!: holds_fail holds_then [OF neutral] holds_then [OF init]
          holds_defer [OF up close(1)])
  qed
  have opened: "holds [] (wrap_err ''open sql db: '' (attempt SqlOpen (bx_sql_open x))) (opens [SqlHandle])"
    by (intro boot_intros holds_attempt) simp
  show ?thesis unfolding RunMigrations_def
    by (rule holds_then [OF neutral], simp, simp, rule holds_then [OF opened],
        rule holds_defer [OF body close(2)])
qed

lemma Connect_holds: "holds [] (Connect x url) (opens [PgPool])"
  unfolding Connect_def Let_def
  by (rule holds_then [OF holds_attempt_neutral holds_attempt]) simp_all

lemma ProvideDB_holds: "holds [] (ProvideDB x cfg) (\<lambda>cl q. closes cl q \<and> q = [PgPool])"
proof -
  have "closes [PgClose] [PgPool]" "closes [BootLog InfoLevel ''closing pg'', PgClose] [PgPool]"
    by (simp_all add: closes_def act_step_def)
  then show ?thesis unfolding ProvideDB_def
    by (auto intro!: holds_fail holds_then [OF Connect_holds] holds_return
        holds_then [OF holds_frame_opens [OF RunMigrations_holds]])
qed

lemma ProvideRedisClient_holds: "holds [] (ProvideRedisClient cfg) (\<lambda>cl q. closes cl q \<and> q = [RedisConn])"
  unfolding ProvideRedisClient_def
  by (rule holds_then [OF holds_emit]) (auto simp: closes_def act_step_def intro!: holds_return)

lemma holds_frame_weaken:
  assumes "holds [] m Q" and "closes acts p" and "\<And>a q. Q a q \<Longrightarrow> Q' a (q @ p)"
  shows "holds p (or_cleanup acts m) Q'"
  by (rule holds_weaken [OF holds_frame [OF assms(1)]]) (use assms(2,3) in auto)

lemma ProvideGRPCRateClient_holds:
  "holds [] (ProvideGRPCRateClient x cfg) (\<lambda>(client, cl) q. closes cl q \<and>
     client = (cfg_WorkerType cfg = ''grpc'') \<and>
     q = (if cfg_WorkerType cfg = ''grpc'' then [GrpcConn] else []))"
proof -
  have dial: "holds [] (rateclient_New x t) (\<lambda>cl q. cl = [GrpcClose] \<and> q = [GrpcConn])" for t
    unfolding rateclient_New_def by (rule holds_then [OF holds_attempt]) (auto intro!: holds_return)
  show ?thesis unfolding ProvideGRPCRateClient_def
    by (auto simp: closes_def act_step_def intro!: holds_return holds_bind [OF dial])
qed

text \<open>The server a mode is given: which dispatcher it has. No mode installs a readiness check.\<close>

definition mode_server :: "'s api_parts \<Rightarrow> Config \<Rightarrow> 's Server" where
  "mode_server parts cfg = \<lparr>srv_svc = ap_svc parts, srv_ping = None,
     srv_dispatch = (if cfg_WorkerType cfg = ''chan'' then Some (ap_enqueue parts)
       else if cfg_WorkerType cfg = ''grpc'' then Some (ap_grpc parts (cfg_RequestTimeout cfg)) else None)\<rparr>"

lemma ProvideAPIServer_holds:
  assumes "client = (cfg_WorkerType cfg = ''grpc'')"
  shows "holds [] (ProvideAPIServer parts cfg client) (\<lambda>(srv, cl) q. closes cl q \<and>
     srv = mode_server parts cfg \<and> q = (if cfg_WorkerType cfg = ''chan'' then [ChanWorkers] else []))"
proof -
  have cl: "closes [BootLog InfoLevel ''stopping chan workers'', CancelWorkers, CloseBus] [ChanWorkers]"
    by (simp add: closes_def act_step_def)
  show ?thesis using assms cl unfolding ProvideAPIServer_def Let_def
    by (auto simp: mode_server_def NewServer_def SetDispatcher_def closes_def intro!: holds_return
        holds_then [OF holds_emit])
qed

lemma boot_chan_holds: "holds q (boot_chan cfg) (opens q)"
  by (auto simp: holds_def boot_chan_def held_append act_step_def ProvideChanBus_def make_chan_def)

subsection \<open>The injectors\<close>

text \<open>What a running API process holds, innermost first.\<close>

definition api_resources :: "Config \<Rightarrow> resource list" where
  "api_resources cfg = (if cfg_WorkerType cfg = ''chan'' then [ChanWorkers]
     else if cfg_WorkerType cfg = ''grpc'' then [GrpcConn] else []) @ [RedisConn, PgPool]"

lemma InitAPI_holds:
  "holds [] (InitAPI x rt) (\<lambda>(srv, cl) q. closes cl q \<and> srv = mode_server (boot_parts rt (Load (bx_env x))) (Load (bx_env x)) \<and>
     q = api_resources (Load (bx_env x)))"
proof -
  let ?cfg = "Load (bx_env x)"
  let ?Q = "\<lambda>(srv, cl) q. closes cl q \<and> srv = mode_server (boot_parts rt (Load (bx_env x))) ?cfg \<and> q = api_resources ?cfg"
  let ?g = "if cfg_WorkerType ?cfg = ''grpc'' then [GrpcConn] else []"
  have server: "holds (q3 @ [RedisConn, PgPool])
      (io_bind (or_cleanup (cl3 @ cl2 @ cl) (ProvideAPIServer (boot_parts rt ?cfg) ?cfg client))
        (\<lambda>(server, cl4). io_return (server, cl4 @ cl3 @ cl2 @ cl))) ?Q"
    if "closes cl [PgPool]" "closes cl2 [RedisConn]" "closes cl3 q3"
      "client = (cfg_WorkerType ?cfg = ''grpc'')" "q3 = ?g" for cl cl2 cl3 client q3
  proof -
    have all: "closes (cl3 @ cl2 @ cl) (q3 @ [RedisConn, PgPool])"
      using closes_append [OF that(3) closes_append [OF that(2,1)]] by simp
    show ?thesis
      by (rule holds_bind [OF holds_frame [OF ProvideAPIServer_holds [OF that(4)]]])
         (use all that(5) in \<open>auto simp: api_resources_def intro!: holds_return closes_append
             split: if_splits intro: closes_append [of _ "[]"]\<close>)
  qed
  show ?thesis unfolding InitAPI_def Let_def
  proof (rule holds_bind [OF ProvideDB_holds])
    fix cl q assume 1: "closes cl q \<and> q = [PgPool]"
    show "holds q (io_bind (or_cleanup cl (ProvideRedisClient ?cfg)) (\<lambda>cl2.
      io_bind (or_cleanup (cl2 @ cl) (ProvideGRPCRateClient x ?cfg)) (\<lambda>(client, cl3).
      io_then (boot_chan ?cfg)
       (io_bind (or_cleanup (cl3 @ cl2 @ cl) (ProvideAPIServer (boot_parts rt ?cfg) ?cfg client))
         (\<lambda>(server, cl4). io_return (server, cl4 @ cl3 @ cl2 @ cl)))))) ?Q"
    proof (rule holds_bind [OF holds_frame [OF ProvideRedisClient_holds]])
      fix cl2 r assume 2: "\<exists>q'. (closes cl2 q' \<and> q' = [RedisConn]) \<and> r = q' @ q"
      then have both: "closes (cl2 @ cl) r" "r = [RedisConn, PgPool]" "closes cl2 [RedisConn]"
        using 1 closes_append [of cl2 "[RedisConn]" cl "[PgPool]"] by auto
      show "holds r (io_bind (or_cleanup (cl2 @ cl) (ProvideGRPCRateClient x ?cfg)) (\<lambda>(client, cl3).
        io_then (boot_chan ?cfg)
         (io_bind (or_cleanup (cl3 @ cl2 @ cl) (ProvideAPIServer (boot_parts rt ?cfg) ?cfg client))
           (\<lambda>(server, cl4). io_return (server, cl4 @ cl3 @ cl2 @ cl))))) ?Q"
        by (rule holds_bind [OF holds_frame [OF ProvideGRPCRateClient_holds]])
           (use 1 both in \<open>auto intro!: holds_then [OF boot_chan_holds] server\<close>)
    qed (use 1 in auto)
  qed
qed

lemma InitDBWorker_holds:
  "holds [] (InitDBWorker x rt) (\<lambda>(w, cl) q. closes cl q \<and> q = [RedisConn, PgPool] \<and>
     (w \<noteq> None) = (cfg_WorkerType (Load (bx_env x)) = ''db''))"
proof -
  let ?cfg = "Load (bx_env x)"
  have work: "holds q (ProvideWorker (boot_service rt ?cfg) ?cfg) (\<lambda>w q'. q' = q \<and> (w \<noteq> None) = (cfg_WorkerType ?cfg = ''db''))" for q
    by (auto simp: holds_def ProvideWorker_def io_simps emit_def held_append act_step_def)
  show ?thesis unfolding InitDBWorker_def Let_def
  proof (rule holds_bind [OF ProvideDB_holds])
    fix cl q assume 1: "closes cl q \<and> q = [PgPool]"
    show "holds q (io_bind (or_cleanup cl (ProvideRedisClient ?cfg)) (\<lambda>cl2.
      io_bind (ProvideWorker (boot_service rt ?cfg) ?cfg) (\<lambda>worker. io_return (worker, cl2 @ cl))))
      (\<lambda>(w, cl) q. closes cl q \<and> q = [RedisConn, PgPool] \<and> (w \<noteq> None) = (cfg_WorkerType ?cfg = ''db''))"
      by (rule holds_bind [OF holds_frame [OF ProvideRedisClient_holds]])
         (use 1 in \<open>auto intro!: holds_bind [OF work] holds_return dest: closes_append\<close>)
  qed
qed

subsection \<open>Panics while starting\<close>

text \<open>The only panic of a start-up is the one of making the channel.\<close>

definition panics_only_if :: "bool \<Rightarrow> 'a boot \<Rightarrow> bool" where
  "panics_only_if C m \<longleftrightarrow> (\<forall>t p u. m t = (Panic p, u) \<longrightarrow> C)"

named_theorems panic_intros \<open>rules for when a start-up step panics\<close>

lemma panics_bind [panic_intros]:
  assumes "panics_only_if C m" and "\<And>a. panics_only_if C (k a)"
  shows "panics_only_if C (io_bind m k)"
  unfolding panics_only_if_def
proof (intro allI impI)
  fix t p u assume "io_bind m k t = (Panic p, u)"
  then show C using assms unfolding panics_only_if_def
    by (cases "m t") (auto simp: io_simps split: outcome.splits)
qed

lemma panics_basic [panic_intros]:
  "panics_only_if C (io_return a)" "panics_only_if C (io_fail e)" "panics_only_if C (emit act)"
  "panics_only_if C (attempt act res)"
  by (auto simp: panics_only_if_def io_simps emit_def attempt_def split: option.splits)

lemma panics_then [panic_intros]:
  "panics_only_if C m \<Longrightarrow> panics_only_if C n \<Longrightarrow> panics_only_if C (io_then m n)"
  unfolding io_then_def by (rule panics_bind)

lemma panics_wrap [panic_intros]:
  fixes m :: "'a boot"
  assumes m: "panics_only_if C m"
  shows "panics_only_if C (wrap_err prefix m)" and "panics_only_if C (with_defer acts m)"
    and "panics_only_if C (or_cleanup acts m)"
proof -
  have rest: "panics_only_if C m'" if "\<And>t p u. m' t = (Panic p, u) \<Longrightarrow> \<exists>v. m t = (Panic p, v)" for m' :: "'a boot"
    using that m unfolding panics_only_if_def by blast
  show "panics_only_if C (wrap_err prefix m)"
    by (rule rest) (auto simp: wrap_err_def split: prod.splits outcome.splits)
  show "panics_only_if C (with_defer acts m)"
    by (rule rest) (auto simp: with_defer_def split: prod.splits)
  show "panics_only_if C (or_cleanup acts m)"
    by (rule rest) (auto simp: or_cleanup_def split: prod.splits outcome.splits)
qed

lemma panics_ping [panic_intros]: "panics_only_if C (ping_loop x n i e)"
  by (induction n arbitrary: i e) (auto intro!: panic_intros split: option.split)

lemma panics_ProvideDB [panic_intros]: "panics_only_if C (ProvideDB x cfg)"
  unfolding ProvideDB_def Connect_def RunMigrations_def migrate_up_def Let_def
  by (auto intro!: panic_intros split: option.split)

lemma panics_boot_chan: "panics_only_if (cfg_ChanQueueSize cfg < 0) (boot_chan cfg)"
  by (auto simp: panics_only_if_def boot_chan_def ProvideChanBus_def make_chan_def split: if_splits)

lemma panics_InitAPI: "panics_only_if (cfg_ChanQueueSize (Load (bx_env x)) < 0) (InitAPI x rt)"
  unfolding InitAPI_def ProvideRedisClient_def ProvideGRPCRateClient_def rateclient_New_def
    ProvideAPIServer_def Let_def
  by (auto intro!: panic_intros panics_boot_chan split: option.split prod.split)

lemma panics_InitDBWorker: "panics_only_if C (InitDBWorker x rt)"
  unfolding InitDBWorker_def ProvideRedisClient_def ProvideWorker_def Let_def
  by (auto intro!: panic_intros split: option.split prod.split)

subsection \<open>Properties\<close>

lemma WorkerType_not_empty: "cfg_WorkerType (Load env) \<noteq> []"
  by (simp add: Load_def getEnv_def)

lemma InitAPI_outcome:
  assumes "InitAPI x rt [] = (res, t)"
  shows "case res of
      Ok (srv, cl) \<Rightarrow> closes cl (api_resources (Load (bx_env x))) \<and> srv = mode_server (boot_parts rt (Load (bx_env x))) (Load (bx_env x)) \<and>
        held [] t = Some (api_resources (Load (bx_env x)))
    | Err e \<Rightarrow> held [] t = Some []
    | Panic p \<Rightarrow> cfg_ChanQueueSize (Load (bx_env x)) < 0"
  using holdsD [OF InitAPI_holds, of "[]" "[]" x rt res t] panics_InitAPI [of x rt] assms
  by (auto simp: panics_only_if_def split: outcome.split)

lemma closes_all: "closes cl r \<Longrightarrow> held [] t = Some r \<Longrightarrow> held [] (t @ map Did cl) = Some []"
  using closes_def [of cl r] by (auto simp: held_append dest: spec [of _ "[]"])

text \<open>
  C34: Starting the API leaks nothing: when it fails, whatever step fails, everything it had opened
  is closed again; when it succeeds it holds the pool, the Redis client and what the worker mode
  needs, the returned cleanup closes exactly these in the reverse order, the server has the
  dispatcher of its mode and no readiness check, and it panics only on a negative queue size.
\<close>

theorem api_start_no_leak:
  "case InitAPI x rt [] of
     (Ok (srv, cleanup), t) \<Rightarrow> held [] t = Some (api_resources (Load (bx_env x))) \<and>
       held [] (t @ map Did cleanup) = Some [] \<and> srv = mode_server (boot_parts rt (Load (bx_env x))) (Load (bx_env x))
   | (Err e, t) \<Rightarrow> held [] t = Some []
   | (Panic p, t) \<Rightarrow> cfg_ChanQueueSize (Load (bx_env x)) < 0"
proof (cases "InitAPI x rt []")
  case (Pair res t)
  with InitAPI_outcome [OF Pair] closes_all show ?thesis by (cases res) auto
qed

text \<open>
  C35: How the API process ends: an error while starting leaves nothing open; after a start, an
  error of the listener ends the process with everything still open, as the fatal log does not
  run the deferred cleanup; only a listener that was closed runs it.
\<close>

theorem api_process_end:
  "case api_main x rt e of
     (MainReturned, t) \<Rightarrow> e = ErrServerClosed \<and> held [] t = Some []
   | (MainFatal msg err, t) \<Rightarrow> msg = ''init api'' \<and> held [] t = Some [] \<or>
       msg = ''server run'' \<and> err = e \<and> e \<noteq> ErrServerClosed \<and> held [] t = Some (api_resources (Load (bx_env x)))
   | (MainPanic p, t) \<Rightarrow> cfg_ChanQueueSize (Load (bx_env x)) < 0"
proof (cases "InitAPI x rt []")
  case (Pair res t)
  with InitAPI_outcome [OF Pair] closes_all show ?thesis
    by (cases res) (auto simp: api_main_def Server_Run_def)
qed

text \<open>
  C36: The worker process: unless it starts it holds nothing, and the database worker's process
  holds the pool and the Redis client until its cleanup has closed both.
\<close>

theorem worker_start_no_leak:
  "case InitWorkerApp x rt [] of
     (Ok (GrpcRunner addr srv, cleanup), t) \<Rightarrow> t = [] \<and> cleanup = [] \<and>
       cfg_WorkerType (Load (bx_env x)) = ''grpc''
   | (Ok (DbRunner w, cleanup), t) \<Rightarrow> held [] t = Some [RedisConn, PgPool] \<and>
       held [] (t @ map Did cleanup) = Some [] \<and> cfg_WorkerType (Load (bx_env x)) = ''db''
   | (Err e, t) \<Rightarrow> held [] t = Some []
   | (Panic p, t) \<Rightarrow> False"
proof -
  obtain r t where db: "InitDBWorker x rt [] = (r, t)" by (cases "InitDBWorker x rt []")
  obtain q u where app: "InitWorkerApp x rt [] = (q, u)"
    by (cases "InitWorkerApp x rt []")
  have no_panic: "r \<noteq> Panic p" for p
    using panics_InitDBWorker [of False x rt] db by (auto simp: panics_only_if_def)
  show ?thesis
    using holdsD [OF InitDBWorker_holds _ db, of "[]"] no_panic
      WorkerType_not_empty [of "bx_env x"] closes_all
    by (cases r) (auto simp: InitWorkerApp_def InitGRPCRunner_def Let_def io_simps db
        wrap_err_def ProvideGRPCRateServerRunner_def split: option.splits)
qed

subsection \<open>Waiting for the database\<close>

abbreviation pings :: "boot_trace \<Rightarrow> nat" where
  "pings t \<equiv> length (filter (\<lambda>e. e = Did Ping) t)"

lemma ping_loop_pings: "pings (snd (ping_loop x n i e t)) \<le> pings t + n"
proof (induction n arbitrary: i e t)
  case 0
  then show ?case by (simp add: io_simps)
next
  case (Suc n)
  show ?case
    using Suc.IH [of "i + 1" "bx_ping x i" "t @ [Did Ping, Did PingWait]"]
    by (auto simp: io_simps emit_def split: option.split)
qed

text \<open>The database answers the ping after \<open>k\<close> that failed, and the context did not end before.\<close>

definition answers_at :: "boot_ext \<Rightarrow> nat \<Rightarrow> nat \<Rightarrow> bool" where
  "answers_at x i k \<longleftrightarrow> bx_ping x (i + k) = None \<and>
     (\<forall>j<k. bx_ping x (i + j) \<noteq> None \<and> bx_wait x (i + j) = None)"

lemma answers_at_0: "answers_at x i 0 \<longleftrightarrow> bx_ping x i = None"
  by (simp add: answers_at_def)

lemma answers_at_Suc:
  "answers_at x i (Suc k) \<longleftrightarrow> bx_ping x i \<noteq> None \<and> bx_wait x i = None \<and> answers_at x (Suc i) k"
  by (auto simp: answers_at_def All_less_Suc2)

lemma ping_loop_ok:
  "fst (ping_loop x n i e t) = Ok None \<longleftrightarrow> n = 0 \<and> e = None \<or> (\<exists>k<n. answers_at x i k)"
proof (induction n arbitrary: i e t)
  case 0
  then show ?case by (simp add: io_simps)
next
  case (Suc n)
  have ex: "(\<exists>k<Suc n. answers_at x i k) \<longleftrightarrow> bx_ping x i = None \<or>
      bx_ping x i \<noteq> None \<and> bx_wait x i = None \<and> (\<exists>k<n. answers_at x (Suc i) k)"
    unfolding Ex_less_Suc2 answers_at_0 answers_at_Suc by auto
  show ?case unfolding ex
    using Suc.IH [of "Suc i"] by (auto simp: io_simps emit_def split: option.split)
qed

text \<open>What has to hold for the migrations to run through.\<close>

definition migrates :: "boot_ext \<Rightarrow> bool" where
  "migrates x \<longleftrightarrow> bx_mig_src x = None \<and> bx_sql_open x = None \<and> (\<exists>k<30. answers_at x 0 k) \<and>
     bx_driver x = None \<and> bx_mig_new x = None \<and> (bx_up x = None \<or> bx_up x = Some ErrNoChange)"

text \<open>
  C37: The wait for the database is bounded: at most thirty pings, and the migrations succeed
  exactly if one of the thirty is answered before the context ends and the migration library's
  steps succeed, a schema that is already up to date included.
\<close>

theorem migrations_wait:
  "pings (snd (RunMigrations x t)) \<le> pings t + 30 \<and>
   (fst (RunMigrations x t) = Ok ()) = migrates x"
proof -
  obtain r u where loop: "ping_loop x 30 0 None (t @ [Did MigSource, Did SqlOpen]) = (r, u)"
    by (cases "ping_loop x 30 0 None (t @ [Did MigSource, Did SqlOpen])")
  have "pings u \<le> pings t + 30"
    using ping_loop_pings [of x 30 0 None "t @ [Did MigSource, Did SqlOpen]"] loop by simp
  moreover have "(r = Ok None) = (\<exists>k<30. answers_at x 0 k)"
    using ping_loop_ok [of x 30 0 None "t @ [Did MigSource, Did SqlOpen]"] loop by simp
  ultimately show ?thesis
    by (cases r) (auto simp: RunMigrations_def migrate_up_def migrates_def wrap_err_def attempt_def with_defer_def
        io_simps loop split: option.split)
qed

end
