(* ===== verification/Fakes.thy ===== *)
theory Fakes
  imports Service Idempotency "HOL-Library.AList" "HOL-Library.Multiset"
begin

section \<open>The in-memory repositories\<close>

text \<open>
  \<^verbatim>\<open>internal/infrastructure/http/fakes.go\<close>: repositories over Go maps, for running the API
  without a database. Every method holds the map's lock, so it is one step. A map is nil until
  something is stored in it; the order in which a loop visits a map is chosen anew each time, by
  \<open>fw_order\<close> of the number of loops run so far, and \<open>fw_clock\<close> gives the readings of the clock.
\<close>

record fake_world =
  fw_store :: "(string \<times> Quote) list option"
  fw_jobs :: "(string \<times> QuoteUpdate) list option"
  fw_order :: "nat \<Rightarrow> string list \<Rightarrow> string list"
  fw_clock :: "nat \<Rightarrow> int"
  fw_ticks :: nat

definition fw_time :: "(fake_world, int) io" where
  "fw_time s = (Ok (fw_clock s (fw_ticks s)), s\<lparr>fw_ticks := fw_ticks s + 1\<rparr>)"

definition map_of_opt :: "('k \<times> 'v) list option \<Rightarrow> 'k \<Rightarrow> 'v option" where
  "map_of_opt m k = (case m of None \<Rightarrow> None | Some al \<Rightarrow> map_of al k)"

subsection \<open>Quotes\<close>

definition fake_GetLast :: "ctx \<Rightarrow> string \<Rightarrow> (fake_world, Quote) io" where
  "fake_GetLast c pair s = (case fw_store s of
     None \<Rightarrow> (Err ErrNotFound, s)
   | Some al \<Rightarrow> (case map_of al pair of
       None \<Rightarrow> (Err ErrNotFound, s)
     | Some q \<Rightarrow> (Ok q, s)))"

definition fake_Upsert :: "ctx \<Rightarrow> Quote \<Rightarrow> (fake_world, unit) io" where
  "fake_Upsert c q s =
     (let al = (case fw_store s of None \<Rightarrow> [] | Some al \<Rightarrow> al)
      in (Ok (), s\<lparr>fw_store := Some (AList.update (Q_Pair q) q al)\<rparr>))"

definition fake_AppendHistory :: "ctx \<Rightarrow> QuoteHistory \<Rightarrow> (fake_world, unit) io" where
  "fake_AppendHistory c h = io_return ()"

definition fakeQuoteRepo :: "fake_world QuoteRepo" where
  "fakeQuoteRepo = \<lparr>GetLast = fake_GetLast, Upsert = fake_Upsert, AppendHistory = fake_AppendHistory\<rparr>"

subsection \<open>Update jobs\<close>

definition fake_CreateQueued :: "ctx \<Rightarrow> string \<Rightarrow> string option \<Rightarrow> (fake_world, string) io" where
  "fake_CreateQueued c pair idem =
     io_bind fw_time (\<lambda>t. \<lambda>s.
       let al = (case fw_jobs s of None \<Rightarrow> [] | Some al \<Rightarrow> al); i = ''update-1''
       in (Ok i, s\<lparr>fw_jobs := Some (AList.update i \<lparr>U_ID = i, U_Pair = pair, U_Status = Queued,
             U_Error = None, U_Price = None, U_UpdatedAt = t\<rparr> al)\<rparr>))"

definition fake_GetByID :: "ctx \<Rightarrow> string \<Rightarrow> (fake_world, QuoteUpdate) io" where
  "fake_GetByID c i s = (case fw_jobs s of
     None \<Rightarrow> (Err ErrNotFound, s)
   | Some al \<Rightarrow> (case map_of al i of
       None \<Rightarrow> (Err ErrNotFound, s)
     | Some j \<Rightarrow> (Ok j, s)))"

definition fake_UpdateStatus ::
  "ctx \<Rightarrow> string \<Rightarrow> QuoteUpdateStatus \<Rightarrow> string option \<Rightarrow> (fake_world, unit) io" where
  "fake_UpdateStatus c i st errMsg s = (case fw_jobs s of
     None \<Rightarrow> (Err (ErrorString ''no jobs''), s)
   | Some al \<Rightarrow> (case map_of al i of
       None \<Rightarrow> (Err ErrNotFound, s)
     | Some j \<Rightarrow> io_bind fw_time (\<lambda>t. \<lambda>s.
         (Ok (), s\<lparr>fw_jobs := Some (AList.update i
            (j\<lparr>U_Status := st, U_Error := errMsg, U_UpdatedAt := t\<rparr>) al)\<rparr>)) s))"

text \<open>The ids of a loop over the map, in the order of this loop.\<close>

definition visit_order :: "fake_world \<Rightarrow> (string \<times> QuoteUpdate) list \<Rightarrow> string list" where
  "visit_order s al = fw_order s (fw_ticks s) (map fst al)"

definition ListQueuedIDs :: "(fake_world, string list) io" where
  "ListQueuedIDs s =
     (let al = (case fw_jobs s of None \<Rightarrow> [] | Some al \<Rightarrow> al)
      in (Ok (filter (\<lambda>i. case map_of al i of Some j \<Rightarrow> U_Status j = Queued | None \<Rightarrow> False)
            (visit_order s al)), s\<lparr>fw_ticks := fw_ticks s + 1\<rparr>))"

fun claim_loop :: "int \<Rightarrow> string list \<Rightarrow> (string \<times> QuoteUpdate) list \<Rightarrow> (string \<times> string) list \<Rightarrow>
    (string \<times> QuoteUpdate) list \<times> (string \<times> string) list" where
  "claim_loop limit [] al out = (al, out)"
| "claim_loop limit (i # is) al out = (case map_of al i of
     None \<Rightarrow> claim_loop limit is al out
   | Some j \<Rightarrow>
       if U_Status j = Queued then
         let al' = AList.update i (j\<lparr>U_Status := Processing\<rparr>) al; out' = out @ [(i, U_Pair j)]
         in if 0 < limit \<and> limit \<le> int (length out') then (al', out') else claim_loop limit is al' out'
       else claim_loop limit is al out)"

definition fake_ClaimQueued :: "ctx \<Rightarrow> int \<Rightarrow> (fake_world, (string \<times> string) list) io" where
  "fake_ClaimQueued c limit s = (case fw_jobs s of
     None \<Rightarrow> (Ok [], s)
   | Some al \<Rightarrow> (case claim_loop limit (visit_order s al) al [] of
       (al', out) \<Rightarrow> (Ok out, s\<lparr>fw_jobs := Some al', fw_ticks := fw_ticks s + 1\<rparr>)))"

definition fakeUpdateJobRepo :: "fake_world UpdateJobRepo" where
  "fakeUpdateJobRepo = \<lparr>CreateQueued = fake_CreateQueued, GetByID = fake_GetByID,
     UpdateStatus = fake_UpdateStatus, ClaimQueued = fake_ClaimQueued\<rparr>"

subsection \<open>The rate provider and the service\<close>

definition fake_rate_Get :: "ctx \<Rightarrow> string \<Rightarrow> (fake_world, Quote) io" where
  "fake_rate_Get c pair = io_bind fw_time (\<lambda>t.
     io_return \<lparr>Q_Pair = pair, Q_Price = Fin 0, Q_UpdatedAt = t\<rparr>)"

definition fakeRateProvider :: "fake_world RateProvider" where
  "fakeRateProvider = \<lparr>Get = fake_rate_Get\<rparr>"

definition NewFakeRateProvider :: "fake_world RateProvider" where
  "NewFakeRateProvider = fakeRateProvider"

text \<open>The state both constructors make: two empty maps.\<close>

definition new_maps :: "(nat \<Rightarrow> string list \<Rightarrow> string list) \<Rightarrow> (nat \<Rightarrow> int) \<Rightarrow> fake_world" where
  "new_maps order clock = \<lparr>fw_store = Some [], fw_jobs = Some [], fw_order = order, fw_clock = clock,
     fw_ticks = 0\<rparr>"

definition NewInMemoryService :: "(fake_world, string) io \<Rightarrow> fake_world FXRatesService" where
  "NewInMemoryService uuid = NewService fw_time uuid (Some fakeQuoteRepo) (Some fakeUpdateJobRepo)
     (Some fakeRateProvider) (Some NoopIdempotency) []"

definition NewInMemoryRepos :: "fake_world QuoteRepo \<times> fake_world UpdateJobRepo \<times> fake_world RateProvider" where
  "NewInMemoryRepos = (fakeQuoteRepo, fakeUpdateJobRepo, fakeRateProvider)"

subsection \<open>The contracts of the ports\<close>

text \<open>
  The map is not nil, its keys are the ids of the jobs, each once, and a loop visits every key once.
\<close>

definition fake_ok :: "ctx \<Rightarrow> fake_world \<Rightarrow> bool" where
  "fake_ok c s \<longleftrightarrow> fw_jobs s \<noteq> None \<and>
     distinct (map fst (the (fw_jobs s))) \<and>
     (\<forall>(i, j) \<in> set (the (fw_jobs s)). U_ID j = i) \<and>
     (\<forall>n ks. mset (fw_order s n ks) = mset ks)"

definition fake_jobs :: "ctx \<Rightarrow> fake_world \<Rightarrow> job_map" where
  "fake_jobs c s i = map_option
     (\<lambda>j. \<lparr>jv_pair = U_Pair j, jv_status = U_Status j, jv_error = U_Error j\<rparr>) (map_of_opt (fw_jobs s) i)"

definition fake_quotes :: "ctx \<Rightarrow> fake_world \<Rightarrow> string \<rightharpoonup> Quote" where
  "fake_quotes c s = map_of_opt (fw_store s)"

lemma map_of_opt_simps [simp]: "map_of_opt (Some al) = map_of al" "map_of_opt None k = None"
  by (auto simp: map_of_opt_def fun_eq_iff)

lemma fake_ok_new: "(\<forall>n ks. mset (order n ks) = mset ks) \<Longrightarrow> fake_ok c (new_maps order clock)"
  by (simp add: fake_ok_def new_maps_def)

lemma ids_update:
  assumes "\<forall>(i, j) \<in> set al. U_ID j = i" and "U_ID j = i"
  shows "\<forall>(i, j) \<in> set (AList.update i j al). U_ID j = i"
  using assms by (induction al) auto

lemma fake_okE:
  assumes "fake_ok c s"
  obtains al where "fw_jobs s = Some al" and "distinct (map fst al)" and "\<forall>(i, j) \<in> set al. U_ID j = i"
    and "\<forall>n ks. mset (fw_order s n ks) = mset ks"
  using assms by (auto simp: fake_ok_def)

lemma fake_ok_jobs:
  assumes "fake_ok c s" and "distinct (map fst al)" and "\<forall>(i, j) \<in> set al. U_ID j = i"
  shows "fake_ok c (s\<lparr>fw_jobs := Some al, fw_ticks := n\<rparr>)" "fake_ok c (s\<lparr>fw_ticks := n, fw_jobs := Some al\<rparr>)"
  using assms by (simp_all add: fake_ok_def)

lemma fake_update_effect:
  assumes ok: "fake_ok c s" and run: "fake_UpdateStatus c i st err s = (r, s')"
  shows "fake_ok c s' \<and> fake_quotes c s' = fake_quotes c s \<and>
    (case fake_jobs c s i of
       None \<Rightarrow> r = Err ErrNotFound \<and> s' = s
     | Some _ \<Rightarrow> r = Ok () \<and> fake_jobs c s' = set_job i st err (fake_jobs c s))"
proof -
  obtain al where al: "fw_jobs s = Some al" "distinct (map fst al)" "\<forall>(i, j) \<in> set al. U_ID j = i"
    using ok by (rule fake_okE)
  show ?thesis
  proof (cases "map_of al i")
    case None
    then show ?thesis using run al ok by (simp add: fake_UpdateStatus_def fake_jobs_def)
  next
    case (Some j)
    let ?j = "j\<lparr>U_Status := st, U_Error := err, U_UpdatedAt := fw_clock s (fw_ticks s)\<rparr>"
    have "U_ID j = i" using al(3) map_of_SomeD [OF Some] by auto
    then have ids: "\<forall>(i, j) \<in> set (AList.update i ?j al). U_ID j = i" by (intro ids_update al(3)) simp
    have s': "r = Ok ()" "s' = s\<lparr>fw_ticks := fw_ticks s + 1, fw_jobs := Some (AList.update i ?j al)\<rparr>"
      using run al Some by (auto simp: fake_UpdateStatus_def io_simps fw_time_def)
    have "fake_jobs c s' = set_job i st err (fake_jobs c s)"
      by (rule ext) (simp add: s' fake_jobs_def AList.update_conv' al(1) set_job_def Some)
    moreover have "fake_ok c s'" unfolding s'(2)
      by (rule fake_ok_jobs(2) [OF ok distinct_update [OF al(2)] ids])
    ultimately show ?thesis using Some al s' by (simp add: fake_jobs_def fake_quotes_def)
  qed
qed

text \<open>
  What a claiming loop does to the map: \<open>new\<close> lists queued jobs, each once, and exactly their
  statuses became processing.
\<close>

definition claimed :: "(string \<times> string) list \<Rightarrow> (string \<Rightarrow> QuoteUpdate option) \<Rightarrow>
    (string \<Rightarrow> QuoteUpdate option) \<Rightarrow> bool" where
  "claimed new m m' \<longleftrightarrow> distinct (map fst new) \<and>
     (\<forall>(i, p) \<in> set new. \<exists>j. m i = Some j \<and> U_Status j = Queued \<and> U_Pair j = p) \<and>
     m' = (\<lambda>i. if i \<in> fst ` set new then map_option (\<lambda>j. j\<lparr>U_Status := Processing\<rparr>) (m i) else m i)"

lemma claimed_Nil: "claimed [] m m"
  by (simp add: claimed_def)

lemma claimed_Cons:
  assumes "m i = Some j" and "U_Status j = Queued" and "i \<notin> fst ` set new"
    and c: "claimed new (m(i \<mapsto> j\<lparr>U_Status := Processing\<rparr>)) m'"
  shows "claimed ((i, U_Pair j) # new) m m'"
proof -
  have "\<forall>(k, p) \<in> set new. \<exists>j. m k = Some j \<and> U_Status j = Queued \<and> U_Pair j = p"
  proof (intro ballI, clarify)
    fix k p assume kp: "(k, p) \<in> set new"
    with assms(3) have "k \<noteq> i" by force
    with c kp show "\<exists>j. m k = Some j \<and> U_Status j = Queued \<and> U_Pair j = p"
      by (fastforce simp: claimed_def)
  qed
  moreover have "m' = (\<lambda>k. if k \<in> fst ` set ((i, U_Pair j) # new)
      then map_option (\<lambda>j. j\<lparr>U_Status := Processing\<rparr>) (m k) else m k)"
    using assms by (auto simp: claimed_def fun_eq_iff)
  ultimately show ?thesis using assms by (simp add: claimed_def)
qed

lemma claim_loop_spec:
  "distinct is \<Longrightarrow> distinct (map fst al) \<Longrightarrow> \<forall>(i, j) \<in> set al. U_ID j = i \<Longrightarrow>
   claim_loop limit is al out = (al', out') \<Longrightarrow>
   \<exists>new. out' = out @ new \<and> set (map fst new) \<subseteq> set is \<and> claimed new (map_of al) (map_of al') \<and>
     distinct (map fst al') \<and> (\<forall>(i, j) \<in> set al'. U_ID j = i)"
proof (induction "is" arbitrary: al out)
  case Nil
  then show ?case by (auto intro: claimed_Nil)
next
  case (Cons i ids)
  consider (skip) "claim_loop limit (i # ids) al out = claim_loop limit ids al out"
    | (take) j where "map_of al i = Some j" "U_Status j = Queued"
    by (cases "map_of al i"; cases "U_Status (the (map_of al i)) = Queued") auto
  then show ?case
  proof cases
    case skip
    with Cons.prems Cons.IH [of al out] show ?thesis by auto
  next
    case (take j)
    let ?j = "j\<lparr>U_Status := Processing\<rparr>"
    let ?al = "AList.update i ?j al" and ?o = "out @ [(i, U_Pair j)]"
    have "U_ID j = i" using Cons.prems(3) map_of_SomeD [OF take(1)] by auto
    then have ids: "\<forall>(i, j) \<in> set ?al. U_ID j = i" by (intro ids_update Cons.prems(3)) simp
    have dist: "distinct (map fst ?al)" by (rule distinct_update [OF Cons.prems(2)])
    have one: "claimed new (map_of ?al) m' \<Longrightarrow> i \<notin> fst ` set new \<Longrightarrow>
        claimed ((i, U_Pair j) # new) (map_of al) m'" for new m'
      using take by (intro claimed_Cons [of "map_of al" i j]) (simp_all add: AList.update_conv')
    show ?thesis
    proof (cases "0 < limit \<and> limit \<le> int (length ?o)")
      case True
      with Cons.prems(4) take have "al' = ?al" "out' = ?o" by auto
      then show ?thesis using one [OF claimed_Nil] dist ids by auto
    next
      case False
      with Cons.prems(4) take have "claim_loop limit ids ?al ?o = (al', out')" by auto
      from Cons.IH [OF _ dist ids this] Cons.prems(1) obtain new where
        new: "out' = ?o @ new" "set (map fst new) \<subseteq> set ids" "claimed new (map_of ?al) (map_of al')"
        "distinct (map fst al')" "\<forall>(i, j) \<in> set al'. U_ID j = i" by auto
      moreover have "i \<notin> fst ` set new" using new(2) Cons.prems(1) by auto
      ultimately show ?thesis using one by (intro exI [of _ "(i, U_Pair j) # new"]) auto
    qed
  qed
qed

lemma fake_claim_effect:
  assumes ok: "fake_ok c s" and run: "fake_ClaimQueued c n s = (r, s')"
  obtains xs where "r = Ok xs" and "fake_ok c s'" and "fake_quotes c s' = fake_quotes c s"
    and "distinct (map fst xs)"
    and "\<forall>(i, p) \<in> set xs. \<exists>j. fake_jobs c s i = Some j \<and> jv_status j = Queued \<and> jv_pair j = p"
    and "fake_jobs c s' = claim_jobs (fst ` set xs) (fake_jobs c s)"
proof -
  obtain al where al: "fw_jobs s = Some al" "distinct (map fst al)" "\<forall>(i, j) \<in> set al. U_ID j = i"
    "\<forall>n ks. mset (fw_order s n ks) = mset ks" using ok by (rule fake_okE)
  obtain al' out where loop: "claim_loop n (visit_order s al) al [] = (al', out)" by fastforce
  have "mset (visit_order s al) = mset (map fst al)" using al(4) by (simp add: visit_order_def)
  then have "distinct (visit_order s al)" using al(2) by (metis mset_eq_imp_distinct_iff)
  from claim_loop_spec [OF this al(2,3) loop] have
    c: "claimed out (map_of al) (map_of al')" and al': "distinct (map fst al')" "\<forall>(i, j) \<in> set al'. U_ID j = i"
    by auto
  have s': "r = Ok out" "s' = s\<lparr>fw_jobs := Some al', fw_ticks := fw_ticks s + 1\<rparr>"
    using run al loop by (auto simp: fake_ClaimQueued_def)
  show thesis
  proof
    show "r = Ok out" by (rule s')
    show "fake_ok c s'" unfolding s' by (rule fake_ok_jobs(1) [OF ok al'])
    show "fake_quotes c s' = fake_quotes c s" by (simp add: fake_quotes_def s')
    show "distinct (map fst out)" using c by (simp add: claimed_def)
    show "\<forall>(i, p) \<in> set out. \<exists>j. fake_jobs c s i = Some j \<and> jv_status j = Queued \<and> jv_pair j = p"
      using c al(1) by (fastforce simp: claimed_def fake_jobs_def)
    show "fake_jobs c s' = claim_jobs (fst ` set out) (fake_jobs c s)"
      using c al(1) by (auto simp: claimed_def fake_jobs_def s' claim_jobs_def fun_eq_iff)
  qed
qed

lemma fake_create_effect:
  assumes ok: "fake_ok c s" and run: "fake_CreateQueued c p k s = (r, s')"
  shows "r = Ok ''update-1'' \<and> fake_ok c s' \<and> fake_quotes c s' = fake_quotes c s \<and>
    fake_jobs c s' = (fake_jobs c s)(''update-1'' \<mapsto> \<lparr>jv_pair = p, jv_status = Queued, jv_error = None\<rparr>)"
proof -
  obtain al where al: "fw_jobs s = Some al" "distinct (map fst al)" "\<forall>(i, j) \<in> set al. U_ID j = i"
    using ok by (rule fake_okE)
  let ?j = "\<lparr>U_ID = ''update-1'', U_Pair = p, U_Status = Queued, U_Error = None, U_Price = None,
    U_UpdatedAt = fw_clock s (fw_ticks s)\<rparr>"
  have ids: "\<forall>(i, j) \<in> set (AList.update ''update-1'' ?j al). U_ID j = i" by (intro ids_update al(3)) simp
  have s': "r = Ok ''update-1''" "s' = s\<lparr>fw_ticks := fw_ticks s + 1, fw_jobs := Some (AList.update ''update-1'' ?j al)\<rparr>"
    using run al by (auto simp: fake_CreateQueued_def io_simps fw_time_def Let_def)
  have "fake_ok c s'" unfolding s'(2) by (rule fake_ok_jobs(2) [OF ok distinct_update [OF al(2)] ids])
  moreover have "fake_jobs c s' = (fake_jobs c s)(''update-1'' \<mapsto> \<lparr>jv_pair = p, jv_status = Queued, jv_error = None\<rparr>)"
    by (rule ext) (simp add: s' fake_jobs_def AList.update_conv' al(1))
  ultimately show ?thesis using s' by (simp add: fake_quotes_def)
qed


lemma fakeQuoteRepo_simps [simp]:
  "GetLast fakeQuoteRepo = fake_GetLast" "Upsert fakeQuoteRepo = fake_Upsert"
  "AppendHistory fakeQuoteRepo = fake_AppendHistory"
  by (simp_all add: fakeQuoteRepo_def)

lemma fakeUpdateJobRepo_simps [simp]:
  "CreateQueued fakeUpdateJobRepo = fake_CreateQueued" "GetByID fakeUpdateJobRepo = fake_GetByID"
  "UpdateStatus fakeUpdateJobRepo = fake_UpdateStatus" "ClaimQueued fakeUpdateJobRepo = fake_ClaimQueued"
  by (simp_all add: fakeUpdateJobRepo_def)

interpretation fake_job: job_port fakeUpdateJobRepo fake_ok fake_jobs "\<lambda>i. i"
proof (unfold_locales, simp_all)
  fix c s i st err and s' :: fake_world
  assume ok: "fake_ok c s"
  { assume "fake_UpdateStatus c i st err s = (Ok (), s')"
    from fake_update_effect [OF ok this]
    show "i \<in> dom (fake_jobs c s) \<and> fake_jobs c s' = set_job i st err (fake_jobs c s)"
      by (auto split: option.splits) }
  { fix e assume "fake_UpdateStatus c i st err s = (Err e, s')"
    from fake_update_effect [OF ok this]
    show "fake_jobs c s' = fake_jobs c s \<or> fake_jobs c s' = set_job i st err (fake_jobs c s)"
      by (auto split: option.splits) }
  { fix p show "fake_UpdateStatus c i st err s \<noteq> (Panic p, s')"
    proof
      assume "fake_UpdateStatus c i st err s = (Panic p, s')"
      from fake_update_effect [OF ok this] show False by (auto split: option.splits)
    qed }
  show "fake_ok c (snd (fake_UpdateStatus c i st err s))"
    using fake_update_effect [OF ok prod.collapse [symmetric]] by blast
next
  fix c s n xs and s' :: fake_world
  assume ok: "fake_ok c s"
  { fix xs assume "fake_ClaimQueued c n s = (Ok xs, s')"
    then show "distinct (map fst xs) \<and>
        (\<forall>x \<in> set xs. case x of (i, p) \<Rightarrow> \<exists>j. fake_jobs c s i = Some j \<and> jv_status j = Queued \<and> jv_pair j = p) \<and>
        fake_jobs c s' = claim_jobs (fst ` set xs) (fake_jobs c s)"
      by (rule fake_claim_effect [OF ok]) auto }
  { fix e assume "fake_ClaimQueued c n s = (Err e, s')"
    then show "\<exists>ids. (\<forall>i \<in> ids. \<exists>j. fake_jobs c s i = Some j \<and> jv_status j = Queued) \<and>
        fake_jobs c s' = claim_jobs ids (fake_jobs c s)"
      by (rule fake_claim_effect [OF ok]) auto }
  { fix p show "fake_ClaimQueued c n s \<noteq> (Panic p, s')"
      by (rule notI, erule fake_claim_effect [OF ok]) auto }
  show "fake_ok c (snd (fake_ClaimQueued c n s))"
    by (rule fake_claim_effect [OF ok prod.collapse [symmetric]])
next
  fix c s p k i and s' :: fake_world
  assume ok: "fake_ok c s"
  { assume "fake_CreateQueued c p k s = (Ok i, s')"
    from fake_create_effect [OF ok this]
    show "fake_jobs c s' = (fake_jobs c s)(i \<mapsto> \<lparr>jv_pair = p, jv_status = Queued, jv_error = None\<rparr>)" by simp }
  show "fake_ok c (snd (fake_CreateQueued c p k s))"
    using fake_create_effect [OF ok prod.collapse [symmetric]] by blast
next
  fix c s i u and s' :: fake_world
  assume ok: "fake_ok c s" and run: "fake_GetByID c i s = (Ok u, s')"
  then obtain al where al: "fw_jobs s = Some al" "\<forall>(i, j) \<in> set al. U_ID j = i" and m: "map_of al i = Some u"
    by (auto simp: fake_GetByID_def elim!: fake_okE split: option.splits)
  then have "U_ID u = i" by (auto dest: map_of_SomeD)
  then show "fake_jobs c s (U_ID u) = Some \<lparr>jv_pair = U_Pair u, jv_status = U_Status u, jv_error = U_Error u\<rparr>"
    using al(1) m by (simp add: fake_jobs_def)
next
  fix c s i
  show "fake_jobs c (snd (fake_GetByID c i s)) = fake_jobs c s"
    by (simp add: fake_GetByID_def split: option.split)
qed

interpretation fake_quote: quote_port fakeQuoteRepo fake_ok fake_quotes "\<lambda>q. q" "\<lambda>p q. q" "\<lambda>c s. ()" "\<lambda>h u. u"
  by unfold_locales
    (auto simp: fake_Upsert_def fake_GetLast_def fake_AppendHistory_def fake_quotes_def fake_ok_def io_simps
      Let_def AList.update_conv' map_of_opt_def fun_eq_iff split: option.splits)

interpretation noop_unit: uow_port NoopUoW fake_ok "\<lambda>c s. (fake_jobs c s, fake_quotes c s, ())"
  by unfold_locales (auto simp: NoopUoW_def)

interpretation fake_rate: rate_port fakeRateProvider fake_ok "\<lambda>c s. (fake_jobs c s, fake_quotes c s, ())"
  by unfold_locales
    (auto simp: fakeRateProvider_def fake_rate_Get_def fw_time_def io_simps fake_ok_def fake_jobs_def fake_quotes_def)

interpretation fake_fx: fx_service fakeUpdateJobRepo fake_ok fake_jobs "\<lambda>i. i" fakeQuoteRepo fake_quotes
  "\<lambda>q. q" "\<lambda>p q. q" "\<lambda>c s. ()" "\<lambda>h u. u" NoopUoW "NewInMemoryService uuid"
  for uuid :: "(fake_world, string) io"
proof (unfold_locales, simp_all add: NewInMemoryService_def NewService_def)
  fix c s i st err
  assume ok: "fake_ok c s"
  show "fake_quotes c (snd (fake_UpdateStatus c i st err s)) = fake_quotes c s"
    using fake_update_effect [OF ok prod.collapse [symmetric]] by blast
next
  fix c s n
  assume ok: "fake_ok c s"
  show "fake_quotes c (snd (fake_ClaimQueued c n s)) = fake_quotes c s"
    by (rule fake_claim_effect [OF ok prod.collapse [symmetric]])
next
  fix c s q
  show "fake_jobs c (snd (fake_Upsert c q s)) = fake_jobs c s"
    by (simp add: fake_Upsert_def fake_jobs_def fun_eq_iff)
next
  fix c s h
  show "fake_jobs c (snd (fake_AppendHistory c h s)) = fake_jobs c s"
    by (simp add: fake_AppendHistory_def io_return_eq)
qed


lemma NewInMemoryService_simps [simp]:
  "quoteRepo (NewInMemoryService uuid) = Some fakeQuoteRepo"
  "updateJobRepo (NewInMemoryService uuid) = Some fakeUpdateJobRepo"
  "rateProvider (NewInMemoryService uuid) = Some fakeRateProvider"
  "uow (NewInMemoryService uuid) = NoopUoW"
  by (simp_all add: NewInMemoryService_def NewService_def)

text \<open>
  Over the in-memory repositories, whose unit of work is no transaction, a completion is not
  atomic: completing a job that exists has the effect the contract asks for, while completing an
  id nobody created returns \<open>not found\<close> after the quote has been replaced.
\<close>

theorem in_memory_completion:
  assumes ok: "fake_ok c s" and q: "fetch c s = (Ok q, s)"
    and run: "CompleteQuoteUpdate (NewInMemoryService uuid) c i fetch src s = (r, s')"
  shows "fake_quotes c s' = (fake_quotes c s)(Q_Pair q \<mapsto> q) \<and>
    (if i \<in> dom (fake_jobs c s) then r = Ok () \<and> fake_jobs c s' = set_job i Done None (fake_jobs c s)
     else r = Err ErrNotFound \<and> fake_jobs c s' = fake_jobs c s)"
proof -
  define s1 where "s1 = snd (fake_Upsert c q s)"
  have up: "fake_Upsert c q s = (Ok (), s1)" by (simp add: s1_def fake_Upsert_def Let_def)
  have ok1: "fake_ok c s1" and q1: "fake_quotes c s1 = (fake_quotes c s)(Q_Pair q \<mapsto> q)"
    using fake_quote.upsert_ok [of c s q s1] fake_quote.upsert_inv [OF ok, of q] ok up by simp_all
  have j1: "fake_jobs c s1 = fake_jobs c s" using fake_fx.upsert_jobs [OF ok, of q] up by simp
  have same: "\<lparr>Q_Pair = Q_Pair q, Q_Price = Q_Price q, Q_UpdatedAt = Q_UpdatedAt q\<rparr> = q" by simp
  have "fake_UpdateStatus c i Done None s1 = (r, s')"
    using run by (simp add: CompleteQuoteUpdate_def complete_tx_def NoopUoW_def io_simps q same
        fake_AppendHistory_def up split: prod.splits outcome.splits)
  from fake_update_effect [OF ok1 this] show ?thesis
    by (auto simp: q1 j1 split: option.splits)
qed

lemma in_memory_completion_witness:
  "let c = ctx_background; s = new_maps (\<lambda>n ks. ks) (\<lambda>n. 0); q = \<lparr>Q_Pair = ''EUR/USD'', Q_Price = Fin 2, Q_UpdatedAt = 0\<rparr>;
       s' = snd (CompleteQuoteUpdate (NewInMemoryService (io_return [])) c ''x'' (\<lambda>_. io_return q) ''db'' s)
   in fst (CompleteQuoteUpdate (NewInMemoryService (io_return [])) c ''x'' (\<lambda>_. io_return q) ''db'' s) = Err ErrNotFound \<and>
      fake_quotes c s' ''EUR/USD'' = Some q"
proof -
  let ?c = ctx_background and ?s = "new_maps (\<lambda>n ks. ks) (\<lambda>n. 0)"
  let ?q = "\<lparr>Q_Pair = ''EUR/USD'', Q_Price = Fin 2, Q_UpdatedAt = 0\<rparr> :: Quote"
  have ok: "fake_ok ?c ?s" by (rule fake_ok_new) simp
  have "''x'' \<notin> dom (fake_jobs ?c ?s)" by (simp add: fake_jobs_def new_maps_def dom_def)
  with in_memory_completion [OF ok, of "\<lambda>_. io_return ?q" ?q "io_return []" "''x''" "''db''", OF io_return_eq
      prod.collapse [symmetric]]
  show ?thesis unfolding Let_def by simp
qed

end
