(* ===== verification/Spec2Isabelle.thy ===== *)
theory Spec2Isabelle
  imports Books Dispatch Boot_Facts Fakes
begin

text \<open>
  A verification library for the FX rates service, a Go program that takes requests to update the
  price of a currency pair, queues them, fetches the price and serves updates and last prices.

  \<^bold>\<open>The program.\<close> An API process (\<^verbatim>\<open>cmd/api\<close>) answers HTTP requests. An accepted request
  reserves its idempotency key in Redis and inserts a queued job into Postgres. The job is done in
  one of three modes: \<^verbatim>\<open>db\<close>, in which worker processes (\<^verbatim>\<open>cmd/worker\<close>) poll the table and claim
  jobs; \<^verbatim>\<open>chan\<close>, in which the API hands it over a bounded channel to goroutines of its own; and
  \<^verbatim>\<open>grpc\<close>, in which a goroutine of the API asks a worker for the price over gRPC. In all of them
  \<open>CompleteQuoteUpdate\<close> writes the history, the last price and the job's status in one transaction.

  \<^bold>\<open>How code is modelled.\<close> A Go function with effects is a function of the state with an outcome:
  a value, an error, or a panic (type \<open>io\<close> of theory Prelude); \<open>io_try\<close> is the code's
  \<open>if err != nil\<close>, and a panic passes it. Interfaces are records of functions. Contexts carry their
  deadline, the ids of a request and a transaction. Strings are lists of bytes; a float64 is a
  rational that rounding has made representable, or an infinity or not-a-number (Go_Float; the sign
  of zero is not kept); integers are \<open>int\<close> with the wrap-around where it can happen (\<open>millis\<close>,
  \<open>int32\<close>); times are nanoseconds since 1970 in UTC (Go_Time). What is not code of the repository
  is a parameter: the Postgres server (\<open>pg_env\<close>: its clock, its choice of ids, which rows others
  have locked, the scan order, and for every round trip whether it is answered, refused, lost
  before or after its effect), Redis, chi's matching of paths, net/http, the backoff library, zap,
  the migration library, the gRPC connection, and the text of library errors.

  \<^bold>\<open>Theories\<close>, from the bottom up; source paths are below \<^verbatim>\<open>internal\<close>.
  \<^item> Prelude, Go_Strings, Go_Float, Go_Time: outcomes, contexts, text, float64 and float32 rounding,
    RFC 3339 times with the round trip of formatting and parsing.
  \<^item> Domain (\<^verbatim>\<open>domain\<close>); Ports (\<^verbatim>\<open>application/ports.go\<close>, \<^verbatim>\<open>uow.go\<close>): the interfaces the service
    relies on, with their contracts as locales (job and quote repositories, unit of work).
  \<^item> Service (\<^verbatim>\<open>application/service.go\<close>): all its operations, with the lemmas that hold under the
    contracts, proved once inside the locales.
  \<^item> Pg_Tables, Pg_Store (\<^verbatim>\<open>infrastructure/pg\<close>): tables with the constraints of the migrations, one
    definition per statement; connections, transactions and the repositories; the interpretations
    of the contracts. Pg_Service: the service over them. Fakes: the in-memory repositories
    (\<^verbatim>\<open>http/fakes.go\<close>) with their own interpretations.
  \<^item> Idempotency (\<^verbatim>\<open>redis\<close>), Httpx (\<^verbatim>\<open>httpx\<close>), Provider and Api_Json (\<^verbatim>\<open>provider\<close>), Config (\<^verbatim>\<open>config\<close>).
  \<^item> Json, Json_Encode: the part of \<^verbatim>\<open>encoding/json\<close> the program uses. Openapi (\<^verbatim>\<open>http/openapi\<close>),
    Http_Wire (requests, the response writer, the status recorder), Http_Server (\<^verbatim>\<open>http/server.go\<close>),
    Http_Router (\<^verbatim>\<open>http/router.go\<close>), Http_Facts (what clients see), Http_Effects (what a request can
    do to the state behind the services).
  \<^item> Workers (\<^verbatim>\<open>worker\<close> and the channel bus of \<^verbatim>\<open>bootstrap/providers.go\<close>), Pg_Workers (the workers
    over the database), Grpc (\<^verbatim>\<open>grpc/rateserver\<close>, \<^verbatim>\<open>grpc/rateclient\<close> and the dispatcher).
  \<^item> Bootstrap, Boot_Facts (\<^verbatim>\<open>bootstrap\<close>, \<^verbatim>\<open>pg.go\<close>, \<^verbatim>\<open>migrate.go\<close>, \<^verbatim>\<open>logx\<close> and the mains): the injectors
    as traces of what they open and close.
  \<^item> Job_Life, System, End_To_End: the abstract life of a job, the database mode as a transition
    system over all processes, and the path from a request to its price. Books: the agreement of
    jobs, prices and history in that system. Dispatch: the channel and the gRPC mode as transition
    systems over all goroutines, and the direct life of their jobs.

  \<^bold>\<open>What is shown.\<close>
  \<^item> The whole database mode refines the life of the jobs (created queued, claimed, done or failed)
    in every interleaving of requests, workers, crashes and failures of the database; jobs are well
    formed, held by one worker at a time, and final once settled; \<open>ProcessQueueBatch\<close> is a run of
    the steps of that system. With the provider of the configuration the three tables agree at
    every point: no entry without a current price or for an unfinished job, no price and no done
    job without an entry.
  \<^item> In the channel and the gRPC mode jobs go from queued to done or failed directly and are final
    then; the process with its channel and workers refines a mode with an unordered set of
    messages; the handler dispatches exactly once per job, and a message taken is completed when
    its environment answers.
  \<^item> From the status of an answer: 202 means a new queued job with the id of the answer, which an
    undisturbed worker completes; other statuses create nothing, save one hidden behind a lost 500.
  \<^item> Each request is answered once, with a status of the API, the right body and both ids; panics
    become 500; what clients parse is what the service meant.
  \<^item> A completion is atomic whatever the database does, succeeds when it answers, and reads back;
    stored prices are close to the fetched ones.
  \<^item> One job per idempotency key; the bus delivers the messages of the calls of \<open>Enqueue\<close> that returned
    nil, and no others, once and in order, while calls wait and workers come and go; the workers return,
    drain the queue in a bounded number of ticks, and keep to their own jobs.
  \<^item> The rate of a pair is the rounded quotient of the API's prices; its JSON is decoded to what its
    members say, in any order and beside any others; fetching over gRPC is fetching, and a server
    that dies in a call is an error of the client. Every duration setting is read exactly, or wraps.
  \<^item> The processes leak nothing when they fail to start, wait for the database for at most thirty
    pings, and release everything in their cleanup.
  \<^item> Some properties state flaws of the code: a failed request burns its key, unfinished jobs are
    never reclaimed, a panic ends the database worker, a fatal end skips the cleanup, a dispatch
    that fails follows an answer that was already sent.

  \<^bold>\<open>Bounds and fuel.\<close> The JSON parser takes twice the length of its text and two as fuel, one unit
  per value and one per element, so that no text runs out; it refuses a nesting of more than 10000
  levels as the library does. The shortest decimal of a float32 is searched up to nine digits,
  which always suffice. Loops over events (\<open>chan_Start\<close>, \<open>db_loop\<close>) are recursions over the list of
  events of a run; the ping loop counts down from thirty; all other recursions are structural.

  \<^bold>\<open>Not modelled.\<close> The statements of one transaction are not interleaved with other processes
  (\<open>Do\<close> is one step of the system; what is seen half-way is not claimed), and the scheduling of
  goroutines within one handler. Logging of the service, the repositories and the gRPC server (the
  HTTP layer's log entries are modelled), zap itself, chi's routing and the transport of net/http.
  The generated \<^verbatim>\<open>ratepb\<close> messages, of which only the fields are kept, and \<^verbatim>\<open>bootstrap/wire.go\<close>,
  which is input of a generator and not part of the build. Loading of the \<^verbatim>\<open>.env\<close> file: the
  environment is a parameter. Time zones: stored and fetched times are taken as UTC.
\<close>

end
